(* ===== verification/Py_Prelude.thy ===== *)
theory Py_Prelude
  imports Main "HOL-Library.Char_ord" "HOL-Library.List_Lexorder" "HOL-Library.Product_Lexorder"
    "HOL-Library.AList" "HOL-Library.Multiset"
    "HOL-Library.Code_Target_Nat"
begin

section \<open>Prelude: Python values, errors, dicts, strings and randomness\<close>

text \<open>
  What every component theory shares.

  \<^item> \<open>py_error\<close> has one constructor per exception class the modelled code raises or catches;
    \<open>'a result\<close> is \<open>py_error + 'a\<close>, with \<open>Inl\<close> for a raised exception.
  \<^item> \<open>pyval\<close> is a Python value as \<open>json.loads\<close> or the query parser builds it. A dict is an
    association list in insertion order: \<open>map_of\<close> is \<open>dict.get\<close>, \<open>AList.update\<close> is item
    assignment (it replaces in place or appends), \<open>AList.delete\<close> is \<open>pop\<close>.
  \<^item> A Python \<open>str\<close> is a list of \<open>char\<close>, that is of the code points 0 to 255. Whitespace, digits,
    case mapping and UTF-8 below are Python's on exactly these code points.
  \<^item> Randomness is an explicit stream of draws (\<open>rng\<close>); \<open>randrange\<close> consumes one draw and reduces
    it modulo its bound, so quantifying over all streams ranges over all outcomes.
\<close>

named_theorems result_simps \<open>evaluation of result-valued programs\<close>
named_theorems invariants \<open>preservation facts of the components' invariants\<close>

subsection \<open>Exceptions and results\<close>

datatype py_error =
    ValueError string
  | TypeError string
  | KeyError string
  | IndexError
  | AttributeError
  | OverflowError
  | RuntimeError string
  | AssertionError
  | AddrFormatError string
  | QueryParserError
  | DatabaseError
  | OtherError string

type_synonym 'a result = "py_error + 'a"

definition bind_result :: "'a result \<Rightarrow> ('a \<Rightarrow> 'b result) \<Rightarrow> 'b result" where
  "bind_result m f = (case m of Inl e \<Rightarrow> Inl e | Inr x \<Rightarrow> f x)"

lemma bind_result_simps [simp, result_simps]:
  "bind_result (Inl e) f = Inl e"
  "bind_result (Inr x) f = f x"
  by (simp_all add: bind_result_def)

lemma bind_result_Inr_iff [result_simps]:
  "bind_result m f = Inr y \<longleftrightarrow> (\<exists>x. m = Inr x \<and> f x = Inr y)"
  by (cases m) simp_all

lemma bind_result_Inl_iff:
  "bind_result m f = Inl e \<longleftrightarrow> m = Inl e \<or> (\<exists>x. m = Inr x \<and> f x = Inl e)"
  by (cases m) simp_all

definition returns :: "'a result \<Rightarrow> bool" where
  "returns m \<longleftrightarrow> (case m of Inl _ \<Rightarrow> False | Inr _ \<Rightarrow> True)"

lemma returns_simps [simp, result_simps]: "returns (Inr x)" "\<not> returns (Inl e)"
  by (simp_all add: returns_def)

lemma returns_iff: "returns m \<longleftrightarrow> (\<exists>x. m = Inr x)"
  by (cases m) simp_all

text \<open>A comprehension whose body may raise: the first exception wins.\<close>

fun mapr :: "('a \<Rightarrow> 'b result) \<Rightarrow> 'a list \<Rightarrow> 'b list result" where
  "mapr f [] = Inr []"
| "mapr f (x # xs) = bind_result (f x) (\<lambda>y. bind_result (mapr f xs) (\<lambda>ys. Inr (y # ys)))"

lemma mapr_Inr: "(\<And>x. x \<in> set xs \<Longrightarrow> f x = Inr (g x)) \<Longrightarrow> mapr f xs = Inr (map g xs)"
  by (induction xs) auto

lemma mapr_length: "mapr f xs = Inr ys \<Longrightarrow> length ys = length xs"
  by (induction xs arbitrary: ys) (auto simp: bind_result_Inr_iff)

lemma mapr_InrD: "mapr f xs = Inr ys \<Longrightarrow> x \<in> set xs \<Longrightarrow> \<exists>y \<in> set ys. f x = Inr y"
  by (induction xs arbitrary: ys) (auto simp: bind_result_Inr_iff)

text \<open>A for loop whose body may raise and updates a state.\<close>

fun foldr_result :: "('s \<Rightarrow> 'a \<Rightarrow> 's result) \<Rightarrow> 's \<Rightarrow> 'a list \<Rightarrow> 's result" where
  "foldr_result f s [] = Inr s"
| "foldr_result f s (x # xs) = bind_result (f s x) (\<lambda>s'. foldr_result f s' xs)"

lemma foldr_result_invariant:
  assumes "foldr_result f s xs = Inr s'" and "P s"
    and "\<And>s x s'. x \<in> set xs \<Longrightarrow> P s \<Longrightarrow> f s x = Inr s' \<Longrightarrow> P s'"
  shows "P s'"
  using assms by (induction xs arbitrary: s) (auto simp: bind_result_Inr_iff)

subsection \<open>Python values\<close>

datatype pykey = KStr string | KInt int

text \<open>\<open>PFloat m e\<close> is the decimal literal \<open>m * 10 ^ e\<close>.\<close>

datatype pyval =
    PNone
  | PBool bool
  | PInt int
  | PFloat int int
  | PStr string
  | PList "pyval list"
  | PDict "(pykey \<times> pyval) list"

abbreviation dict_get :: "(pykey \<times> pyval) list \<Rightarrow> string \<Rightarrow> pyval option" where
  "dict_get d k \<equiv> map_of d (KStr k)"

text \<open>\<open>d.get(k)\<close>: a missing key reads as \<open>None\<close>.\<close>

definition dict_get_none :: "(pykey \<times> pyval) list \<Rightarrow> string \<Rightarrow> pyval" where
  "dict_get_none d k = (case dict_get d k of None \<Rightarrow> PNone | Some v \<Rightarrow> v)"

fun is_dict :: "pyval \<Rightarrow> bool" where
  "is_dict (PDict _) = True"
| "is_dict _ = False"

fun is_str :: "pyval \<Rightarrow> bool" where
  "is_str (PStr _) = True"
| "is_str _ = False"

fun str_of :: "pyval \<Rightarrow> string" where
  "str_of (PStr s) = s"
| "str_of _ = ''''"

fun int_of :: "pyval \<Rightarrow> int" where
  "int_of (PInt i) = i"
| "int_of _ = 0"

fun bool_of :: "pyval \<Rightarrow> bool" where
  "bool_of (PBool b) = b"
| "bool_of _ = False"

fun list_of :: "pyval \<Rightarrow> pyval list" where
  "list_of (PList xs) = xs"
| "list_of _ = []"

text \<open>\<open>bool(v)\<close>.\<close>

fun truthy :: "pyval \<Rightarrow> bool" where
  "truthy PNone = False"
| "truthy (PBool b) = b"
| "truthy (PInt i) = (i \<noteq> 0)"
| "truthy (PFloat m e) = (m \<noteq> 0)"
| "truthy (PStr s) = (s \<noteq> [])"
| "truthy (PList xs) = (xs \<noteq> [])"
| "truthy (PDict d) = (d \<noteq> [])"

text \<open>The string-keyed items of a dict parsed from JSON or TOML.\<close>

fun str_items :: "(pykey \<times> pyval) list \<Rightarrow> (string \<times> pyval) list" where
  "str_items [] = []"
| "str_items ((KStr k, v) # d) = (k, v) # str_items d"
| "str_items ((KInt _, v) # d) = str_items d"

subsection \<open>Grouping\<close>

text \<open>\<open>groups = defaultdict(list); for x in xs: groups[f(x)].append(x)\<close>.\<close>

definition dict_append :: "'k \<Rightarrow> 'a \<Rightarrow> ('k \<times> 'a list) list \<Rightarrow> ('k \<times> 'a list) list" where
  "dict_append k x d = AList.update k ((case map_of d k of None \<Rightarrow> [] | Some g \<Rightarrow> g) @ [x]) d"

fun group_into :: "('a \<Rightarrow> 'k) \<Rightarrow> ('k \<times> 'a list) list \<Rightarrow> 'a list \<Rightarrow> ('k \<times> 'a list) list" where
  "group_into f d [] = d"
| "group_into f d (x # xs) = group_into f (dict_append (f x) x d) xs"

definition group_by :: "('a \<Rightarrow> 'k) \<Rightarrow> 'a list \<Rightarrow> ('k \<times> 'a list) list" where
  "group_by f xs = group_into f [] xs"

abbreviation list_at :: "('k \<times> 'a list) list \<Rightarrow> 'k \<Rightarrow> 'a list" where
  "list_at d k \<equiv> (case map_of d k of None \<Rightarrow> [] | Some g \<Rightarrow> g)"

lemma map_of_dict_append:
  "map_of (dict_append k x d) k' = (if k' = k then Some (list_at d k @ [x]) else map_of d k')"
  by (simp add: dict_append_def update_conv')

lemma map_of_group_into:
  "map_of (group_into f d xs) k =
     (if k \<in> f ` set xs then Some (list_at d k @ filter (\<lambda>x. f x = k) xs) else map_of d k)"
proof (induction xs arbitrary: d)
  case (Cons x xs)
  have "filter (\<lambda>y. f y = k) xs = []" if "k \<notin> f ` set xs"
    using that by (auto simp: filter_empty_conv)
  with Cons.IH [of "dict_append (f x) x d"] show ?case
    by (cases "k \<in> f ` set xs"; cases "k = f x") (simp_all add: map_of_dict_append image_iff)
qed simp

lemma map_of_group_by:
  "map_of (group_by f xs) k = (if k \<in> f ` set xs then Some (filter (\<lambda>x. f x = k) xs) else None)"
  by (simp add: group_by_def map_of_group_into)

lemma distinct_group_into: "distinct (map fst d) \<Longrightarrow> distinct (map fst (group_into f d xs))"
  by (induction xs arbitrary: d) (auto simp: dict_append_def distinct_update)

lemma distinct_group_by [simp]: "distinct (map fst (group_by f xs))"
  by (simp add: group_by_def distinct_group_into)

lemma keys_group_by: "fst ` set (group_by f xs) = f ` set xs"
proof -
  have "fst ` set (group_by f xs) = dom (map_of (group_by f xs))" by (simp add: dom_map_of_conv_image_fst)
  also have "\<dots> = f ` set xs" by (auto simp: map_of_group_by dom_def)
  finally show ?thesis .
qed

lemma group_by_mem:
  "(k, g) \<in> set (group_by f xs) \<longleftrightarrow> k \<in> f ` set xs \<and> g = filter (\<lambda>x. f x = k) xs"
proof -
  have "(k, g) \<in> set (group_by f xs) \<longleftrightarrow> map_of (group_by f xs) k = Some g"
    by (rule map_of_eq_Some_iff [symmetric]) simp
  then show ?thesis by (auto simp: map_of_group_by)
qed

end
