(* ===== verification/Py_Strings.thy ===== *)
theory Py_Strings
  imports Py_Prelude
begin

section \<open>Python string operations\<close>

text \<open>
  The methods of \<open>str\<close> and \<open>bytes\<close> the modelled code calls, on code points 0 to 255:
  \<open>split\<close>, \<open>partition\<close>, \<open>strip\<close>, \<open>lower\<close>, \<open>upper\<close>, \<open>isdigit\<close>, \<open>find\<close>, \<open>replace\<close>, \<open>join\<close>,
  \<open>int\<close>, \<open>encode('utf-8')\<close>, \<open>int.to_bytes\<close> and \<open>int.from_bytes\<close>.
\<close>

subsection \<open>Character classes and case\<close>

abbreviation code :: "char \<Rightarrow> nat" where
  "code c \<equiv> of_char c"

definition is_space :: "char \<Rightarrow> bool" where
  "is_space c \<longleftrightarrow> (9 \<le> code c \<and> code c \<le> 13) \<or> (28 \<le> code c \<and> code c \<le> 32) \<or>
     code c = 133 \<or> code c = 160"

definition is_decimal :: "char \<Rightarrow> bool" where
  "is_decimal c \<longleftrightarrow> 48 \<le> code c \<and> code c \<le> 57"

text \<open>\<open>str.isdigit\<close> also accepts the superscripts two, three and one.\<close>

definition is_digit_char :: "char \<Rightarrow> bool" where
  "is_digit_char c \<longleftrightarrow> is_decimal c \<or> code c = 178 \<or> code c = 179 \<or> code c = 185"

definition str_isdigit :: "string \<Rightarrow> bool" where
  "str_isdigit s \<longleftrightarrow> s \<noteq> [] \<and> list_all is_digit_char s"

definition lower_char :: "char \<Rightarrow> char" where
  "lower_char c = (if (65 \<le> code c \<and> code c \<le> 90) \<or> (192 \<le> code c \<and> code c \<le> 222 \<and> code c \<noteq> 215)
     then char_of (code c + 32) else c)"

definition str_lower :: "string \<Rightarrow> string" where
  "str_lower s = map lower_char s"

text \<open>
  \<open>str.upper\<close>: sharp s becomes two letters; the micro sign and y with diaeresis leave the range of
  the model's characters and are kept as they are.
\<close>

definition upper_char :: "char \<Rightarrow> string" where
  "upper_char c =
     (if code c = 223 then ''SS''
      else if (97 \<le> code c \<and> code c \<le> 122) \<or> (224 \<le> code c \<and> code c \<le> 254 \<and> code c \<noteq> 247)
      then [char_of (code c - 32)] else [c])"

definition str_upper :: "string \<Rightarrow> string" where
  "str_upper s = concat (map upper_char s)"

subsection \<open>Splitting, joining, searching\<close>

text \<open>\<open>s.split(c)\<close> for a one-character separator.\<close>

fun split_on :: "char \<Rightarrow> string \<Rightarrow> string list" where
  "split_on c [] = [[]]"
| "split_on c (x # xs) =
     (if x = c then [] # split_on c xs
      else (case split_on c xs of [] \<Rightarrow> [[x]] | w # ws \<Rightarrow> (x # w) # ws))"

text \<open>\<open>s.split()\<close>: runs of white space separate, empty words are dropped.\<close>

fun split_ws_aux :: "string \<Rightarrow> string \<Rightarrow> string list" where
  "split_ws_aux w [] = (if w = [] then [] else [rev w])"
| "split_ws_aux w (x # xs) =
     (if is_space x then (if w = [] then split_ws_aux [] xs else rev w # split_ws_aux [] xs)
      else split_ws_aux (x # w) xs)"

definition split_ws :: "string \<Rightarrow> string list" where
  "split_ws s = split_ws_aux [] s"

text \<open>\<open>s.partition(c)\<close>: before, whether the separator occurs, after.\<close>

definition str_partition :: "char \<Rightarrow> string \<Rightarrow> string \<times> bool \<times> string" where
  "str_partition c s =
     (let a = takeWhile (\<lambda>x. x \<noteq> c) s; b = dropWhile (\<lambda>x. x \<noteq> c) s
      in (a, b \<noteq> [], tl b))"

definition strip :: "string \<Rightarrow> string" where
  "strip s = rev (dropWhile is_space (rev (dropWhile is_space s)))"

text \<open>\<open>sep.join(ws)\<close>.\<close>

fun join :: "string \<Rightarrow> string list \<Rightarrow> string" where
  "join sep [] = []"
| "join sep [w] = w"
| "join sep (w # v # ws) = w @ sep @ join sep (v # ws)"

text \<open>\<open>s.find(c, start)\<close>, with \<open>None\<close> for -1.\<close>

fun find_char :: "char \<Rightarrow> string \<Rightarrow> nat option" where
  "find_char c [] = None"
| "find_char c (x # xs) = (if x = c then Some 0 else map_option Suc (find_char c xs))"

definition find_from :: "char \<Rightarrow> string \<Rightarrow> nat \<Rightarrow> nat option" where
  "find_from c s start = map_option (\<lambda>i. start + i) (find_char c (drop start s))"

fun starts_with :: "string \<Rightarrow> string \<Rightarrow> bool" where
  "starts_with [] s = True"
| "starts_with (p # ps) [] = False"
| "starts_with (p # ps) (x # xs) = (p = x \<and> starts_with ps xs)"

text \<open>\<open>s.replace(tok, rep)\<close> for a non-empty token: left to right, without overlap.\<close>

function str_replace :: "string \<Rightarrow> string \<Rightarrow> string \<Rightarrow> string" where
  "str_replace tok rep s =
     (if tok = [] \<or> s = [] then s
      else if starts_with tok s then rep @ str_replace tok rep (drop (length tok) s)
      else hd s # str_replace tok rep (tl s))"
  by pat_completeness auto
termination
  by (relation "measure (\<lambda>(tok, rep, s). length s)") (auto simp: neq_Nil_conv)

declare str_replace.simps [simp del]

lemma find_char_Some:
  "find_char c s = Some i \<Longrightarrow> i < length s \<and> s ! i = c \<and> c \<notin> set (take i s)"
  by (induction s arbitrary: i) (auto split: if_splits)

lemma find_char_None: "find_char c s = None \<longleftrightarrow> c \<notin> set s"
  by (induction s) auto

lemma split_on_nonempty [simp]: "split_on c s \<noteq> []"
  by (induction s) (auto split: list.splits)

lemma split_on_append: "c \<notin> set a \<Longrightarrow> split_on c (a @ c # b) = a # split_on c b"
  by (induction a) auto

lemma split_on_single: "c \<notin> set a \<Longrightarrow> split_on c a = [a]"
  by (induction a) auto

lemma split_on_no_sep: "w \<in> set (split_on c s) \<Longrightarrow> c \<notin> set w"
  by (induction s arbitrary: w) (auto split: list.splits if_splits)

text \<open>Joining the pieces of a split gives the string back, and the other way round.\<close>

lemma join_split_on: "join [c] (split_on c s) = s"
proof (induction s)
  case (Cons x xs)
  then show ?case by (cases "split_on c xs" rule: list.exhaust; cases "tl (split_on c xs)") auto
qed simp

lemma split_on_join:
  "ws \<noteq> [] \<Longrightarrow> \<forall>w \<in> set ws. c \<notin> set w \<Longrightarrow> split_on c (join [c] ws) = ws"
  by (induction "[c]" ws rule: join.induct) (auto simp: split_on_append split_on_single)

lemma starts_with_iff: "starts_with p s \<longleftrightarrow> (\<exists>r. s = p @ r)"
  by (induction p s rule: starts_with.induct) auto

lemma str_partition_append:
  "c \<notin> set a \<Longrightarrow> str_partition c (a @ c # b) = (a, True, b)"
  by (simp add: str_partition_def takeWhile_append2 dropWhile_append2 Let_def)
     (metis (mono_tags, lifting) dropWhile.simps(2) dropWhile_append2 list.sel(3) list.simps(3)
       takeWhile.simps(2) append.right_neutral takeWhile_append2)

lemma str_partition_none: "c \<notin> set a \<Longrightarrow> str_partition c a = (a, False, [])"
proof -
  assume "c \<notin> set a"
  then have "takeWhile (\<lambda>x. x \<noteq> c) a = a" "dropWhile (\<lambda>x. x \<noteq> c) a = []"
    by (auto simp: takeWhile_eq_all_conv dropWhile_eq_Nil_conv)
  then show ?thesis unfolding str_partition_def Let_def by (simp only: list.sel simp_thms)
qed

subsection \<open>Integers\<close>

text \<open>
  \<open>int(s)\<close>: white space around, an optional sign, decimal digits with single underscores between
  them. \<open>None\<close> is the \<open>ValueError\<close>. The flag says whether the last character was a digit.
\<close>

fun int_digits :: "bool \<Rightarrow> int \<Rightarrow> string \<Rightarrow> int option" where
  "int_digits d acc [] = (if d then Some acc else None)"
| "int_digits d acc (c # cs) =
     (if c = CHR ''_'' then (if d then int_digits False acc cs else None)
      else if is_decimal c then int_digits True (acc * 10 + (int (code c) - 48)) cs
      else None)"

definition int_literal :: "string \<Rightarrow> int option" where
  "int_literal s =
     (case strip s of
        [] \<Rightarrow> None
      | c # cs \<Rightarrow> if c = CHR ''-'' then map_option uminus (int_digits False 0 cs)
                  else if c = CHR ''+'' then int_digits False 0 cs
                  else int_digits False 0 (c # cs))"

definition py_int_str :: "string \<Rightarrow> int result" where
  "py_int_str s = (case int_literal s of
     None \<Rightarrow> Inl (ValueError (''invalid literal for int() with base 10: '' @ s))
   | Some i \<Rightarrow> Inr i)"

text \<open>\<open>int(v)\<close> on the values the query parser and \<open>json.loads\<close> build.\<close>

fun py_int :: "pyval \<Rightarrow> int result" where
  "py_int (PInt i) = Inr i"
| "py_int (PBool b) = Inr (if b then 1 else 0)"
| "py_int (PStr s) = py_int_str s"
| "py_int (PFloat m e) =
     Inr (if 0 \<le> e then m * 10 ^ nat e else sgn m * (\<bar>m\<bar> div 10 ^ nat (- e)))"
| "py_int _ = Inl (TypeError ''int() argument must be a string, a bytes-like object or a real number'')"

text \<open>\<open>str(n)\<close> of an integer.\<close>

fun digits_of :: "nat \<Rightarrow> string" where
  "digits_of n = (if n < 10 then [char_of (48 + n)] else digits_of (n div 10) @ [char_of (48 + n mod 10)])"

declare digits_of.simps [simp del]

definition str_int :: "int \<Rightarrow> string" where
  "str_int i = (if i < 0 then CHR ''-'' # digits_of (nat (- i)) else digits_of (nat i))"

lemma code_digit: "n < 10 \<Longrightarrow> code (char_of (48 + n :: nat)) = 48 + n"
  by (simp add: of_char_of)

lemma decimal_not_underscore: "is_decimal c \<Longrightarrow> c \<noteq> CHR ''_''"
  by (auto simp: is_decimal_def)

lemma int_digits_run:
  "list_all is_decimal a \<Longrightarrow>
     int_digits True acc (a @ b) = int_digits True (foldl (\<lambda>n c. n * 10 + (int (code c) - 48)) acc a) b"
  by (induction a arbitrary: acc) (simp_all add: decimal_not_underscore)

lemma int_digits_append:
  "list_all is_decimal a \<Longrightarrow> a \<noteq> [] \<Longrightarrow>
     int_digits d acc (a @ b) = int_digits True (foldl (\<lambda>n c. n * 10 + (int (code c) - 48)) acc a) b"
  by (cases a) (simp_all add: int_digits_run decimal_not_underscore)

lemma digits_of_decimal: "list_all is_decimal (digits_of n) \<and> digits_of n \<noteq> []"
proof (induction n rule: digits_of.induct)
  case (1 n)
  have m: "is_decimal (char_of (48 + n mod 10))"
    using code_digit [of "n mod 10"] by (simp add: is_decimal_def)
  show ?case
  proof (cases "n < 10")
    case True
    then show ?thesis using code_digit [of n] by (subst (1 2) digits_of.simps) (simp add: is_decimal_def)
  next
    case False
    with "1.IH" m show ?thesis by (subst (1 2) digits_of.simps) simp
  qed
qed

lemma foldl_digits_of:
  "foldl (\<lambda>n c. n * 10 + (int (code c) - 48)) 0 (digits_of n) = int n"
proof (induction n rule: digits_of.induct)
  case (1 n)
  show ?case
  proof (cases "n < 10")
    case True
    then show ?thesis using code_digit [of n] by (subst digits_of.simps) simp
  next
    case False
    have "foldl (\<lambda>n c. n * 10 + (int (code c) - 48)) 0 (digits_of n) =
        int (n div 10) * 10 + (int (code (char_of (48 + n mod 10))) - 48)"
      using False "1.IH" by (subst digits_of.simps) simp
    also have "\<dots> = int (n div 10) * 10 + int (n mod 10)"
      by (subst code_digit) simp_all
    also have "\<dots> = int n" by presburger
    finally show ?thesis .
  qed
qed

lemma int_digits_digits_of: "int_digits False 0 (digits_of n) = Some (int n)"
  using int_digits_append [of "digits_of n" False 0 "[]"] digits_of_decimal [of n]
  by (simp add: foldl_digits_of)

subsection \<open>Bytes\<close>

text \<open>Bytes are naturals below 256. \<open>s.encode('utf-8')\<close> on code points below 256.\<close>

definition utf8_char :: "char \<Rightarrow> nat list" where
  "utf8_char c = (if code c < 128 then [code c] else [192 + code c div 64, 128 + code c mod 64])"

definition utf8_encode :: "string \<Rightarrow> nat list" where
  "utf8_encode s = concat (map utf8_char s)"

text \<open>\<open>n.to_bytes(width, 'big')\<close> of a non-negative integer.\<close>

fun be_bytes :: "nat \<Rightarrow> nat \<Rightarrow> nat list" where
  "be_bytes 0 n = []"
| "be_bytes (Suc w) n = be_bytes w (n div 256) @ [n mod 256]"

definition to_bytes :: "nat \<Rightarrow> int \<Rightarrow> nat list result" where
  "to_bytes w n = (if 0 \<le> n \<and> n < 256 ^ w then Inr (be_bytes w (nat n)) else Inl OverflowError)"

text \<open>\<open>int.from_bytes(bs, 'big')\<close>.\<close>

definition from_bytes :: "nat list \<Rightarrow> nat" where
  "from_bytes bs = foldl (\<lambda>n b. n * 256 + b) 0 bs"

lemma length_be_bytes [simp]: "length (be_bytes w n) = w"
  by (induction w arbitrary: n) auto

lemma from_bytes_be_bytes: "n < 256 ^ w \<Longrightarrow> from_bytes (be_bytes w n) = n"
proof (induction w arbitrary: n)
  case 0
  then show ?case by (simp add: from_bytes_def)
next
  case (Suc w)
  then have "n div 256 < 256 ^ w" by (simp add: less_mult_imp_div_less mult.commute)
  then have "from_bytes (be_bytes w (n div 256)) = n div 256" by (rule Suc.IH)
  then show ?case by (simp add: from_bytes_def)
qed

lemma be_bytes_inj: "m < 256 ^ w \<Longrightarrow> n < 256 ^ w \<Longrightarrow> be_bytes w m = be_bytes w n \<Longrightarrow> m = n"
  by (metis from_bytes_be_bytes)

lemma utf8_char_nonempty [simp]: "utf8_char c \<noteq> []"
  by (simp add: utf8_char_def)

lemma utf8_char_prefix_free: "utf8_char c @ a = utf8_char d @ b \<Longrightarrow> c = d \<and> a = b"
proof -
  assume eq: "utf8_char c @ a = utf8_char d @ b"
  have c: "code c < 256" and d: "code d < 256"
    by (rule nat_of_char_less_256)+
  have "code c = code d \<and> a = b"
  proof (cases "code c < 128"; cases "code d < 128")
    assume "\<not> code c < 128" "\<not> code d < 128"
    then have "code c div 64 = code d div 64" "code c mod 64 = code d mod 64" "a = b"
      using eq by (auto simp: utf8_char_def)
    then show ?thesis by (metis div_mult_mod_eq)
  qed (use eq in \<open>auto simp: utf8_char_def\<close>)
  then show ?thesis by simp
qed

lemma utf8_encode_inj: "utf8_encode s = utf8_encode t \<Longrightarrow> s = t"
proof (induction s arbitrary: t)
  case Nil
  then show ?case by (cases t) (auto simp: utf8_encode_def)
next
  case (Cons c s)
  then obtain d t' where t: "t = d # t'" by (cases t) (auto simp: utf8_encode_def)
  with Cons.prems have "utf8_char c @ utf8_encode s = utf8_char d @ utf8_encode t'"
    by (simp add: utf8_encode_def)
  from utf8_char_prefix_free [OF this] Cons.IH t show ?case by blast
qed

lemma utf8_encode_length: "length (utf8_encode s) \<le> 2 * length s"
  by (induction s) (auto simp: utf8_encode_def utf8_char_def)

end
