(* ===== verification/Dataclass_Fields.thy ===== *)
theory Dataclass_Fields
  imports Py_Strings
begin

section \<open>Validated dataclass parameters\<close>

text \<open>
  \<open>RoutingPolicy\<close> (\<open>routing/base.py\<close>) and \<open>Check\<close> (\<open>monitor/check/base.py\<close>) carry the same two
  methods word for word, apart from the noun in their messages: \<open>create\<close> picks a subclass by the
  \<open>type\<close> of a parsed JSON object, matches the other keys against the fields of the subclass and
  constructs it; \<open>__post_init__\<close> checks every field's type and runs its validators. Both are modelled
  once here, with the noun as an argument, over a table of field specifications that stands for the
  annotations \<open>dataclasses.fields\<close> and \<open>get_type_hints\<close> read.
\<close>

datatype field_type = TInt | TBool | TStr | TList

text \<open>A field: its name, type, the validators of its annotation (True: accepted), its default.\<close>

record field_spec =
  f_name :: string
  f_type :: field_type
  f_valid :: "pyval \<Rightarrow> bool"
  f_default :: "pyval option"

text \<open>\<open>isinstance(value, check_type)\<close>, with \<open>bool\<close> rejected for \<open>int\<close>.\<close>

fun type_ok :: "field_type \<Rightarrow> pyval \<Rightarrow> bool" where
  "type_ok TInt (PInt _) = True"
| "type_ok TBool (PBool _) = True"
| "type_ok TStr (PStr _) = True"
| "type_ok TList (PList _) = True"
| "type_ok _ _ = False"

definition field_ok :: "field_spec \<Rightarrow> pyval \<Rightarrow> bool" where
  "field_ok f v \<longleftrightarrow> type_ok (f_type f) v \<and> f_valid f v"

definition invalid_parameter :: "string \<Rightarrow> string \<Rightarrow> py_error" where
  "invalid_parameter kind name = ValueError (kind @ '' parameter '' @ CHR 0x27 # name @ CHR 0x27 # '' invalid'')"

text \<open>\<open>__post_init__\<close>: the fields in declaration order; the first bad one raises.\<close>

fun post_init :: "string \<Rightarrow> field_spec list \<Rightarrow> (string \<Rightarrow> pyval) \<Rightarrow> unit result" where
  "post_init kind [] val = Inr ()"
| "post_init kind (f # fs) val =
     (if field_ok f (val (f_name f)) then post_init kind fs val
      else Inl (invalid_parameter kind (f_name f)))"

definition required_fields :: "field_spec list \<Rightarrow> string list" where
  "required_fields fs = map f_name (filter (\<lambda>f. f_default f = None) fs)"

text \<open>The value a constructed instance has for a field: the parameter, else the default.\<close>

definition field_value :: "field_spec list \<Rightarrow> (string \<times> pyval) list \<Rightarrow> string \<Rightarrow> pyval" where
  "field_value fs params k =
     (case map_of params k of
        Some v \<Rightarrow> v
      | None \<Rightarrow> (case map_of (map (\<lambda>f. (f_name f, f_default f)) fs) k of
                   Some (Some v) \<Rightarrow> v | _ \<Rightarrow> PNone))"

text \<open>The checks \<open>create\<close> makes on the parameter names.\<close>

definition check_names :: "string \<Rightarrow> field_spec list \<Rightarrow> string list \<Rightarrow> unit result" where
  "check_names kind fs names =
     (let missing = filter (\<lambda>n. n \<notin> set names) (required_fields fs);
          unexpected = filter (\<lambda>n. n \<notin> f_name ` set fs) names
      in if missing \<noteq> [] then
           Inl (ValueError (''missing '' @ kind @ '' parameters: '' @ join '', '' (sort missing)))
         else if unexpected \<noteq> [] then
           Inl (ValueError (''unexpected '' @ kind @ '' parameters: '' @ join '', '' (sort unexpected)))
         else Inr ())"

text \<open>The parameters of a spec: every item but the type.\<close>

definition spec_params :: "(string \<times> pyval) list \<Rightarrow> (string \<times> pyval) list" where
  "spec_params spec = filter (\<lambda>(k, v). k \<noteq> ''type'') spec"

text \<open>
  \<open>create\<close> up to and including the field validation: the type token and the value of every field.
  \<open>registry\<close> is \<open>_registry\<close>: the fields of the subclass registered under a token.
\<close>

definition create_fields ::
    "string \<Rightarrow> (string \<Rightarrow> field_spec list option) \<Rightarrow> (string \<times> pyval) list
       \<Rightarrow> (string \<times> (string \<Rightarrow> pyval)) result" where
  "create_fields kind registry spec =
     (case map_of spec ''type'' of
        Some (PStr t) \<Rightarrow>
          (case registry t of
             None \<Rightarrow> Inl (ValueError (''unknown '' @ kind @ '' type '' @ CHR 0x27 # t @ [CHR 0x27]))
           | Some fs \<Rightarrow>
               (let params = spec_params spec; val = field_value fs params
                in bind_result (check_names kind fs (map fst params))
                     (\<lambda>_. bind_result (post_init kind fs val) (\<lambda>_. Inr (t, val)))))
      | _ \<Rightarrow> Inl (invalid_parameter kind ''type''))"

subsection \<open>Lemmas\<close>

lemma post_init_Inr_iff:
  "post_init kind fs val = Inr () \<longleftrightarrow> (\<forall>f \<in> set fs. field_ok f (val (f_name f)))"
  by (induction fs) auto

lemma post_init_Inl: "post_init kind fs val = Inl e \<Longrightarrow> \<exists>s. e = ValueError s"
  by (induction fs) (auto simp: invalid_parameter_def split: if_splits)

lemma field_ok_type: "field_ok f v \<Longrightarrow> type_ok (f_type f) v"
  by (simp add: field_ok_def)

lemma type_ok_simps:
  "type_ok TInt v \<longleftrightarrow> (\<exists>i. v = PInt i)"
  "type_ok TBool v \<longleftrightarrow> (\<exists>b. v = PBool b)"
  "type_ok TStr v \<longleftrightarrow> (\<exists>s. v = PStr s)"
  "type_ok TList v \<longleftrightarrow> (\<exists>xs. v = PList xs)"
  by (cases v; simp)+

lemma check_names_Inr_iff:
  "check_names kind fs names = Inr () \<longleftrightarrow>
     set (required_fields fs) \<subseteq> set names \<and> set names \<subseteq> f_name ` set fs"
  by (auto simp: check_names_def Let_def filter_empty_conv)

lemma check_names_Inl: "check_names kind fs names = Inl e \<Longrightarrow> \<exists>s. e = ValueError s"
  by (auto simp: check_names_def Let_def split: if_splits)

text \<open>What a successful \<open>create\<close> has established, and when it succeeds.\<close>

lemma create_fields_Inr_iff:
  "create_fields kind registry spec = Inr (t, val) \<longleftrightarrow>
     (\<exists>fs. map_of spec ''type'' = Some (PStr t) \<and> registry t = Some fs
       \<and> set (required_fields fs) \<subseteq> fst ` set (spec_params spec)
       \<and> fst ` set (spec_params spec) \<subseteq> f_name ` set fs
       \<and> val = field_value fs (spec_params spec)
       \<and> (\<forall>f \<in> set fs. field_ok f (val (f_name f))))"
proof (cases "\<exists>u fs. map_of spec ''type'' = Some (PStr u) \<and> registry u = Some fs")
  case True
  then obtain u fs where u: "map_of spec ''type'' = Some (PStr u)" "registry u = Some fs" by blast
  have "create_fields kind registry spec =
      bind_result (check_names kind fs (map fst (spec_params spec)))
        (\<lambda>_. bind_result (post_init kind fs (field_value fs (spec_params spec)))
          (\<lambda>_. Inr (u, field_value fs (spec_params spec))))"
    by (simp add: create_fields_def u Let_def)
  then show ?thesis
    using u by (cases "t = u") (auto simp: bind_result_Inr_iff check_names_Inr_iff post_init_Inr_iff)
next
  case False
  then show ?thesis by (auto simp: create_fields_def split: option.splits pyval.splits)
qed

lemma create_fields_InlD:
  assumes "create_fields kind registry spec = Inl e"
  shows "\<exists>s. e = ValueError s"
  using assms
  by (auto simp: create_fields_def Let_def bind_result_Inl_iff invalid_parameter_def
      dest: post_init_Inl check_names_Inl split: option.splits pyval.splits)

end
