(* ===== verification/Client.thy ===== *)
theory Client
  imports Py_Strings "HOL-Library.Word"
begin

section \<open>Client data\<close>

text \<open>
  \<open>client/context.py\<close> and \<open>client/geo.py\<close>. An address is an IPv4 or an IPv6 word, a network an
  address with its prefix length, as the code reads them off \<open>netaddr\<close> objects (\<open>version\<close>, \<open>value\<close>,
  \<open>ip\<close>, \<open>prefixlen\<close>). How \<open>netaddr\<close> parses text and tests membership is not part of the repository:
  both are parameters wherever they are used.
\<close>

datatype ip_address = IPv4 "32 word" | IPv6 "128 word"

fun ip_version :: "ip_address \<Rightarrow> int" where
  "ip_version (IPv4 _) = 4"
| "ip_version (IPv6 _) = 6"

fun ip_value :: "ip_address \<Rightarrow> int" where
  "ip_value (IPv4 w) = uint w"
| "ip_value (IPv6 w) = uint w"

record ip_network =
  net_ip :: ip_address
  net_prefixlen :: int

definition net_version :: "ip_network \<Rightarrow> int" where
  "net_version n = ip_version (net_ip n)"

record client_geo =
  country :: "string option"
  continent :: "string option"

definition unknown_geo :: client_geo where
  "unknown_geo = \<lparr>country = None, continent = None\<rparr>"

record client_context =
  ctx_ip :: ip_address
  ctx_prefixlen :: int
  ctx_geo :: "client_geo option"

text \<open>\<open>ClientContext(remote)\<close>: the constructor decomposes the network; the geo is unresolved.\<close>

definition client_context :: "ip_network \<Rightarrow> client_context" where
  "client_context remote = \<lparr>ctx_ip = net_ip remote, ctx_prefixlen = net_prefixlen remote, ctx_geo = None\<rparr>"

definition ip_width :: "ip_address \<Rightarrow> nat" where
  "ip_width a = (if ip_version a = 4 then 32 else 128)"

lemma ip_value_bounds: "0 \<le> ip_value a \<and> ip_value a < 2 ^ ip_width a"
proof (cases a)
  case (IPv4 w)
  then show ?thesis using uint_bounded [of w] by (simp add: ip_width_def)
next
  case (IPv6 w)
  then show ?thesis using uint_bounded [of w] by (simp add: ip_width_def)
qed

lemma ip_eqI: "ip_version a = ip_version b \<Longrightarrow> ip_value a = ip_value b \<Longrightarrow> a = b"
  by (cases a; cases b) (simp_all add: word_uint_eq_iff)

end
