(* ===== verification/Py_Random.thy ===== *)
theory Py_Random
  imports Py_Prelude
begin

section \<open>The random module\<close>

text \<open>
  \<open>random.randrange\<close> and \<open>random.sample\<close> over an explicit stream of draws. A draw is reduced modulo
  the bound, so every value below the bound is drawn by some stream; \<open>sample\<close> is the pool algorithm
  of the standard library (the chosen slot is refilled with the last one of the shrinking pool). The
  lemmas say that a sample is a sub-multiset of its population of the length asked for, and that each
  such list is the sample of some stream.
\<close>

type_synonym rng = "nat \<Rightarrow> nat"

definition rng_tail :: "rng \<Rightarrow> rng" where
  "rng_tail r = (\<lambda>i. r (Suc i))"

definition rng_cons :: "nat \<Rightarrow> rng \<Rightarrow> rng" where
  "rng_cons d r = (\<lambda>i. case i of 0 \<Rightarrow> d | Suc j \<Rightarrow> r j)"

lemma rng_cons_simps [simp]: "rng_cons d r 0 = d" "rng_tail (rng_cons d r) = r"
  by (simp_all add: rng_cons_def rng_tail_def)

definition randrange :: "int \<Rightarrow> rng \<Rightarrow> int result \<times> rng" where
  "randrange n r =
     (if n \<le> 0 then (Inl (ValueError ''empty range for randrange()''), r)
      else (Inr (int (r 0 mod nat n)), rng_tail r))"

lemma randrange_bounds: "0 < n \<Longrightarrow> \<exists>d. randrange n r = (Inr d, rng_tail r) \<and> 0 \<le> d \<and> d < n"
proof -
  assume n: "0 < n"
  then have "r 0 mod nat n < nat n" by simp
  with n have "int (r 0 mod nat n) < n" by linarith
  with n show ?thesis by (simp add: randrange_def)
qed

lemma randrange_all: "0 \<le> d \<Longrightarrow> d < n \<Longrightarrow> randrange n (rng_cons (nat d) r) = (Inr d, r)"
  by (simp add: randrange_def nat_less_eq_zless)

text \<open>One step of the pool: take slot \<open>j\<close>, move the last element into the vacancy.\<close>

definition pool_drop :: "nat \<Rightarrow> 'a list \<Rightarrow> 'a list" where
  "pool_drop j pool = butlast (pool[j := last pool])"

fun sample_pool :: "nat \<Rightarrow> 'a list \<Rightarrow> rng \<Rightarrow> 'a list \<times> rng" where
  "sample_pool 0 pool r = ([], r)"
| "sample_pool (Suc k) pool r =
     (let j = r 0 mod length pool;
          (xs, r') = sample_pool k (pool_drop j pool) (rng_tail r)
      in (pool ! j # xs, r'))"

definition sample :: "'a list \<Rightarrow> int \<Rightarrow> rng \<Rightarrow> 'a list result \<times> rng" where
  "sample population k r =
     (if k < 0 \<or> int (length population) < k
      then (Inl (ValueError ''Sample larger than population or is negative''), r)
      else (case sample_pool (nat k) population r of (xs, r') \<Rightarrow> (Inr xs, r')))"

lemma length_pool_drop [simp]: "length (pool_drop j pool) = length pool - 1"
  by (simp add: pool_drop_def)

lemma mset_pool_drop: "j < length pool \<Longrightarrow> mset pool = add_mset (pool ! j) (mset (pool_drop j pool))"
proof -
  assume j: "j < length pool"
  then obtain ys y where p: "pool = ys @ [y]" by (cases pool rule: rev_cases) auto
  show ?thesis
  proof (cases "j = length ys")
    case True
    with p show ?thesis by (simp add: pool_drop_def)
  next
    case False
    with j p have "j < length ys" by simp
    then have "mset (ys[j := y]) + {#ys ! j#} = mset ys + {#y#}"
      by (simp add: mset_update)
    with p \<open>j < length ys\<close> show ?thesis by (simp add: pool_drop_def nth_append list_update_append)
  qed
qed

lemma sample_pool_sound:
  "k \<le> length pool \<Longrightarrow> sample_pool k pool r = (xs, r') \<Longrightarrow>
     length xs = k \<and> mset xs \<subseteq># mset pool"
proof (induction k arbitrary: pool r xs)
  case (Suc k)
  let ?j = "r 0 mod length pool"
  obtain ys where ys: "sample_pool k (pool_drop ?j pool) (rng_tail r) = (ys, r')" "xs = pool ! ?j # ys"
    using Suc.prems(2) by (auto simp: Let_def split: prod.splits)
  have "?j < length pool" using Suc.prems(1) by (intro mod_less_divisor) auto
  then have m: "mset pool = add_mset (pool ! ?j) (mset (pool_drop ?j pool))" by (rule mset_pool_drop)
  have "length ys = k \<and> mset ys \<subseteq># mset (pool_drop ?j pool)"
    using Suc.prems(1) ys(1) by (intro Suc.IH) auto
  with m ys(2) show ?case by simp
qed simp

lemma sample_ok:
  assumes "0 \<le> k" "k \<le> int (length population)"
  shows "\<exists>xs r'. sample population k r = (Inr xs, r') \<and> length xs = nat k \<and> mset xs \<subseteq># mset population"
proof -
  obtain xs r' where x: "sample_pool (nat k) population r = (xs, r')" by fastforce
  with assms sample_pool_sound [OF _ x] show ?thesis by (auto simp: sample_def)
qed

lemma sample_InrD:
  "sample population k r = (Inr xs, r') \<Longrightarrow>
     length xs = nat k \<and> mset xs \<subseteq># mset population \<and> 0 \<le> k \<and> k \<le> int (length population)"
  using sample_ok [of k population r] by (cases "k < 0 \<or> int (length population) < k") (auto simp: sample_def)

lemma sample_pool_complete:
  "mset ys \<subseteq># mset pool \<Longrightarrow> \<exists>r. sample_pool (length ys) pool r = (ys, r0)"
proof (induction ys arbitrary: pool)
  case Nil
  then show ?case by auto
next
  case (Cons y ys)
  then have "y \<in> set pool" by (metis list.set_intros(1) mset_subset_eqD set_mset_mset)
  then obtain j where j: "j < length pool" "pool ! j = y" by (auto simp: in_set_conv_nth)
  with Cons.prems mset_pool_drop [OF j(1)] have "mset ys \<subseteq># mset (pool_drop j pool)" by simp
  then obtain r where "sample_pool (length ys) (pool_drop j pool) r = (ys, r0)"
    using Cons.IH by blast
  with j have "sample_pool (length (y # ys)) pool (rng_cons j r) = (y # ys, r0)" by simp
  then show ?case by blast
qed

lemma sample_complete:
  "mset ys \<subseteq># mset population \<Longrightarrow> \<exists>r. sample population (int (length ys)) r = (Inr ys, r0)"
proof -
  assume sub: "mset ys \<subseteq># mset population"
  obtain r where r: "sample_pool (length ys) population r = (ys, r0)"
    using sample_pool_complete [OF sub] by blast
  have "length ys \<le> length population" using size_mset_mono [OF sub] by simp
  with r have "sample population (int (length ys)) r = (Inr ys, r0)" by (simp add: sample_def)
  then show ?thesis by blast
qed

end
