(* ===== verification/Lru_Cache.thy ===== *)
theory Lru_Cache
  imports Py_Prelude
begin

section \<open>The memoised resolvers\<close>

text \<open>
  \<open>functools.lru_cache(maxsize=128)\<close>, the decorator of \<open>RoutingPolicy.resolve\<close> and
  \<open>ViewRule.resolve\<close>: a bounded table from argument to result, most recently used first; a raised
  exception is passed on and not stored. The locale states what a caller may rely on, a call that
  returns what the plain function returns; it is interpreted for both resolvers in their theories.
\<close>

type_synonym 'v lru_cache = "(string \<times> 'v) list"

definition lru_maxsize :: nat where
  "lru_maxsize = 128"

definition lru_call :: "(string \<Rightarrow> 'v result) \<Rightarrow> string \<Rightarrow> 'v lru_cache \<Rightarrow> 'v result \<times> 'v lru_cache" where
  "lru_call f k c =
     (case map_of c k of
        Some v \<Rightarrow> (Inr v, (k, v) # AList.delete k c)
      | None \<Rightarrow> (case f k of
                   Inl e \<Rightarrow> (Inl e, c)
                 | Inr v \<Rightarrow> (Inr v, take lru_maxsize ((k, v) # c))))"

text \<open>Every entry holds the function's value, keys are distinct, the bound holds.\<close>

definition lru_valid :: "(string \<Rightarrow> 'v result) \<Rightarrow> 'v lru_cache \<Rightarrow> bool" where
  "lru_valid f c \<longleftrightarrow> (\<forall>(k, v) \<in> set c. f k = Inr v) \<and> distinct (map fst c) \<and> length c \<le> lru_maxsize"

lemma lru_valid_empty: "lru_valid f []"
  by (simp add: lru_valid_def)

lemma lru_call_value: "lru_valid f c \<Longrightarrow> fst (lru_call f k c) = f k"
  by (auto simp: lru_call_def lru_valid_def split: option.splits sum.splits dest: map_of_SomeD)

lemma distinct_take_map: "distinct (map g xs) \<Longrightarrow> distinct (map g (take n xs))"
  by (metis distinct_take take_map)

lemma set_delete: "set (AList.delete k c) \<subseteq> set c"
  by (induction c) auto

lemma length_delete_mem: "k \<in> fst ` set c \<Longrightarrow> length (AList.delete k c) < length c"
proof (induction c)
  case (Cons p c)
  then show ?case
    using length_delete_le [of k c] by (cases "fst p = k") auto
qed simp

lemma lru_call_valid [invariants]:
  assumes "lru_valid f c" shows "lru_valid f (snd (lru_call f k c))"
proof (cases "map_of c k")
  case None
  then have k: "k \<notin> fst ` set c" by (simp add: map_of_eq_None_iff)
  show ?thesis
  proof (cases "f k")
    case (Inl e)
    with None assms show ?thesis by (simp add: lru_call_def)
  next
    case (Inr v)
    have "distinct (map fst (take lru_maxsize ((k, v) # c)))"
      using assms k by (intro distinct_take_map) (simp add: lru_valid_def)
    moreover have "\<forall>(k', v') \<in> set (take lru_maxsize ((k, v) # c)). f k' = Inr v'"
      using assms Inr by (auto simp: lru_valid_def dest!: in_set_takeD)
    ultimately show ?thesis using None Inr by (simp add: lru_call_def lru_valid_def)
  qed
next
  case (Some v)
  then have mem: "(k, v) \<in> set c" by (rule map_of_SomeD)
  then have "length (AList.delete k c) < length c" by (intro length_delete_mem) force
  moreover have "set (AList.delete k c) \<subseteq> set c" by (rule set_delete)
  moreover have "distinct (map fst (AList.delete k c))" "k \<notin> set (map fst (AList.delete k c))"
    using assms delete_notin_dom [of k c] by (auto simp: lru_valid_def distinct_delete)
  ultimately show ?thesis
    using Some mem assms by (auto simp: lru_call_def lru_valid_def)
qed

text \<open>A memoised function, as its callers see it.\<close>

locale memoised =
  fixes compute :: "string \<Rightarrow> 'v result"
    and call :: "string \<Rightarrow> 'c \<Rightarrow> 'v result \<times> 'c"
    and valid :: "'c \<Rightarrow> bool"
  assumes call_value: "valid c \<Longrightarrow> fst (call k c) = compute k"
    and call_valid: "valid c \<Longrightarrow> valid (snd (call k c))"
begin

fun calls :: "string list \<Rightarrow> 'c \<Rightarrow> 'v result list \<times> 'c" where
  "calls [] c = ([], c)"
| "calls (k # ks) c =
     (let (x, c') = call k c; (xs, c'') = calls ks c' in (x # xs, c''))"

lemma calls_transparent: "valid c \<Longrightarrow> fst (calls ks c) = map compute ks \<and> valid (snd (calls ks c))"
proof (induction ks arbitrary: c)
  case (Cons k ks)
  then have "valid (snd (call k c))" by (simp add: call_valid)
  then have "fst (calls ks (snd (call k c))) = map compute ks \<and> valid (snd (calls ks (snd (call k c))))"
    by (rule Cons.IH)
  then show ?case using Cons.prems by (simp add: Let_def case_prod_beta call_value)
qed simp

end

end
