(* ===== verification/Routing_Base.thy ===== *)
theory Routing_Base
  imports Dataclass_Fields Client Py_Random Lru_Cache
begin

section \<open>Routing policies: validation, registry, resolver\<close>

text \<open>
  \<open>routing/base.py\<close>: the field validators, the registry of the three policies, \<open>create\<close> and the
  cached \<open>resolve\<close>, and \<open>highest_tier\<close>. A constructed policy is a value of \<open>routing_policy\<close>; the
  class attributes \<open>name\<close> are the registry's tokens. \<open>json.loads\<close> is the parameter \<open>loads\<close>.
  The locale \<open>strategy\<close> is what the DNS handler relies on in \<open>select\<close>.
\<close>

subsection \<open>Records\<close>

text \<open>A row of \<open>gslb_records\<close>.\<close>

record dns_record =
  r_qname :: string
  r_qtype :: string
  r_ttl :: int
  r_policy_json :: string
  r_weight :: int
  r_id :: int
  r_content :: string
  r_rule :: string

subsection \<open>Field validators\<close>

definition validate_ipv4_prefix :: "int \<Rightarrow> unit result" where
  "validate_ipv4_prefix value = (if \<not> (0 \<le> value \<and> value \<le> 32) then Inl (ValueError ''out of range'') else Inr ())"

definition validate_ipv6_prefix :: "int \<Rightarrow> unit result" where
  "validate_ipv6_prefix value = (if \<not> (0 \<le> value \<and> value \<le> 128) then Inl (ValueError ''out of range'') else Inr ())"

definition validate_positive :: "int \<Rightarrow> unit result" where
  "validate_positive value = (if value < 1 then Inl (ValueError ''not positive'') else Inr ())"

definition validated_int :: "string \<Rightarrow> (int \<Rightarrow> unit result) \<Rightarrow> int \<Rightarrow> field_spec" where
  "validated_int name validate dflt =
     \<lparr>f_name = name, f_type = TInt, f_valid = (\<lambda>v. returns (validate (int_of v))),
      f_default = Some (PInt dflt)\<rparr>"

subsection \<open>The policies and their registry\<close>

datatype routing_policy =
    RoundRobin (max_answers: int)
  | WeightedRandom (max_answers: int)
  | StickyHash (max_answers: int) (ipv4_prefix: int) (ipv6_prefix: int)

definition routing_registry :: "string \<Rightarrow> field_spec list option" where
  "routing_registry t =
     (if t = ''round-robin'' then Some [validated_int ''max_answers'' validate_positive 8]
      else if t = ''weighted-random'' then Some [validated_int ''max_answers'' validate_positive 1]
      else if t = ''sticky-hash'' then
        Some [validated_int ''max_answers'' validate_positive 1,
              validated_int ''ipv4_prefix'' validate_ipv4_prefix 24,
              validated_int ''ipv6_prefix'' validate_ipv6_prefix 64]
      else None)"

definition routing_build :: "string \<Rightarrow> (string \<Rightarrow> pyval) \<Rightarrow> routing_policy" where
  "routing_build t val =
     (let n = int_of (val ''max_answers'')
      in if t = ''round-robin'' then RoundRobin n
         else if t = ''weighted-random'' then WeightedRandom n
         else StickyHash n (int_of (val ''ipv4_prefix'')) (int_of (val ''ipv6_prefix'')))"

definition routing_create :: "(string \<times> pyval) list \<Rightarrow> routing_policy result" where
  "routing_create policy_spec =
     bind_result (create_fields ''routing policy'' routing_registry policy_spec)
       (\<lambda>(t, val). Inr (routing_build t val))"

definition routing_resolve :: "(string \<Rightarrow> pyval result) \<Rightarrow> string \<Rightarrow> routing_policy result" where
  "routing_resolve loads policy_json =
     bind_result (loads policy_json)
       (\<lambda>policy_spec. case policy_spec of
          PDict d \<Rightarrow> routing_create (str_items d)
        | _ \<Rightarrow> Inl (ValueError ''policy_json must be a JSON object''))"

interpretation routing_cache: memoised "routing_resolve loads" "lru_call (routing_resolve loads)"
    "lru_valid (routing_resolve loads)" for loads
  by unfold_locales (simp_all add: lru_call_value lru_call_valid)

subsection \<open>Well-formed policies\<close>

definition policy_wf :: "routing_policy \<Rightarrow> bool" where
  "policy_wf p \<longleftrightarrow> 1 \<le> max_answers p \<and>
     (case p of StickyHash _ p4 p6 \<Rightarrow> 0 \<le> p4 \<and> p4 \<le> 32 \<and> 0 \<le> p6 \<and> p6 \<le> 128 | _ \<Rightarrow> True)"

lemma validators_return [simp]:
  "returns (validate_positive n) \<longleftrightarrow> 1 \<le> n"
  "returns (validate_ipv4_prefix n) \<longleftrightarrow> 0 \<le> n \<and> n \<le> 32"
  "returns (validate_ipv6_prefix n) \<longleftrightarrow> 0 \<le> n \<and> n \<le> 128"
  by (auto simp: validate_positive_def validate_ipv4_prefix_def validate_ipv6_prefix_def)

lemma validated_int_simps [simp]:
  "f_name (validated_int n v d) = n"
  "f_default (validated_int n v d) = Some (PInt d)"
  "field_ok (validated_int n v d) x \<longleftrightarrow> (\<exists>i. x = PInt i \<and> returns (v i))"
  by (auto simp: validated_int_def field_ok_def type_ok_simps)

lemma routing_create_wf [invariants]:
  assumes "routing_create spec = Inr p" shows "policy_wf p"
  using assms
  by (auto simp: routing_create_def routing_build_def bind_result_Inr_iff create_fields_Inr_iff
      routing_registry_def policy_wf_def split: if_splits)

lemma routing_create_InlD: "routing_create spec = Inl e \<Longrightarrow> \<exists>s. e = ValueError s"
  by (auto simp: routing_create_def bind_result_Inl_iff dest: create_fields_InlD)

lemma routing_resolve_InrD:
  assumes "routing_resolve loads s = Inr p"
  shows "\<exists>d. loads s = Inr (PDict d) \<and> routing_create (str_items d) = Inr p"
proof -
  from assms obtain v where v: "loads s = Inr v"
    by (cases "loads s") (simp_all add: routing_resolve_def)
  with assms show ?thesis by (cases v) (simp_all add: routing_resolve_def)
qed

lemma routing_resolve_wf [invariants]: "routing_resolve loads s = Inr p \<Longrightarrow> policy_wf p"
  using routing_resolve_InrD routing_create_wf by blast

subsection \<open>The highest tier\<close>

definition highest_tier :: "dns_record list \<Rightarrow> dns_record list" where
  "highest_tier candidates =
     (if candidates = [] then []
      else (let tiers = group_by r_weight candidates
            in list_at tiers (Max (fst ` set tiers))))"

lemma highest_tier_eq:
  "highest_tier cs = filter (\<lambda>c. r_weight c = Max (r_weight ` set cs)) cs"
proof (cases "cs = []")
  case False
  then have "Max (r_weight ` set cs) \<in> r_weight ` set cs" by (intro Max_in) auto
  with False show ?thesis by (simp add: highest_tier_def Let_def keys_group_by map_of_group_by)
qed (simp add: highest_tier_def)

lemma highest_tier_subset: "set (highest_tier cs) \<subseteq> set cs"
  by (auto simp: highest_tier_eq)

lemma highest_tier_mset: "mset (highest_tier cs) \<subseteq># mset cs"
  by (simp add: highest_tier_eq mset_filter multiset_filter_subset)

lemma highest_tier_nonempty: "cs \<noteq> [] \<Longrightarrow> highest_tier cs \<noteq> []"
proof -
  assume "cs \<noteq> []"
  then have "Max (r_weight ` set cs) \<in> r_weight ` set cs" by (intro Max_in) auto
  then show ?thesis by (auto simp: highest_tier_eq filter_empty_conv)
qed

lemma highest_tier_max: "c \<in> set (highest_tier cs) \<Longrightarrow> d \<in> set cs \<Longrightarrow> r_weight d \<le> r_weight c"
  by (auto simp: highest_tier_eq)

subsection \<open>The contract of select\<close>

text \<open>
  What a policy promises the handler: over admissible candidates \<open>select\<close> does not raise, answers a
  sub-multiset of the candidates, at most \<open>cap\<close> of them, and something when there is something.
\<close>

locale strategy =
  fixes select :: "dns_record list \<Rightarrow> client_context \<Rightarrow> rng \<Rightarrow> dns_record list result \<times> rng"
    and admissible :: "dns_record list \<Rightarrow> bool"
    and cap :: int
  assumes total: "admissible cs \<Longrightarrow> returns (fst (select cs ctx r))"
    and sub: "admissible cs \<Longrightarrow> fst (select cs ctx r) = Inr ys \<Longrightarrow> mset ys \<subseteq># mset cs"
    and capped: "admissible cs \<Longrightarrow> fst (select cs ctx r) = Inr ys \<Longrightarrow> int (length ys) \<le> cap"
    and something: "admissible cs \<Longrightarrow> cs \<noteq> [] \<Longrightarrow> fst (select cs ctx r) = Inr ys \<Longrightarrow> ys \<noteq> []"
begin

lemma answers:
  assumes "admissible cs"
  shows "\<exists>ys. fst (select cs ctx r) = Inr ys \<and> set ys \<subseteq> set cs \<and> int (length ys) \<le> cap
    \<and> (cs \<noteq> [] \<longleftrightarrow> ys \<noteq> [])"
proof -
  from total [OF assms] obtain ys where ys: "fst (select cs ctx r) = Inr ys"
    by (auto simp: returns_iff)
  have "mset ys \<subseteq># mset cs" using sub [OF assms ys] .
  then have "set ys \<subseteq> set cs" "length ys \<le> length cs"
    using set_mset_mono size_mset_mono by fastforce+
  with ys capped [OF assms ys] something [OF assms _ ys] show ?thesis by auto
qed

lemma no_duplicates:
  "admissible cs \<Longrightarrow> distinct cs \<Longrightarrow> fst (select cs ctx r) = Inr ys \<Longrightarrow> distinct ys"
  using sub by (metis (no_types, lifting) distinct_count_atmost_1 mset_subset_eq_count le_antisym
      le_zero_eq less_one linorder_le_less_linear set_mset_mset not_in_iff count_mset_0_iff)

end

lemma strategy_weaken:
  "strategy sel adm cap \<Longrightarrow> (\<And>cs. adm' cs \<Longrightarrow> adm cs) \<Longrightarrow> strategy sel adm' cap"
  unfolding strategy_def by blast

end
