(* ===== verification/Round_Robin.thy ===== *)
theory Round_Robin
  imports Routing_Base
begin

section \<open>The round-robin policy\<close>

text \<open>\<open>routing/round_robin.py\<close>: the highest tier, subsampled to \<open>max_answers\<close> when it is larger.\<close>

definition round_robin_select :: "int \<Rightarrow> dns_record list \<Rightarrow> rng \<Rightarrow> dns_record list result \<times> rng" where
  "round_robin_select cap candidates r =
     (let tier = highest_tier candidates
      in if int (length tier) \<le> cap then (Inr tier, r) else sample tier cap r)"

lemma round_robin_cases:
  assumes "0 \<le> cap"
  shows "\<exists>ys r'. round_robin_select cap cs r = (Inr ys, r') \<and> mset ys \<subseteq># mset (highest_tier cs)
    \<and> length ys = min (nat cap) (length (highest_tier cs))"
proof (cases "int (length (highest_tier cs)) \<le> cap")
  case True
  then show ?thesis by (simp add: round_robin_select_def Let_def)
next
  case False
  with assms sample_ok [of cap "highest_tier cs" r] show ?thesis
    by (auto simp: round_robin_select_def Let_def)
qed

lemma round_robin_InrD:
  assumes "0 \<le> cap" "round_robin_select cap cs r = (Inr ys, r')"
  shows "mset ys \<subseteq># mset (highest_tier cs) \<and> length ys = min (nat cap) (length (highest_tier cs))"
  using round_robin_cases [OF assms(1), of cs r] assms(2) by auto

interpretation round_robin: strategy "\<lambda>cs ctx r. round_robin_select cap cs r" "\<lambda>_. 1 \<le> cap" cap for cap
proof
  fix cs :: "dns_record list" and r assume cap: "1 \<le> cap"
  obtain zs r' where z: "round_robin_select cap cs r = (Inr zs, r')"
    "mset zs \<subseteq># mset (highest_tier cs)" "length zs = min (nat cap) (length (highest_tier cs))"
    using round_robin_cases [of cap cs r] cap by auto
  show "returns (fst (round_robin_select cap cs r))" using z by simp
  fix ys assume ys: "fst (round_robin_select cap cs r) = Inr ys"
  show "mset ys \<subseteq># mset cs" using ys z highest_tier_mset subset_mset.trans by fastforce
  show "int (length ys) \<le> cap" using ys z cap by simp
  assume "cs \<noteq> []"
  then show "ys \<noteq> []" using ys z cap highest_tier_nonempty [of cs] by (auto simp: min_def split: if_splits)
qed

end
