(* ===== verification/Weighted_Random.thy ===== *)
theory Weighted_Random
  imports Routing_Base
begin

section \<open>The weighted-random policy\<close>

text \<open>
  \<open>routing/weighted_random.py\<close>: \<open>_weighted_pick\<close> walks the cumulative weights; \<open>select\<close> draws
  without replacement until \<open>max_answers\<close> records are chosen or only zero weights remain. The loop
  is a recursion on the number of records still to choose. \<open>weights\<close> of the records are non-negative
  (\<open>weight\<close> is \<open>int unsigned\<close> in \<open>database/scheme.sql\<close>).
\<close>

definition total_weight :: "dns_record list \<Rightarrow> int" where
  "total_weight cs = sum_list (map r_weight cs)"

fun weighted_walk :: "dns_record list \<Rightarrow> int \<Rightarrow> int \<Rightarrow> dns_record option" where
  "weighted_walk [] draw cumulative = None"
| "weighted_walk (c # cs) draw cumulative =
     (let cumulative' = cumulative + r_weight c
      in if draw < cumulative' then Some c else weighted_walk cs draw cumulative')"

text \<open>\<open>candidates[-1]\<close> of an empty list raises.\<close>

definition weighted_pick :: "dns_record list \<Rightarrow> int \<Rightarrow> dns_record result" where
  "weighted_pick candidates draw =
     (case weighted_walk candidates draw 0 of
        Some c \<Rightarrow> Inr c
      | None \<Rightarrow> if candidates = [] then Inl IndexError else Inr (last candidates))"

function weighted_loop ::
    "int \<Rightarrow> dns_record list \<Rightarrow> dns_record list \<Rightarrow> rng \<Rightarrow> dns_record list result \<times> rng" where
  "weighted_loop cnt selected remaining r =
     (if int (length selected) < cnt then
        (let total = total_weight remaining
         in if total = 0 then
              (case sample remaining (cnt - int (length selected)) r of
                 (Inl e, r') \<Rightarrow> (Inl e, r')
               | (Inr xs, r') \<Rightarrow> (Inr (selected @ xs), r'))
            else
              (case randrange total r of
                 (Inl e, r') \<Rightarrow> (Inl e, r')
               | (Inr draw, r') \<Rightarrow>
                   (case weighted_pick remaining draw of
                      Inl e \<Rightarrow> (Inl e, r')
                    | Inr chosen \<Rightarrow>
                        weighted_loop cnt (selected @ [chosen]) (remove1 chosen remaining) r')))
      else (Inr selected, r))"
  by pat_completeness auto
termination
  by (relation "measure (\<lambda>(cnt, selected, _, _). nat (cnt - int (length selected)))") auto

declare weighted_loop.simps [simp del]

definition weighted_random_select :: "int \<Rightarrow> dns_record list \<Rightarrow> rng \<Rightarrow> dns_record list result \<times> rng" where
  "weighted_random_select cap candidates r =
     weighted_loop (min cap (int (length candidates))) [] (sort_key r_content candidates) r"

subsection \<open>The cumulative walk\<close>

definition weights_nonneg :: "dns_record list \<Rightarrow> bool" where
  "weights_nonneg cs \<longleftrightarrow> (\<forall>c \<in> set cs. 0 \<le> r_weight c)"

lemma total_weight_simps [simp]:
  "total_weight [] = 0" "total_weight (c # cs) = r_weight c + total_weight cs"
  "total_weight (cs @ ds) = total_weight cs + total_weight ds"
  by (simp_all add: total_weight_def)

lemma total_weight_nonneg: "weights_nonneg cs \<Longrightarrow> 0 \<le> total_weight cs"
  by (induction cs) (auto simp: weights_nonneg_def)

lemma weights_nonneg_simps [simp]:
  "weights_nonneg []" "weights_nonneg (c # cs) \<longleftrightarrow> 0 \<le> r_weight c \<and> weights_nonneg cs"
  "weights_nonneg (cs @ ds) \<longleftrightarrow> weights_nonneg cs \<and> weights_nonneg ds"
  by (auto simp: weights_nonneg_def)

text \<open>The draws that pick the record at position \<open>i\<close> are exactly its bucket.\<close>

lemma weighted_walk_bucket:
  assumes "weights_nonneg (as @ c # bs)" "acc + total_weight as \<le> draw"
    "draw < acc + total_weight as + r_weight c"
  shows "weighted_walk (as @ c # bs) draw acc = Some c"
  using assms
proof (induction as arbitrary: acc)
  case (Cons a as)
  then have "0 \<le> total_weight as" by (intro total_weight_nonneg) simp
  with Cons.prems have "\<not> draw < acc + r_weight a" by simp
  moreover have "weighted_walk (as @ c # bs) draw (acc + r_weight a) = Some c"
    using Cons.prems by (intro Cons.IH) simp_all
  ultimately show ?case by (simp add: Let_def)
qed simp

lemma weighted_walk_total:
  "weights_nonneg cs \<Longrightarrow> acc \<le> draw \<Longrightarrow> draw < acc + total_weight cs \<Longrightarrow>
     \<exists>as c bs. cs = as @ c # bs \<and> acc + total_weight as \<le> draw
       \<and> draw < acc + total_weight as + r_weight c \<and> weighted_walk cs draw acc = Some c"
proof (induction cs arbitrary: acc)
  case (Cons c cs)
  show ?case
  proof (cases "draw < acc + r_weight c")
    case True
    with Cons.prems show ?thesis
      by (intro exI [of _ "[]"] exI [of _ c] exI [of _ cs]) (simp add: Let_def)
  next
    case False
    with Cons.prems obtain as d bs where
      "cs = as @ d # bs" "acc + r_weight c + total_weight as \<le> draw"
      "draw < acc + r_weight c + total_weight as + r_weight d"
      "weighted_walk cs draw (acc + r_weight c) = Some d"
      using Cons.IH [of "acc + r_weight c"] by auto
    with False show ?thesis
      by (intro exI [of _ "c # as"] exI [of _ d] exI [of _ bs]) (simp add: Let_def algebra_simps)
  qed
qed simp

lemma weighted_pick_positive:
  assumes "weights_nonneg cs" "0 \<le> draw" "draw < total_weight cs"
  shows "\<exists>c. weighted_pick cs draw = Inr c \<and> c \<in> set cs \<and> 0 < r_weight c"
proof -
  from weighted_walk_total [OF assms(1), of 0 draw] assms(2,3) obtain as c bs where
    "cs = as @ c # bs" "total_weight as \<le> draw" "draw < total_weight as + r_weight c"
    "weighted_walk cs draw 0 = Some c" by auto
  then show ?thesis by (auto simp: weighted_pick_def)
qed

text \<open>The share of a record in the draws is its weight.\<close>

lemma weighted_pick_iff:
  assumes "weights_nonneg cs" "distinct cs" "cs = as @ c # bs" "0 \<le> draw" "draw < total_weight cs"
  shows "weighted_pick cs draw = Inr c \<longleftrightarrow> total_weight as \<le> draw \<and> draw < total_weight as + r_weight c"
proof
  assume "total_weight as \<le> draw \<and> draw < total_weight as + r_weight c"
  then show "weighted_pick cs draw = Inr c"
    using weighted_walk_bucket [of as c bs 0 draw] assms by (simp add: weighted_pick_def)
next
  assume pick: "weighted_pick cs draw = Inr c"
  from weighted_walk_total [OF assms(1), of 0 draw] assms(4,5) obtain as' c' bs' where
    w: "cs = as' @ c' # bs'" "total_weight as' \<le> draw" "draw < total_weight as' + r_weight c'"
    "weighted_walk cs draw 0 = Some c'" by auto
  with pick have "c' = c" by (simp add: weighted_pick_def)
  with w(1) assms(2,3) have "as' = as"
    by (metis append_Cons_eq_iff distinct_append not_distinct_conv_prefix distinct.simps(2))
  with w \<open>c' = c\<close> show "total_weight as \<le> draw \<and> draw < total_weight as + r_weight c" by simp
qed

lemma card_weighted_pick:
  assumes "weights_nonneg cs" "distinct cs" "c \<in> set cs"
  shows "card {draw. 0 \<le> draw \<and> draw < total_weight cs \<and> weighted_pick cs draw = Inr c} = nat (r_weight c)"
proof -
  from assms(3) obtain as bs where cs: "cs = as @ c # bs" by (auto simp: in_set_conv_decomp)
  have nn: "0 \<le> total_weight as" "0 \<le> total_weight bs"
    using assms(1) cs by (auto intro: total_weight_nonneg)
  have "{draw. 0 \<le> draw \<and> draw < total_weight cs \<and> weighted_pick cs draw = Inr c}
      = {total_weight as ..< total_weight as + r_weight c}"
    using weighted_pick_iff [OF assms(1,2) cs] nn by (auto simp: cs)
  then show ?thesis by simp
qed

subsection \<open>The loop\<close>

text \<open>Zero-weight records come in only when every positive one has been taken.\<close>

definition positives :: "dns_record list \<Rightarrow> dns_record list" where
  "positives cs = filter (\<lambda>c. 0 < r_weight c) cs"

definition weighted_outcome :: "int \<Rightarrow> dns_record list \<Rightarrow> dns_record list \<Rightarrow> bool" where
  "weighted_outcome n remaining ys \<longleftrightarrow>
     mset ys \<subseteq># mset remaining \<and> int (length ys) = max 0 n \<and>
     ((\<exists>y \<in> set ys. r_weight y = 0) \<longrightarrow> mset (positives remaining) \<subseteq># mset ys)"

lemma total_weight_0_positives: "weights_nonneg cs \<Longrightarrow> total_weight cs = 0 \<Longrightarrow> positives cs = []"
proof (induction cs)
  case (Cons c cs)
  then have "0 \<le> total_weight cs" by (intro total_weight_nonneg) simp
  with Cons show ?case by (simp add: positives_def)
qed (simp add: positives_def)

lemma weights_nonneg_remove1: "weights_nonneg cs \<Longrightarrow> weights_nonneg (remove1 c cs)"
  using set_remove1_subset [of c cs] by (auto simp: weights_nonneg_def)

lemma weighted_outcome_step:
  assumes "c \<in> set remaining" "0 < r_weight c" "0 < n"
    and "weighted_outcome (n - 1) (remove1 c remaining) ys"
  shows "weighted_outcome n remaining (c # ys)"
proof -
  have m: "mset remaining = add_mset c (mset (remove1 c remaining))" using assms(1) by simp
  have "mset (positives remaining) = add_mset c (mset (positives (remove1 c remaining)))"
    unfolding positives_def mset_filter m using assms(2) by (simp del: mset_remove1)
  moreover have "mset (c # ys) \<subseteq># mset remaining" "int (length (c # ys)) = max 0 n"
    unfolding m using assms(3,4) by (simp_all add: weighted_outcome_def del: mset_remove1)
  moreover have "mset (positives (remove1 c remaining)) \<subseteq># mset ys" if "\<exists>y \<in> set ys. r_weight y = 0"
    using that assms(4) by (simp add: weighted_outcome_def)
  ultimately show ?thesis using assms(2) by (simp add: weighted_outcome_def)
qed

lemma weighted_loop_outcome:
  assumes "weights_nonneg remaining" "cnt \<le> int (length selected + length remaining)"
  shows "\<exists>ys r'. weighted_loop cnt selected remaining r = (Inr (selected @ ys), r')
    \<and> weighted_outcome (cnt - int (length selected)) remaining ys"
  using assms
proof (induction cnt selected remaining r rule: weighted_loop.induct)
  case (1 cnt selected remaining r)
  note loop = weighted_loop.simps [of cnt selected remaining r]
  let ?n = "cnt - int (length selected)"
  consider "\<not> int (length selected) < cnt"
    | "int (length selected) < cnt" "total_weight remaining = 0"
    | "int (length selected) < cnt" "total_weight remaining \<noteq> 0" by blast
  then show ?case
  proof cases
    case 1
    then show ?thesis by (simp add: loop weighted_outcome_def)
  next
    case 2
    then obtain xs r' where "sample remaining ?n r = (Inr xs, r')" "length xs = nat ?n"
      "mset xs \<subseteq># mset remaining"
      using sample_ok [of ?n remaining r] "1.prems"(2) by auto
    with 2 "1.prems"(1) show ?thesis
      by (simp add: loop weighted_outcome_def total_weight_0_positives)
  next
    case 3
    then have pos: "0 < total_weight remaining"
      using total_weight_nonneg [OF "1.prems"(1)] by simp
    obtain draw where draw: "randrange (total_weight remaining) r = (Inr draw, rng_tail r)"
      "0 \<le> draw" "draw < total_weight remaining"
      using randrange_bounds [OF pos] by blast
    obtain c where c: "weighted_pick remaining draw = Inr c" "c \<in> set remaining" "0 < r_weight c"
      using weighted_pick_positive [OF "1.prems"(1) draw(2,3)] by blast
    have step: "weighted_loop cnt selected remaining r =
        weighted_loop cnt (selected @ [c]) (remove1 c remaining) (rng_tail r)"
      using 3 draw(1) c(1) by (simp add: loop)
    have "\<exists>ys r'. weighted_loop cnt (selected @ [c]) (remove1 c remaining) (rng_tail r) =
        (Inr ((selected @ [c]) @ ys), r')
        \<and> weighted_outcome (cnt - int (length (selected @ [c]))) (remove1 c remaining) ys"
      using 3 draw(1) c "1.prems"
      by (intro "1.IH") (auto simp: weights_nonneg_remove1 length_remove1)
    then obtain ys r' where ys: "weighted_loop cnt selected remaining r = (Inr (selected @ c # ys), r')"
      "weighted_outcome (?n - 1) (remove1 c remaining) ys"
      by (auto simp: step algebra_simps)
    from weighted_outcome_step [OF c(2,3) _ ys(2)] 3(1) have "weighted_outcome ?n remaining (c # ys)"
      by simp
    with ys(1) show ?thesis by blast
  qed
qed

lemma weighted_random_outcome:
  assumes "weights_nonneg cs"
  shows "\<exists>ys r'. weighted_random_select cap cs r = (Inr ys, r')
    \<and> weighted_outcome (min cap (int (length cs))) cs ys"
proof -
  let ?cs = "sort_key r_content cs"
  have "weights_nonneg ?cs" using assms by (simp add: weights_nonneg_def)
  then obtain ys r' where "weighted_random_select cap cs r = (Inr ys, r')"
    "weighted_outcome (min cap (int (length cs))) ?cs ys"
    using weighted_loop_outcome [of ?cs "min cap (int (length cs))" "[]" r]
    by (auto simp: weighted_random_select_def)
  moreover have "mset (positives ?cs) = mset (positives cs)" by (simp add: positives_def)
  ultimately show ?thesis by (auto simp: weighted_outcome_def)
qed

interpretation weighted_random: strategy "\<lambda>cs ctx r. weighted_random_select cap cs r"
    "\<lambda>cs. 1 \<le> cap \<and> weights_nonneg cs" cap for cap
proof
  fix cs r assume cs: "1 \<le> cap \<and> weights_nonneg cs"
  obtain zs r' where z: "weighted_random_select cap cs r = (Inr zs, r')"
    "weighted_outcome (min cap (int (length cs))) cs zs"
    using weighted_random_outcome cs by blast
  show "returns (fst (weighted_random_select cap cs r))" using z by simp
  fix ys assume ys: "fst (weighted_random_select cap cs r) = Inr ys"
  show "mset ys \<subseteq># mset cs" using ys z by (simp add: weighted_outcome_def)
  show "int (length ys) \<le> cap" using ys z cs by (simp add: weighted_outcome_def)
  assume "cs \<noteq> []"
  then have "0 < int (length ys)" using ys z cs by (simp add: weighted_outcome_def)
  then show "ys \<noteq> []" by auto
qed

end
