(* ===== verification/Sticky_Hash.thy ===== *)
theory Sticky_Hash
  imports Routing_Base
begin

section \<open>The sticky-hash policy\<close>

text \<open>
  \<open>routing/sticky_hash.py\<close>: mask the client address to its network, rank the records of the highest
  tier by a digest of network and content (rendezvous hashing), answer the first \<open>max_answers\<close>.
  \<open>hashlib.blake2b(..., digest_size=16).digest()\<close> is the parameter \<open>digest\<close>, any function on byte
  lists. Python computes the sort keys first and then sorts stably, with \<open>reverse=True\<close> keeping the
  order of equal keys; so does the model.
\<close>

subsection \<open>The operations\<close>

definition masked_network :: "ip_address \<Rightarrow> int \<Rightarrow> int \<Rightarrow> nat list result" where
  "masked_network remote_ip p4 p6 =
     (let (width, prefix) = (if ip_version remote_ip = 4 then (32, p4) else (128, p6));
          host_bits = width - prefix
      in if host_bits < 0 then Inl (ValueError ''negative shift count'')
         else to_bytes (nat width div 8)
                (push_bit (nat host_bits) (drop_bit (nat host_bits) (ip_value remote_ip))))"

definition hash_buffer :: "nat list \<Rightarrow> string \<Rightarrow> nat list result" where
  "hash_buffer network content =
     (let content_bytes = utf8_encode content
      in bind_result (to_bytes 2 (int (length network)))
           (\<lambda>l. bind_result (to_bytes 4 (int (length content_bytes)))
             (\<lambda>m. Inr (l @ network @ m @ content_bytes))))"

definition stable_hash :: "(nat list \<Rightarrow> nat list) \<Rightarrow> nat list \<Rightarrow> string \<Rightarrow> nat result" where
  "stable_hash digest network content =
     bind_result (hash_buffer network content) (\<lambda>buffer. Inr (from_bytes (digest buffer)))"

text \<open>\<open>sorted(xs, key=..., reverse=True)\<close> over records decorated with their keys.\<close>

definition sorted_reverse :: "('k::linorder \<times> 'a) list \<Rightarrow> 'a list" where
  "sorted_reverse keyed = map snd (rev (sort_key fst (rev keyed)))"

text \<open>\<open>xs[:n]\<close>.\<close>

definition py_take :: "int \<Rightarrow> 'a list \<Rightarrow> 'a list" where
  "py_take n xs = (if n < 0 then take (nat (int (length xs) + n)) xs else take (nat n) xs)"

definition sticky_pick ::
    "(nat list \<Rightarrow> nat list) \<Rightarrow> dns_record list \<Rightarrow> nat list \<Rightarrow> int \<Rightarrow> dns_record list result" where
  "sticky_pick digest candidates network cnt =
     bind_result
       (mapr (\<lambda>c. bind_result (stable_hash digest network (r_content c))
                (\<lambda>h. Inr ((h, r_content c), c))) candidates)
       (\<lambda>keyed. Inr (py_take cnt (sorted_reverse keyed)))"

definition sticky_hash_select ::
    "(nat list \<Rightarrow> nat list) \<Rightarrow> int \<Rightarrow> int \<Rightarrow> int \<Rightarrow> dns_record list \<Rightarrow> client_context
       \<Rightarrow> dns_record list result" where
  "sticky_hash_select digest cap p4 p6 candidates ctx =
     (let tier = highest_tier candidates
      in if tier = [] then Inr []
         else bind_result (masked_network (ctx_ip ctx) p4 p6)
                (\<lambda>network. sticky_pick digest tier network cap))"

definition sticky_network_prefix :: "int \<Rightarrow> int \<Rightarrow> client_context \<Rightarrow> int" where
  "sticky_network_prefix p4 p6 ctx = (if ip_version (ctx_ip ctx) = 6 then p6 else p4)"

subsection \<open>Masking\<close>

definition family_prefix :: "ip_address \<Rightarrow> int \<Rightarrow> int \<Rightarrow> nat" where
  "family_prefix a p4 p6 = nat (if ip_version a = 4 then p4 else p6)"

text \<open>The leading \<open>p\<close> bits of an address.\<close>

definition leading_bits :: "nat \<Rightarrow> ip_address \<Rightarrow> int" where
  "leading_bits p a = drop_bit (ip_width a - p) (ip_value a)"

definition prefixes_ok :: "int \<Rightarrow> int \<Rightarrow> bool" where
  "prefixes_ok p4 p6 \<longleftrightarrow> 0 \<le> p4 \<and> p4 \<le> 32 \<and> 0 \<le> p6 \<and> p6 \<le> 128"

lemma masked_value_bounds:
  "0 \<le> push_bit h (drop_bit h (ip_value a)) \<and> push_bit h (drop_bit h (ip_value a)) < 2 ^ ip_width a"
proof -
  have "push_bit h (drop_bit h (ip_value a)) \<le> ip_value a"
    by (simp add: push_bit_eq_mult drop_bit_eq_div) (metis add.commute div_mult_mod_eq le_add_same_cancel1
      pos_mod_sign zero_less_numeral zero_less_power)
  moreover have "0 \<le> ip_value a div 2 ^ h" using ip_value_bounds [of a] by (simp add: pos_imp_zdiv_nonneg_iff)
  ultimately show ?thesis using ip_value_bounds [of a] by (simp add: push_bit_eq_mult drop_bit_eq_div)
qed

lemma masked_network_eq:
  assumes "prefixes_ok p4 p6"
  shows "masked_network a p4 p6 =
    Inr (be_bytes (ip_width a div 8)
      (nat (push_bit (ip_width a - family_prefix a p4 p6) (leading_bits (family_prefix a p4 p6) a))))"
proof (cases "ip_version a = 4")
  case True
  with assms show ?thesis using masked_value_bounds [of "nat (32 - p4)" a]
    by (simp add: masked_network_def family_prefix_def leading_bits_def prefixes_ok_def ip_width_def
        to_bytes_def nat_diff_distrib)
next
  case False
  with assms show ?thesis using masked_value_bounds [of "nat (128 - p6)" a]
    by (simp add: masked_network_def family_prefix_def leading_bits_def prefixes_ok_def ip_width_def
        to_bytes_def nat_diff_distrib)
qed

lemma masked_network_cong:
  assumes "prefixes_ok p4 p6" "ip_version a = ip_version b"
    and "leading_bits (family_prefix a p4 p6) a = leading_bits (family_prefix a p4 p6) b"
  shows "masked_network a p4 p6 = masked_network b p4 p6"
proof -
  have "ip_width b = ip_width a" "family_prefix b p4 p6 = family_prefix a p4 p6"
    using assms(2) by (simp_all add: ip_width_def family_prefix_def)
  then show ?thesis using assms by (simp add: masked_network_eq)
qed

lemma masked_network_length:
  "prefixes_ok p4 p6 \<Longrightarrow> masked_network a p4 p6 = Inr net \<Longrightarrow> length net = ip_width a div 8"
  by (auto simp: masked_network_eq)

subsection \<open>The hash buffer\<close>

definition content_ok :: "dns_record list \<Rightarrow> bool" where
  "content_ok cs \<longleftrightarrow> (\<forall>c \<in> set cs. length (utf8_encode (r_content c)) < 256 ^ 4)"

lemma hash_buffer_eq:
  "length network < 256 ^ 2 \<Longrightarrow> length (utf8_encode content) < 256 ^ 4 \<Longrightarrow>
     hash_buffer network content = Inr (be_bytes 2 (length network) @ network @
       be_bytes 4 (length (utf8_encode content)) @ utf8_encode content)"
  by (simp add: hash_buffer_def to_bytes_def Let_def)

lemma hash_buffer_InrD:
  "hash_buffer network content = Inr b \<Longrightarrow>
     length network < 256 ^ 2 \<and> length (utf8_encode content) < 256 ^ 4 \<and>
     b = be_bytes 2 (length network) @ network @ be_bytes 4 (length (utf8_encode content)) @ utf8_encode content"
  by (auto simp: hash_buffer_def to_bytes_def Let_def bind_result_Inr_iff split: if_splits)

lemma hash_buffer_inj:
  assumes "hash_buffer net1 content1 = Inr b" "hash_buffer net2 content2 = Inr b"
  shows "net1 = net2 \<and> content1 = content2"
proof -
  from hash_buffer_InrD [OF assms(1)] hash_buffer_InrD [OF assms(2)] have
    l: "length net1 < 256 ^ 2" "length net2 < 256 ^ 2" and
    e: "be_bytes 2 (length net1) @ net1 @ be_bytes 4 (length (utf8_encode content1)) @ utf8_encode content1
      = be_bytes 2 (length net2) @ net2 @ be_bytes 4 (length (utf8_encode content2)) @ utf8_encode content2"
    by auto
  from e have "be_bytes 2 (length net1) = be_bytes 2 (length net2)" and
    e': "net1 @ be_bytes 4 (length (utf8_encode content1)) @ utf8_encode content1
      = net2 @ be_bytes 4 (length (utf8_encode content2)) @ utf8_encode content2"
    by (simp_all add: append_eq_append_conv)
  then have "length net1 = length net2" using l by (intro be_bytes_inj)
  with e' show ?thesis by (auto simp: append_eq_append_conv dest: utf8_encode_inj)
qed

subsection \<open>The ranking\<close>

definition hrw_key :: "(nat list \<Rightarrow> nat list) \<Rightarrow> nat list \<Rightarrow> dns_record \<Rightarrow> nat \<times> string" where
  "hrw_key digest network c =
     ((case stable_hash digest network (r_content c) of Inl _ \<Rightarrow> 0 | Inr h \<Rightarrow> h), r_content c)"

definition hrw_rank :: "(nat list \<Rightarrow> nat list) \<Rightarrow> nat list \<Rightarrow> dns_record list \<Rightarrow> dns_record list" where
  "hrw_rank digest network cs = rev (sort_key (hrw_key digest network) (rev cs))"

lemma sort_key_decorated: "sort_key fst (map (\<lambda>x. (k x, x)) xs) = map (\<lambda>x. (k x, x)) (sort_key k xs)"
proof -
  have ins: "insort_key fst (k x, x) (map (\<lambda>x. (k x, x)) ys) = map (\<lambda>x. (k x, x)) (insort_key k x ys)"
    for x ys by (induction ys) auto
  show ?thesis by (induction xs) (simp_all add: sort_key_def ins)
qed

lemma sorted_reverse_decorated: "sorted_reverse (map (\<lambda>x. (k x, x)) xs) = rev (sort_key k (rev xs))"
  by (simp add: sorted_reverse_def rev_map sort_key_decorated comp_def)

lemma sticky_pick_eq:
  assumes "content_ok cs" "length network < 256 ^ 2" "0 \<le> n"
  shows "sticky_pick digest cs network n = Inr (take (nat n) (hrw_rank digest network cs))"
proof -
  have "mapr (\<lambda>c. bind_result (stable_hash digest network (r_content c)) (\<lambda>h. Inr ((h, r_content c), c))) cs
      = Inr (map (\<lambda>c. (hrw_key digest network c, c)) cs)"
    using assms(1,2)
    by (intro mapr_Inr) (simp add: content_ok_def hrw_key_def stable_hash_def hash_buffer_eq)
  then show ?thesis using assms(3)
    by (simp add: sticky_pick_def sorted_reverse_decorated py_take_def hrw_rank_def)
qed

lemma mset_hrw_rank [simp]: "mset (hrw_rank digest network cs) = mset cs"
  by (simp add: hrw_rank_def)

lemma length_hrw_rank [simp]: "length (hrw_rank digest network cs) = length cs"
  by (simp add: hrw_rank_def)

lemma set_hrw_rank [simp]: "set (hrw_rank digest network cs) = set cs"
  by (simp add: hrw_rank_def)

lemma hrw_rank_sorted:
  "sorted (rev (map (hrw_key digest network) (hrw_rank digest network cs)))"
  by (simp add: hrw_rank_def rev_map [symmetric])

text \<open>The contents in rank order depend on the multiset of candidates only.\<close>

lemma hrw_rank_keys_cong:
  assumes "mset cs = mset ds"
  shows "map (hrw_key digest network) (hrw_rank digest network cs)
    = map (hrw_key digest network) (hrw_rank digest network ds)"
proof -
  let ?k = "hrw_key digest network"
  have "mset (map ?k (rev cs)) = mset (map ?k (rev ds))" using assms by simp
  then have "sort (map ?k (rev cs)) = sort (map ?k (rev ds))"
    by (intro properties_for_sort) simp_all
  moreover have "sort (map ?k (rev xs)) = map ?k (sort_key ?k (rev xs))" for xs
    by (rule properties_for_sort) simp_all
  ultimately show ?thesis by (simp add: hrw_rank_def rev_map [symmetric])
qed

lemma hrw_rank_contents_cong:
  assumes "mset cs = mset ds"
  shows "map r_content (hrw_rank digest network cs) = map r_content (hrw_rank digest network ds)"
proof -
  have c: "r_content = snd \<circ> hrw_key digest network" by (auto simp: hrw_key_def)
  show ?thesis
    unfolding c list.map_comp [symmetric] by (subst hrw_rank_keys_cong [OF assms]) (rule refl)
qed

text \<open>Dropping records keeps the order of the others.\<close>

lemma hrw_rank_filter: "hrw_rank digest network (filter P cs) = filter P (hrw_rank digest network cs)"
  by (simp add: hrw_rank_def filter_sort rev_filter [symmetric])

lemma take_filter_same:
  "\<forall>x \<in> set (take n xs). P x \<Longrightarrow> take n (filter P xs) = take n xs"
proof (induction xs arbitrary: n)
  case (Cons x xs)
  then show ?case by (cases n) auto
qed simp

subsection \<open>The selection\<close>

lemma content_ok_tier: "content_ok cs \<Longrightarrow> content_ok (highest_tier cs)"
  using highest_tier_subset by (auto simp: content_ok_def)

lemma sticky_hash_select_eq:
  assumes "content_ok cs" "prefixes_ok p4 p6" "0 \<le> cap"
    and "masked_network (ctx_ip ctx) p4 p6 = Inr network"
  shows "sticky_hash_select digest cap p4 p6 cs ctx =
    Inr (take (nat cap) (hrw_rank digest network (highest_tier cs)))"
proof -
  have "length network \<le> 16"
    using masked_network_length [OF assms(2,4)] by (simp add: ip_width_def split: if_splits)
  then show ?thesis
    using assms by (simp add: sticky_hash_select_def Let_def sticky_pick_eq content_ok_tier hrw_rank_def)
qed

lemma masked_network_returns:
  assumes "prefixes_ok p4 p6" obtains network where "masked_network a p4 p6 = Inr network"
  using masked_network_eq [OF assms] by blast

interpretation sticky_hash: strategy "\<lambda>cs ctx r. (sticky_hash_select digest cap p4 p6 cs ctx, r)"
    "\<lambda>cs. 1 \<le> cap \<and> prefixes_ok p4 p6 \<and> content_ok cs" cap for digest cap p4 p6
proof
  fix cs :: "dns_record list" and ctx :: client_context and r :: rng
  assume ok: "1 \<le> cap \<and> prefixes_ok p4 p6 \<and> content_ok cs"
  then obtain network where n: "masked_network (ctx_ip ctx) p4 p6 = Inr network"
    using masked_network_returns by blast
  have s: "sticky_hash_select digest cap p4 p6 cs ctx =
      Inr (take (nat cap) (hrw_rank digest network (highest_tier cs)))"
    using ok n by (intro sticky_hash_select_eq) auto
  then show "returns (fst (sticky_hash_select digest cap p4 p6 cs ctx, r))" by simp
  fix ys assume ys: "fst (sticky_hash_select digest cap p4 p6 cs ctx, r) = Inr ys"
  then have e: "ys = take (nat cap) (hrw_rank digest network (highest_tier cs))" using s by simp
  have "mset ys \<subseteq># mset (hrw_rank digest network (highest_tier cs))"
    unfolding e by (metis append_take_drop_id mset_append mset_subset_eq_add_left)
  then show "mset ys \<subseteq># mset cs" using highest_tier_mset subset_mset.trans by fastforce
  have "length ys \<le> nat cap" by (simp add: e)
  then show "int (length ys) \<le> cap" using ok by linarith
  assume "cs \<noteq> []"
  then have "highest_tier cs \<noteq> []" by (rule highest_tier_nonempty)
  then have "0 < length ys" using e ok by simp
  then show "ys \<noteq> []" by simp
qed

end
