(* ===== verification/Routing.thy ===== *)
theory Routing
  imports Round_Robin Weighted_Random Sticky_Hash
begin

section \<open>Policy dispatch\<close>

text \<open>
  \<open>policy.select(candidates, context)\<close> and \<open>policy.network_prefix(context)\<close> on the three policies.
  Well-formed policies satisfy the contract of \<open>Routing_Base.strategy\<close> over the records the schema
  admits (non-negative weights, contents that fit the hash buffer's length field); the answers of the
  two tier policies come from the highest weight tier.
\<close>

fun policy_select ::
    "(nat list \<Rightarrow> nat list) \<Rightarrow> routing_policy \<Rightarrow> dns_record list \<Rightarrow> client_context \<Rightarrow> rng
       \<Rightarrow> dns_record list result \<times> rng" where
  "policy_select digest (RoundRobin n) cs ctx r = round_robin_select n cs r"
| "policy_select digest (WeightedRandom n) cs ctx r = weighted_random_select n cs r"
| "policy_select digest (StickyHash n p4 p6) cs ctx r = (sticky_hash_select digest n p4 p6 cs ctx, r)"

fun policy_network_prefix :: "routing_policy \<Rightarrow> client_context \<Rightarrow> int option" where
  "policy_network_prefix (StickyHash n p4 p6) ctx = Some (sticky_network_prefix p4 p6 ctx)"
| "policy_network_prefix _ ctx = None"

definition records_ok :: "dns_record list \<Rightarrow> bool" where
  "records_ok cs \<longleftrightarrow> weights_nonneg cs \<and> content_ok cs"

lemma records_ok_subset: "records_ok cs \<Longrightarrow> set ds \<subseteq> set cs \<Longrightarrow> records_ok ds"
  by (auto simp: records_ok_def weights_nonneg_def content_ok_def)

interpretation policies: strategy "policy_select digest p" "\<lambda>cs. policy_wf p \<and> records_ok cs" "max_answers p"
  for digest p
proof (cases p)
  case (RoundRobin n)
  have "policy_select digest p = (\<lambda>cs ctx r. round_robin_select n cs r)"
    by (intro ext) (simp add: RoundRobin)
  moreover have "strategy (\<lambda>cs ctx r. round_robin_select n cs r) (\<lambda>cs. policy_wf p \<and> records_ok cs) n"
    by (rule strategy_weaken [OF round_robin.strategy_axioms]) (simp add: RoundRobin policy_wf_def)
  ultimately show "strategy (policy_select digest p) (\<lambda>cs. policy_wf p \<and> records_ok cs) (max_answers p)"
    by (simp add: RoundRobin)
next
  case (WeightedRandom n)
  have "policy_select digest p = (\<lambda>cs ctx r. weighted_random_select n cs r)"
    by (intro ext) (simp add: WeightedRandom)
  moreover have "strategy (\<lambda>cs ctx r. weighted_random_select n cs r) (\<lambda>cs. policy_wf p \<and> records_ok cs) n"
    by (rule strategy_weaken [OF weighted_random.strategy_axioms]) (simp add: WeightedRandom policy_wf_def records_ok_def)
  ultimately show "strategy (policy_select digest p) (\<lambda>cs. policy_wf p \<and> records_ok cs) (max_answers p)"
    by (simp add: WeightedRandom)
next
  case (StickyHash n p4 p6)
  have "policy_select digest p = (\<lambda>cs ctx r. (sticky_hash_select digest n p4 p6 cs ctx, r))"
    by (intro ext) (simp add: StickyHash)
  moreover have "strategy (\<lambda>cs ctx r. (sticky_hash_select digest n p4 p6 cs ctx, r)) (\<lambda>cs. policy_wf p \<and> records_ok cs) n"
    by (rule strategy_weaken [OF sticky_hash.strategy_axioms]) (simp add: StickyHash policy_wf_def records_ok_def prefixes_ok_def)
  ultimately show "strategy (policy_select digest p) (\<lambda>cs. policy_wf p \<and> records_ok cs) (max_answers p)"
    by (simp add: StickyHash)
qed

lemma policy_select_Nil:
  "policy_wf p \<Longrightarrow> fst (policy_select digest p [] ctx r) = Inr []"
  using policies.answers [of p "[]" digest ctx r]
  by (auto simp: records_ok_def content_ok_def)

lemma tier_policies_top:
  assumes "\<forall>n. p \<noteq> WeightedRandom n" "policy_wf p" "records_ok cs"
    and "fst (policy_select digest p cs ctx r) = Inr ys" "y \<in> set ys" "c \<in> set cs"
  shows "r_weight c \<le> r_weight y"
proof -
  have "y \<in> set (highest_tier cs)"
  proof (cases p)
    case (RoundRobin n)
    with assms have "0 \<le> n" "round_robin_select n cs r = (Inr ys, snd (round_robin_select n cs r))"
      by (auto simp: policy_wf_def prod_eq_iff)
    from round_robin_InrD [OF this] assms(5) show ?thesis using mset_subset_eqD by fastforce
  next
    case (StickyHash n p4 p6)
    with assms have ok: "prefixes_ok p4 p6" "content_ok cs" "0 \<le> n"
      by (auto simp: policy_wf_def prefixes_ok_def records_ok_def)
    obtain network where "masked_network (ctx_ip ctx) p4 p6 = Inr network"
      using masked_network_returns ok(1) by blast
    from sticky_hash_select_eq [OF ok(2,1,3) this] assms(4,5) StickyHash show ?thesis
      by (auto dest: in_set_takeD)
  qed (use assms(1) in auto)
  then show ?thesis using assms(6) by (rule highest_tier_max)
qed

end
