(* ===== verification/GeoIP.thy ===== *)
theory GeoIP
  imports Client
begin

section \<open>Geo selectors and lookup\<close>

text \<open>
  \<open>view/geoip.py\<close>. The \<open>maxminddb\<close> reader is third-party code: a loaded database is a function from
  addresses to the value \<open>reader.get\<close> returns or the exception it raises, and opening one is the
  parameter \<open>open_database\<close>. A \<open>geoip_reader\<close> is the attribute \<open>_reader\<close>, \<open>None\<close> without a database.
\<close>

type_synonym geo_db = "ip_address \<Rightarrow> pyval result"
type_synonym geoip_reader = "geo_db option"

definition continent_codes :: "string list" where
  "continent_codes = [''AF'', ''AN'', ''AS'', ''EU'', ''NA'', ''OC'', ''SA'']"

definition country_codes :: "string list" where
  "country_codes =
   [''AD'', ''AE'', ''AF'', ''AG'', ''AI'', ''AL'', ''AM'', ''AO'', ''AQ'', ''AR'', ''AS'',
    ''AT'', ''AU'', ''AW'', ''AX'', ''AZ'', ''BA'', ''BB'', ''BD'', ''BE'', ''BF'', ''BG'',
    ''BH'', ''BI'', ''BJ'', ''BL'', ''BM'', ''BN'', ''BO'', ''BQ'', ''BR'', ''BS'', ''BT'',
    ''BV'', ''BW'', ''BY'', ''BZ'', ''CA'', ''CC'', ''CD'', ''CF'', ''CG'', ''CH'', ''CI'',
    ''CK'', ''CL'', ''CM'', ''CN'', ''CO'', ''CR'', ''CU'', ''CV'', ''CW'', ''CX'', ''CY'',
    ''CZ'', ''DE'', ''DJ'', ''DK'', ''DM'', ''DO'', ''DZ'', ''EC'', ''EE'', ''EG'', ''EH'',
    ''ER'', ''ES'', ''ET'', ''FI'', ''FJ'', ''FK'', ''FM'', ''FO'', ''FR'', ''GA'', ''GB'',
    ''GD'', ''GE'', ''GF'', ''GG'', ''GH'', ''GI'', ''GL'', ''GM'', ''GN'', ''GP'', ''GQ'',
    ''GR'', ''GS'', ''GT'', ''GU'', ''GW'', ''GY'', ''HK'', ''HM'', ''HN'', ''HR'', ''HT'',
    ''HU'', ''ID'', ''IE'', ''IL'', ''IM'', ''IN'', ''IO'', ''IQ'', ''IR'', ''IS'', ''IT'',
    ''JE'', ''JM'', ''JO'', ''JP'', ''KE'', ''KG'', ''KH'', ''KI'', ''KM'', ''KN'', ''KP'',
    ''KR'', ''KW'', ''KY'', ''KZ'', ''LA'', ''LB'', ''LC'', ''LI'', ''LK'', ''LR'', ''LS'',
    ''LT'', ''LU'', ''LV'', ''LY'', ''MA'', ''MC'', ''MD'', ''ME'', ''MF'', ''MG'', ''MH'',
    ''MK'', ''ML'', ''MM'', ''MN'', ''MO'', ''MP'', ''MQ'', ''MR'', ''MS'', ''MT'', ''MU'',
    ''MV'', ''MW'', ''MX'', ''MY'', ''MZ'', ''NA'', ''NC'', ''NE'', ''NF'', ''NG'', ''NI'',
    ''NL'', ''NO'', ''NP'', ''NR'', ''NU'', ''NZ'', ''OM'', ''PA'', ''PE'', ''PF'', ''PG'',
    ''PH'', ''PK'', ''PL'', ''PM'', ''PN'', ''PR'', ''PS'', ''PT'', ''PW'', ''PY'', ''QA'',
    ''RE'', ''RO'', ''RS'', ''RU'', ''RW'', ''SA'', ''SB'', ''SC'', ''SD'', ''SE'', ''SG'',
    ''SH'', ''SI'', ''SJ'', ''SK'', ''SL'', ''SM'', ''SN'', ''SO'', ''SR'', ''SS'', ''ST'',
    ''SV'', ''SX'', ''SY'', ''SZ'', ''TC'', ''TD'', ''TF'', ''TG'', ''TH'', ''TJ'', ''TK'',
    ''TL'', ''TM'', ''TN'', ''TO'', ''TR'', ''TT'', ''TV'', ''TW'', ''TZ'', ''UA'', ''UG'',
    ''UM'', ''US'', ''UY'', ''UZ'', ''VA'', ''VC'', ''VE'', ''VG'', ''VI'', ''VN'', ''VU'',
    ''WF'', ''WS'', ''YE'', ''YT'', ''ZA'', ''ZM'', ''ZW'', ''XK'']"

text \<open>
  \<open>GeoIPReader(geoip_config)\<close>, with \<open>get\<close> the section's: a false \<open>database\<close> option, or one that fails to open
  with an \<open>OSError\<close> or \<open>InvalidDatabaseError\<close> (\<open>OtherError\<close> here), leaves the reader unset.
\<close>

definition geoip_init :: "(pyval \<Rightarrow> geo_db result) \<Rightarrow> (string \<Rightarrow> pyval \<Rightarrow> pyval result) \<Rightarrow> geoip_reader result" where
  "geoip_init open_database get =
     bind_result (get ''database'' PNone)
       (\<lambda>database.
          if \<not> truthy database then Inr None
          else (case open_database database of
                  Inr db \<Rightarrow> Inr (Some db)
                | Inl (OtherError _) \<Rightarrow> Inr None
                | Inl e \<Rightarrow> Inl e))"

definition parse_geo_token :: "string \<Rightarrow> (string \<times> string) option result" where
  "parse_geo_token token =
     (let (prefix, sep, rest) = str_partition (CHR '':'') token
      in if \<not> sep then Inr None
         else
           (let kind = str_lower prefix; val = str_upper rest
            in if kind = ''country'' then
                 (if val \<in> set country_codes then Inr (Some (''country'', val))
                  else Inl (ValueError (''country geo token invalid: '' @ token)))
               else if kind = ''continent'' then
                 (if val \<in> set continent_codes then Inr (Some (''continent'', val))
                  else Inl (ValueError (''continent geo token invalid: '' @ token)))
               else Inr None))"

text \<open>
  \<open>record.get(k, {}).get(k')\<close>: a value that is no dict has no \<open>get\<close>. Only equality with a code is
  ever asked of the outcome, so a value that is no string is as good as \<open>None\<close>.
\<close>

definition geo_entry :: "(pykey \<times> pyval) list \<Rightarrow> string \<Rightarrow> string \<Rightarrow> string option result" where
  "geo_entry rec k k' =
     (case dict_get rec k of
        None \<Rightarrow> Inr None
      | Some (PDict d) \<Rightarrow> Inr (case dict_get d k' of Some (PStr s) \<Rightarrow> Some s | _ \<Rightarrow> None)
      | Some _ \<Rightarrow> Inl AttributeError)"

definition geoip_lookup :: "geoip_reader \<Rightarrow> ip_address option \<Rightarrow> client_geo result" where
  "geoip_lookup reader ip =
     (case (reader, ip) of
        (Some db, Some a) \<Rightarrow>
          (case db a of
             Inl (ValueError _) \<Rightarrow> Inr unknown_geo
           | Inl e \<Rightarrow> Inl e
           | Inr (PDict rec) \<Rightarrow>
               bind_result (geo_entry rec ''country'' ''iso_code'')
                 (\<lambda>c. bind_result (geo_entry rec ''continent'' ''code'')
                   (\<lambda>k. Inr \<lparr>country = c, continent = k\<rparr>))
           | Inr _ \<Rightarrow> Inr unknown_geo)
      | _ \<Rightarrow> Inr unknown_geo)"

subsection \<open>Lemmas\<close>

definition geo_selector_ok :: "string \<times> string \<Rightarrow> bool" where
  "geo_selector_ok g \<longleftrightarrow>
     (fst g = ''country'' \<and> snd g \<in> set country_codes) \<or>
     (fst g = ''continent'' \<and> snd g \<in> set continent_codes)"

lemma parse_geo_token_Some: "parse_geo_token t = Inr (Some g) \<Longrightarrow> geo_selector_ok g"
  by (auto simp: parse_geo_token_def geo_selector_ok_def Let_def split: prod.splits if_splits)

lemma parse_geo_token_Inl: "parse_geo_token t = Inl e \<Longrightarrow> \<exists>s. e = ValueError s"
  by (auto simp: parse_geo_token_def Let_def split: prod.splits if_splits)

lemma parse_geo_token_plain: "CHR '':'' \<notin> set t \<Longrightarrow> parse_geo_token t = Inr None"
  by (simp add: parse_geo_token_def str_partition_none)

lemma geoip_lookup_none [simp]: "geoip_lookup None ip = Inr unknown_geo"
  by (simp add: geoip_lookup_def)

end
