(* ===== verification/View_Rule.thy ===== *)
theory View_Rule
  imports GeoIP Lru_Cache
begin

section \<open>View rules\<close>

text \<open>
  \<open>view/rule.py\<close>: a rule string compiles once into CIDR networks and geo selectors; \<open>matches\<close> tests a
  client. \<open>netaddr.IPNetwork(text)\<close> is the parameter \<open>parse_net\<close> and \<open>ip in network\<close> the parameter
  \<open>contains\<close>; the class attribute \<open>_geoip\<close> is the parameter \<open>geoip\<close>. \<open>matches\<close> stores a resolved geo on
  the context, so it returns the context too.
\<close>

record view_rule =
  cidrs :: "ip_network list"
  geos :: "(string \<times> string) list"
  matches_all :: bool

text \<open>The constructor with \<open>__post_init__\<close>: prefix 0 in both families.\<close>

definition make_view_rule :: "ip_network list \<Rightarrow> (string \<times> string) list \<Rightarrow> view_rule" where
  "make_view_rule cs gs =
     \<lparr>cidrs = cs, geos = gs,
      matches_all = (let versions = map net_version (filter (\<lambda>c. net_prefixlen c = 0) cs)
                     in 4 \<in> set versions \<and> 6 \<in> set versions)\<rparr>"

text \<open>One round of the token loop.\<close>

definition add_token ::
    "(string \<Rightarrow> ip_network result) \<Rightarrow> ip_network list \<times> (string \<times> string) list \<Rightarrow> string
       \<Rightarrow> (ip_network list \<times> (string \<times> string) list) result" where
  "add_token parse_net = (\<lambda>(cs, gs) token.
     bind_result (parse_geo_token token)
       (\<lambda>geo. case geo of
          None \<Rightarrow> (case parse_net token of
                     Inl (AddrFormatError e) \<Rightarrow> Inl (ValueError (''view rule CIDR invalid: '' @ e))
                   | Inl e \<Rightarrow> Inl e
                   | Inr net \<Rightarrow> Inr (cs @ [net], gs))
        | Some g \<Rightarrow> Inr (cs, gs @ [g])))"

definition view_resolve :: "(string \<Rightarrow> ip_network result) \<Rightarrow> string \<Rightarrow> view_rule result" where
  "view_resolve parse_net rule =
     (let tokens = split_ws rule
      in if tokens = [] then Inl (ValueError ''view rule must hold at least one token'')
         else bind_result (foldr_result (add_token parse_net) ([], []) tokens)
                (\<lambda>(cs, gs). Inr (make_view_rule cs gs)))"

interpretation view_cache: memoised "view_resolve parse_net" "lru_call (view_resolve parse_net)"
    "lru_valid (view_resolve parse_net)" for parse_net
  by unfold_locales (simp_all add: lru_call_value lru_call_valid)

definition geo_matches :: "view_rule \<Rightarrow> client_geo \<Rightarrow> bool" where
  "geo_matches rule g \<longleftrightarrow>
     list_ex (\<lambda>(kind, val). (kind = ''country'' \<and> Some val = country g)
                          \<or> (kind = ''continent'' \<and> Some val = continent g)) (geos rule)"

definition view_matches ::
    "(ip_address \<Rightarrow> ip_network \<Rightarrow> bool) \<Rightarrow> geoip_reader option \<Rightarrow> view_rule \<Rightarrow> client_context
       \<Rightarrow> bool result \<times> client_context" where
  "view_matches contains geoip rule ctx =
     (if matches_all rule then (Inr True, ctx)
      else if list_ex (contains (ctx_ip ctx)) (cidrs rule) then (Inr True, ctx)
      else if geos rule = [] then (Inr False, ctx)
      else
        (case (case ctx_geo ctx of
                 Some g \<Rightarrow> Inr (Some g)
               | None \<Rightarrow> (case geoip of
                            None \<Rightarrow> Inr None
                          | Some reader \<Rightarrow>
                              bind_result (geoip_lookup reader (Some (ctx_ip ctx))) (\<lambda>g. Inr (Some g)))) of
           Inl e \<Rightarrow> (Inl e, ctx)
         | Inr None \<Rightarrow> (Inr False, ctx)
         | Inr (Some g) \<Rightarrow> (Inr (geo_matches rule g), ctx\<lparr>ctx_geo := Some g\<rparr>)))"

subsection \<open>Compilation\<close>

lemma matches_all_iff:
  "matches_all (make_view_rule cs gs) \<longleftrightarrow>
     (\<exists>c \<in> set cs. net_version c = 4 \<and> net_prefixlen c = 0) \<and>
     (\<exists>c \<in> set cs. net_version c = 6 \<and> net_prefixlen c = 0)"
  by (auto simp: make_view_rule_def Let_def)

definition rule_wf :: "view_rule \<Rightarrow> bool" where
  "rule_wf r \<longleftrightarrow> r = make_view_rule (cidrs r) (geos r) \<and> (\<forall>g \<in> set (geos r). geo_selector_ok g)
     \<and> (cidrs r \<noteq> [] \<or> geos r \<noteq> [])"

lemma make_view_rule_simps [simp]:
  "cidrs (make_view_rule cs gs) = cs" "geos (make_view_rule cs gs) = gs"
  by (simp_all add: make_view_rule_def)

lemma add_token_InrD:
  "add_token parse_net (cs, gs) t = Inr (cs', gs') \<Longrightarrow>
     (\<exists>net. parse_net t = Inr net \<and> cs' = cs @ [net] \<and> gs' = gs) \<or>
     (\<exists>g. parse_geo_token t = Inr (Some g) \<and> cs' = cs \<and> gs' = gs @ [g])"
  by (auto simp: add_token_def bind_result_Inr_iff split: option.split_asm sum.split_asm py_error.split_asm)

lemma foldr_tokens_wf:
  "foldr_result (add_token parse_net) (cs, gs) ts = Inr (cs', gs') \<Longrightarrow>
     \<forall>g \<in> set gs. geo_selector_ok g \<Longrightarrow>
     (\<forall>g \<in> set gs'. geo_selector_ok g) \<and> length cs' + length gs' = length cs + length gs + length ts"
proof (induction ts arbitrary: cs gs)
  case (Cons t ts)
  then obtain cs1 gs1 where s: "add_token parse_net (cs, gs) t = Inr (cs1, gs1)"
    "foldr_result (add_token parse_net) (cs1, gs1) ts = Inr (cs', gs')"
    by (auto simp: bind_result_Inr_iff)
  from add_token_InrD [OF s(1)] Cons.prems(2)
  have "\<forall>g \<in> set gs1. geo_selector_ok g" "length cs1 + length gs1 = Suc (length cs + length gs)"
    by (auto dest: parse_geo_token_Some)
  with Cons.IH [OF s(2)] show ?case by simp
qed simp

lemma view_resolve_wf [invariants]: "view_resolve parse_net s = Inr r \<Longrightarrow> rule_wf r"
  by (auto simp: view_resolve_def Let_def bind_result_Inr_iff rule_wf_def split: if_splits
      dest!: foldr_tokens_wf)

text \<open>\<open>netaddr\<close> reports a malformed network or address with one of its two exceptions.\<close>

definition parse_net_raises :: "(string \<Rightarrow> 'a result) \<Rightarrow> bool" where
  "parse_net_raises parse_net \<longleftrightarrow>
     (\<forall>s e. parse_net s = Inl e \<longrightarrow> (\<exists>m. e = AddrFormatError m \<or> e = ValueError m))"

lemma add_token_InlD:
  "parse_net_raises parse_net \<Longrightarrow> add_token parse_net st t = Inl e \<Longrightarrow> \<exists>s. e = ValueError s"
  unfolding parse_net_raises_def
  by (cases st; cases "parse_net t"; cases "parse_geo_token t")
     (auto simp: add_token_def bind_result_Inl_iff dest: parse_geo_token_Inl
       split: option.split_asm py_error.split_asm)

lemma foldr_tokens_InlD:
  "parse_net_raises parse_net \<Longrightarrow> foldr_result (add_token parse_net) st ts = Inl e \<Longrightarrow> \<exists>s. e = ValueError s"
  by (induction ts arbitrary: st) (auto simp: bind_result_Inl_iff dest: add_token_InlD)

lemma view_resolve_InlD:
  "parse_net_raises parse_net \<Longrightarrow> view_resolve parse_net s = Inl e \<Longrightarrow> \<exists>m. e = ValueError m"
  by (auto simp: view_resolve_def Let_def bind_result_Inl_iff dest: foldr_tokens_InlD split: if_splits)

subsection \<open>Matching\<close>

text \<open>The specification: some token matches; the geo is the client's, when it can be known.\<close>

definition client_geo_of :: "geoip_reader option \<Rightarrow> client_context \<Rightarrow> client_geo option" where
  "client_geo_of geoip ctx =
     (case ctx_geo ctx of
        Some g \<Rightarrow> Some g
      | None \<Rightarrow> (case geoip of
                   None \<Rightarrow> None
                 | Some reader \<Rightarrow> (case geoip_lookup reader (Some (ctx_ip ctx)) of
                                      Inl _ \<Rightarrow> None | Inr g \<Rightarrow> Some g)))"

definition geo_lookup_ok :: "geoip_reader option \<Rightarrow> ip_address \<Rightarrow> bool" where
  "geo_lookup_ok geoip a \<longleftrightarrow> (\<forall>reader. geoip = Some reader \<longrightarrow> returns (geoip_lookup reader (Some a)))"

definition rule_admits :: "(ip_address \<Rightarrow> ip_network \<Rightarrow> bool) \<Rightarrow> view_rule \<Rightarrow> ip_address \<Rightarrow> client_geo option \<Rightarrow> bool" where
  "rule_admits contains rule a g \<longleftrightarrow>
     matches_all rule \<or> (\<exists>net \<in> set (cidrs rule). contains a net) \<or>
     (case g of None \<Rightarrow> False | Some g \<Rightarrow> geo_matches rule g)"

text \<open>\<open>ctx'\<close> is \<open>ctx\<close> with its geo possibly resolved.\<close>

definition ctx_refines :: "geoip_reader option \<Rightarrow> client_context \<Rightarrow> client_context \<Rightarrow> bool" where
  "ctx_refines geoip ctx ctx' \<longleftrightarrow> ctx' = ctx \<or> ctx' = ctx\<lparr>ctx_geo := client_geo_of geoip ctx\<rparr>"

lemma geo_matches_Nil [simp]: "geos rule = [] \<Longrightarrow> \<not> geo_matches rule g"
  by (simp add: geo_matches_def)

lemma view_matches_correct:
  assumes "geo_lookup_ok geoip (ctx_ip ctx)"
  shows "\<exists>ctx'. view_matches contains geoip rule ctx =
      (Inr (rule_admits contains rule (ctx_ip ctx) (client_geo_of geoip ctx)), ctx')
    \<and> ctx_refines geoip ctx ctx'"
proof -
  consider "matches_all rule \<or> list_ex (contains (ctx_ip ctx)) (cidrs rule)"
    | "\<not> matches_all rule" "\<not> list_ex (contains (ctx_ip ctx)) (cidrs rule)" "geos rule = []"
    | "\<not> matches_all rule" "\<not> list_ex (contains (ctx_ip ctx)) (cidrs rule)" "geos rule \<noteq> []" by blast
  then show ?thesis
  proof cases
    case 3
    then show ?thesis using assms
      by (auto simp: view_matches_def rule_admits_def client_geo_of_def ctx_refines_def geo_lookup_ok_def
          returns_iff list_ex_iff split: option.split)
  qed (auto simp: view_matches_def rule_admits_def ctx_refines_def list_ex_iff split: option.split)
qed

lemma client_geo_of_idem [simp]:
  "client_geo_of geoip (ctx\<lparr>ctx_geo := client_geo_of geoip ctx\<rparr>) = client_geo_of geoip ctx"
proof (cases "ctx_geo ctx")
  case None
  then show ?thesis by (cases geoip) (auto simp: client_geo_of_def split: sum.split)
qed (simp add: client_geo_of_def)

lemma ctx_refines_simps:
  assumes "ctx_refines geoip ctx ctx'"
  shows "ctx_ip ctx' = ctx_ip ctx" "ctx_prefixlen ctx' = ctx_prefixlen ctx"
    "client_geo_of geoip ctx' = client_geo_of geoip ctx"
  using assms by (auto simp: ctx_refines_def)

lemma ctx_refines_trans:
  assumes "ctx_refines geoip a b" "ctx_refines geoip b c"
  shows "ctx_refines geoip a c"
  using assms(1)
proof (unfold ctx_refines_def, elim disjE)
  assume "b = a"
  with assms(2) show "c = a \<or> c = a\<lparr>ctx_geo := client_geo_of geoip a\<rparr>" by (simp add: ctx_refines_def)
next
  assume "b = a\<lparr>ctx_geo := client_geo_of geoip a\<rparr>"
  with assms(2) show "c = a \<or> c = a\<lparr>ctx_geo := client_geo_of geoip a\<rparr>" by (simp add: ctx_refines_def)
qed

lemma ctx_refines_refl [simp]: "ctx_refines geoip ctx ctx"
  by (simp add: ctx_refines_def)

text \<open>What \<open>netaddr\<close> documents of membership in a network of prefix length 0.\<close>

definition contains_all_of_family :: "(ip_address \<Rightarrow> ip_network \<Rightarrow> bool) \<Rightarrow> bool" where
  "contains_all_of_family contains \<longleftrightarrow>
     (\<forall>a net. net_prefixlen net = 0 \<longrightarrow> net_version net = ip_version a \<longrightarrow> contains a net)"

lemma match_all_contains:
  assumes "contains_all_of_family contains" "rule_wf rule" "matches_all rule"
  shows "\<exists>net \<in> set (cidrs rule). contains a net"
proof -
  have "matches_all (make_view_rule (cidrs rule) (geos rule))"
    using assms(2,3) by (metis rule_wf_def)
  then have "\<exists>c \<in> set (cidrs rule). net_version c = ip_version a \<and> net_prefixlen c = 0"
    by (cases a) (auto simp: matches_all_iff)
  then show ?thesis using assms(1) by (auto simp: contains_all_of_family_def)
qed

end
