(* ===== verification/Status_Registry.thy ===== *)
theory Status_Registry
  imports Py_Prelude
begin

section \<open>The health status registry\<close>

text \<open>
  \<open>monitor/status.py\<close>: the set of the content ids that are down, shared by the check threads (through
  a \<open>StatusWriter\<close>), the monitor and the request handlers. \<open>_status\<close> is the whole state; each
  operation is one atomic set operation. A \<open>StatusWriter\<close> is the content id it is bound to.
  \<open>status_set\<close> is the interface the other components rely on.
\<close>

type_synonym status_registry = "int set"

definition registry_init :: status_registry where
  "registry_init = {}"

definition registry_add :: "int \<Rightarrow> status_registry \<Rightarrow> status_registry" where
  "registry_add content_id status = insert content_id status"

definition registry_remove :: "int \<Rightarrow> status_registry \<Rightarrow> status_registry" where
  "registry_remove content_id status = status - {content_id}"

definition registry_is_down :: "int \<Rightarrow> status_registry \<Rightarrow> bool" where
  "registry_is_down content_id status \<longleftrightarrow> content_id \<in> status"

text \<open>\<open>list(self._status)\<close>: Python leaves the order open; the model lists ascending.\<close>

definition registry_snapshot :: "status_registry \<Rightarrow> int list" where
  "registry_snapshot status = sorted_list_of_set status"

text \<open>\<open>retain\<close> returns the dropped ids and the new state.\<close>

definition registry_retain :: "int set \<Rightarrow> status_registry \<Rightarrow> int set \<times> status_registry" where
  "registry_retain valid_ids status = (status - valid_ids, status \<inter> valid_ids)"

definition writer_set_down :: "int \<Rightarrow> status_registry \<Rightarrow> status_registry" where
  "writer_set_down content_id status = registry_add content_id status"

definition writer_set_up :: "int \<Rightarrow> status_registry \<Rightarrow> status_registry" where
  "writer_set_up content_id status = registry_remove content_id status"

definition writer_is_down :: "int \<Rightarrow> status_registry \<Rightarrow> bool" where
  "writer_is_down content_id status = registry_is_down content_id status"

subsection \<open>The interface\<close>

locale status_set =
  fixes down :: "int \<Rightarrow> 's \<Rightarrow> bool"
    and set_down :: "int \<Rightarrow> 's \<Rightarrow> 's"
    and set_up :: "int \<Rightarrow> 's \<Rightarrow> 's"
    and retain :: "int set \<Rightarrow> 's \<Rightarrow> int set \<times> 's"
  assumes down_set_down: "down i (set_down j s) \<longleftrightarrow> i = j \<or> down i s"
    and down_set_up: "down i (set_up j s) \<longleftrightarrow> i \<noteq> j \<and> down i s"
    and down_retain: "down i (snd (retain V s)) \<longleftrightarrow> i \<in> V \<and> down i s"
    and dropped_retain: "i \<in> fst (retain V s) \<longleftrightarrow> i \<notin> V \<and> down i s"
begin

lemma other_ids_kept: "i \<noteq> j \<Longrightarrow> down i (set_down j s) = down i s \<and> down i (set_up j s) = down i s"
  by (simp add: down_set_down down_set_up)

text \<open>A sequence of writes to one id ends in the state of the last one.\<close>

definition record_status :: "int \<Rightarrow> bool \<Rightarrow> 's \<Rightarrow> 's" where
  "record_status j b s = (if b then set_down j s else set_up j s)"

lemma last_write_wins: "down i (foldl (\<lambda>s b. record_status i b s) s bs) \<longleftrightarrow> (if bs = [] then down i s else last bs)"
  by (induction bs arbitrary: s) (auto simp: record_status_def down_set_down down_set_up)

end

interpretation registry: status_set registry_is_down writer_set_down writer_set_up registry_retain
  by unfold_locales
     (auto simp: registry_is_down_def writer_set_down_def writer_set_up_def registry_add_def
       registry_remove_def registry_retain_def)

lemma registry_simps [simp]:
  "registry_is_down i status \<longleftrightarrow> i \<in> status"
  "writer_is_down i status \<longleftrightarrow> i \<in> status"
  "writer_set_down i status = insert i status"
  "writer_set_up i status = status - {i}"
  by (simp_all add: registry_is_down_def writer_is_down_def writer_set_down_def writer_set_up_def
      registry_add_def registry_remove_def)

end
