(* ===== verification/PowerDNS_Select.thy ===== *)
theory PowerDNS_Select
  imports Routing View_Rule Status_Registry
begin

section \<open>Record selection\<close>

text \<open>
  The selection pipeline of \<open>server/http/handler/powerdns.py\<close>: view filter, health filter, routing
  policy, per query type, and the EDNS Client Subnet scope of each answer. \<open>dns_env\<close> holds the code
  outside the repository that the pipeline calls: \<open>json.loads\<close>, the digest, \<open>netaddr\<close>'s parser and
  membership test, and the GeoIP reader of \<open>ViewRule._geoip\<close>. \<open>_is_in_view\<close> may store the client's geo
  on the request context, so the context is threaded through. The calls of the memoised \<open>resolve\<close>
  functions stand for their values, which \<open>routing_cache\<close> and \<open>view_cache\<close> justify.
\<close>

record dns_env =
  e_loads :: "string \<Rightarrow> pyval result"
  e_digest :: "nat list \<Rightarrow> nat list"
  e_parse_net :: "string \<Rightarrow> ip_network result"
  e_contains :: "ip_address \<Rightarrow> ip_network \<Rightarrow> bool"
  e_geoip :: "geoip_reader option"

abbreviation resolve_rule :: "dns_env \<Rightarrow> dns_record \<Rightarrow> view_rule result" where
  "resolve_rule env rec \<equiv> view_resolve (e_parse_net env) (r_rule rec)"

abbreviation resolve_policy :: "dns_env \<Rightarrow> dns_record \<Rightarrow> routing_policy result" where
  "resolve_policy env rec \<equiv> routing_resolve (e_loads env) (r_policy_json rec)"

subsection \<open>The view filter\<close>

text \<open>\<open>_is_in_view\<close>: a \<open>ValueError\<close> of either call is logged and counts as not in view.\<close>

definition is_in_view :: "dns_env \<Rightarrow> dns_record \<Rightarrow> client_context \<Rightarrow> bool result \<times> client_context" where
  "is_in_view env rec ctx =
     (case resolve_rule env rec of
        Inl (ValueError _) \<Rightarrow> (Inr False, ctx)
      | Inl e \<Rightarrow> (Inl e, ctx)
      | Inr rule \<Rightarrow>
          (case view_matches (e_contains env) (e_geoip env) rule ctx of
             (Inl (ValueError _), ctx') \<Rightarrow> (Inr False, ctx')
           | (m, ctx') \<Rightarrow> (m, ctx')))"

fun filter_in_view :: "dns_env \<Rightarrow> dns_record list \<Rightarrow> client_context \<Rightarrow> dns_record list result \<times> client_context" where
  "filter_in_view env [] ctx = (Inr [], ctx)"
| "filter_in_view env (rec # recs) ctx =
     (case is_in_view env rec ctx of
        (Inl e, ctx') \<Rightarrow> (Inl e, ctx')
      | (Inr b, ctx') \<Rightarrow>
          (case filter_in_view env recs ctx' of
             (Inl e, ctx'') \<Rightarrow> (Inl e, ctx'')
           | (Inr recs', ctx'') \<Rightarrow> (Inr (if b then rec # recs' else recs'), ctx'')))"

subsection \<open>The health filter\<close>

text \<open>
  \<open>status\<close> is the registry as the lookup finds it: the ids that are down when the lookup asks for them. Each
  record is asked once, so nothing else of a registry that changes meanwhile is seen; \<open>live_asked\<close> says so.
\<close>

definition live :: "status_registry \<Rightarrow> dns_record list \<Rightarrow> dns_record list" where
  "live status recs = filter (\<lambda>rec. \<not> registry_is_down (r_id rec) status) recs"

lemma live_asked:
  "filter (\<lambda>rec. \<not> registry_is_down (r_id rec) (asked (r_id rec))) recs
     = live {i. registry_is_down i (asked i)} recs"
  by (simp add: live_def)

text \<open>The loop that splits the in-view records into specific and catch-all ones.\<close>

fun split_views :: "dns_env \<Rightarrow> dns_record list \<Rightarrow> (dns_record list \<times> dns_record list) result" where
  "split_views env [] = Inr ([], [])"
| "split_views env (rec # recs) =
     bind_result (resolve_rule env rec)
       (\<lambda>rule. bind_result (split_views env recs)
          (\<lambda>(specific, catch_all).
             Inr (if matches_all rule then (specific, rec # catch_all) else (rec # specific, catch_all))))"

text \<open>\<open>a or b\<close> on lists.\<close>

definition or_else :: "'a list \<Rightarrow> 'a list \<Rightarrow> 'a list" where
  "or_else xs ys = (if xs \<noteq> [] then xs else ys)"

definition choose_candidates :: "status_registry \<Rightarrow> dns_record list \<Rightarrow> dns_record list \<Rightarrow> dns_record list" where
  "choose_candidates status specific catch_all =
     or_else (live status specific) (or_else (live status catch_all) (or_else specific catch_all))"

subsection \<open>Selection per query type\<close>

text \<open>
  The body of the loop of \<open>_select_records\<close> for one group: \<open>None\<close> when the query type is left out,
  because no record is in view or because the policy (whatever it raises) is invalid.
\<close>

definition select_group ::
    "dns_env \<Rightarrow> status_registry \<Rightarrow> dns_record list \<Rightarrow> client_context \<Rightarrow> rng
       \<Rightarrow> dns_record list option result \<times> client_context \<times> rng" where
  "select_group env status rrset ctx r =
     (case filter_in_view env rrset ctx of
        (Inl e, ctx') \<Rightarrow> (Inl e, ctx', r)
      | (Inr [], ctx') \<Rightarrow> (Inr None, ctx', r)
      | (Inr in_view, ctx') \<Rightarrow>
          (case split_views env in_view of
             Inl e \<Rightarrow> (Inl e, ctx', r)
           | Inr (specific, catch_all) \<Rightarrow>
               (let candidates = choose_candidates status specific catch_all
                in case resolve_policy env (hd rrset) of
                     Inl e \<Rightarrow> (Inr None, ctx', r)
                   | Inr policy \<Rightarrow>
                       (case policy_select (e_digest env) policy candidates ctx' r of
                          (Inl e, r') \<Rightarrow> (Inr None, ctx', r')
                        | (Inr ys, r') \<Rightarrow> (Inr (Some ys), ctx', r')))))"

fun select_records ::
    "dns_env \<Rightarrow> status_registry \<Rightarrow> (string \<times> dns_record list) list \<Rightarrow> client_context \<Rightarrow> rng
       \<Rightarrow> (string \<times> dns_record list) list result \<times> client_context \<times> rng" where
  "select_records env status [] ctx r = (Inr [], ctx, r)"
| "select_records env status ((qtype, rrset) # rest) ctx r =
     (case select_group env status rrset ctx r of
        (Inl e, ctx', r') \<Rightarrow> (Inl e, ctx', r')
      | (Inr chosen, ctx', r') \<Rightarrow>
          (case select_records env status rest ctx' r' of
             (Inl e, ctx'', r'') \<Rightarrow> (Inl e, ctx'', r'')
           | (Inr selected, ctx'', r'') \<Rightarrow>
               (Inr (case chosen of None \<Rightarrow> selected | Some ys \<Rightarrow> (qtype, ys) # selected), ctx'', r'')))"

subsection \<open>The scope\<close>

definition authority_qtypes :: "string list" where
  "authority_qtypes = [''SOA'', ''NS'', ''DS'']"

fun all_match_all :: "dns_env \<Rightarrow> dns_record list \<Rightarrow> bool result" where
  "all_match_all env [] = Inr True"
| "all_match_all env (rec # recs) =
     (case resolve_rule env rec of
        Inl (ValueError _) \<Rightarrow> Inr False
      | Inl e \<Rightarrow> Inl e
      | Inr rule \<Rightarrow> if matches_all rule then all_match_all env recs else Inr False)"

definition scope_prefix :: "dns_env \<Rightarrow> dns_record list \<Rightarrow> client_context \<Rightarrow> int result" where
  "scope_prefix env rrset ctx =
     (if rrset = [] \<or> r_qtype (hd rrset) \<in> set authority_qtypes then Inr 0
      else
        (let source_prefix = ctx_prefixlen ctx
         in bind_result (all_match_all env rrset)
              (\<lambda>b. if \<not> b then Inr source_prefix
                   else bind_result (resolve_policy env (hd rrset))
                          (\<lambda>policy. case policy_network_prefix policy ctx of
                             Some prefix \<Rightarrow> Inr (min prefix source_prefix)
                           | None \<Rightarrow> Inr 0))))"

end
