(* ===== verification/PowerDNS_Select_Proofs.thy ===== *)
theory PowerDNS_Select_Proofs
  imports PowerDNS_Select
begin

section \<open>Properties of record selection\<close>

text \<open>
  The pipeline computes a pure specification: the in-view records are a filter, the candidates are the
  first non-empty of four lists, and the answer is the policy's choice among them. From it follow the
  precedence of specific over catch-all views, ''all down = all up'', the absence of exceptions, and the
  soundness of the EDNS Client Subnet scope.
\<close>

subsection \<open>Admissible environments\<close>

text \<open>What the pipeline relies on in third-party code, for a client address.\<close>

definition env_ok :: "dns_env \<Rightarrow> ip_address \<Rightarrow> bool" where
  "env_ok env a \<longleftrightarrow> parse_net_raises (e_parse_net env) \<and> geo_lookup_ok (e_geoip env) a"

definition admits :: "dns_env \<Rightarrow> client_context \<Rightarrow> dns_record \<Rightarrow> bool" where
  "admits env ctx rec =
     (case resolve_rule env rec of
        Inl _ \<Rightarrow> False
      | Inr rule \<Rightarrow> rule_admits (e_contains env) rule (ctx_ip ctx) (client_geo_of (e_geoip env) ctx))"

definition is_catch_all :: "dns_env \<Rightarrow> dns_record \<Rightarrow> bool" where
  "is_catch_all env rec = (case resolve_rule env rec of Inl _ \<Rightarrow> False | Inr rule \<Rightarrow> matches_all rule)"

definition in_view_of :: "dns_env \<Rightarrow> client_context \<Rightarrow> dns_record list \<Rightarrow> dns_record list" where
  "in_view_of env ctx rrset = filter (admits env ctx) rrset"

definition candidates_of :: "dns_env \<Rightarrow> status_registry \<Rightarrow> client_context \<Rightarrow> dns_record list \<Rightarrow> dns_record list" where
  "candidates_of env status ctx rrset =
     choose_candidates status
       (filter (\<lambda>x. \<not> is_catch_all env x) (in_view_of env ctx rrset))
       (filter (is_catch_all env) (in_view_of env ctx rrset))"

definition answer_of ::
    "dns_env \<Rightarrow> status_registry \<Rightarrow> client_context \<Rightarrow> rng \<Rightarrow> dns_record list \<Rightarrow> dns_record list option" where
  "answer_of env status ctx r rrset =
     (if in_view_of env ctx rrset = [] then None
      else (case resolve_policy env (hd rrset) of
              Inl _ \<Rightarrow> None
            | Inr p \<Rightarrow> (case fst (policy_select (e_digest env) p (candidates_of env status ctx rrset) ctx r) of
                          Inl _ \<Rightarrow> None | Inr ys \<Rightarrow> Some ys)))"

subsection \<open>The view filter\<close>

lemma is_in_view_correct:
  assumes "env_ok env (ctx_ip ctx)"
  shows "\<exists>ctx'. is_in_view env rec ctx = (Inr (admits env ctx rec), ctx') \<and> ctx_refines (e_geoip env) ctx ctx'"
proof (cases "resolve_rule env rec")
  case (Inl e)
  then obtain m where "e = ValueError m"
    using assms view_resolve_InlD unfolding env_ok_def by blast
  with Inl show ?thesis by (simp add: is_in_view_def admits_def)
next
  case (Inr rule)
  have "geo_lookup_ok (e_geoip env) (ctx_ip ctx)" using assms by (simp add: env_ok_def)
  from view_matches_correct [OF this, of "e_contains env" rule] Inr show ?thesis
    by (auto simp: is_in_view_def admits_def)
qed

lemma admits_cong:
  "ctx_refines (e_geoip env) ctx ctx' \<Longrightarrow> admits env ctx' = admits env ctx"
  by (auto simp: admits_def fun_eq_iff ctx_refines_simps split: sum.split)

lemma filter_in_view_correct:
  "env_ok env (ctx_ip ctx) \<Longrightarrow>
     \<exists>ctx'. filter_in_view env recs ctx = (Inr (in_view_of env ctx recs), ctx')
       \<and> ctx_refines (e_geoip env) ctx ctx'"
proof (induction recs arbitrary: ctx)
  case (Cons rec recs)
  obtain ctx1 where c1: "is_in_view env rec ctx = (Inr (admits env ctx rec), ctx1)"
    "ctx_refines (e_geoip env) ctx ctx1"
    using is_in_view_correct Cons.prems by blast
  then have "env_ok env (ctx_ip ctx1)" using Cons.prems by (simp add: ctx_refines_simps)
  then obtain ctx2 where c2: "filter_in_view env recs ctx1 = (Inr (in_view_of env ctx1 recs), ctx2)"
    "ctx_refines (e_geoip env) ctx1 ctx2"
    using Cons.IH by blast
  have "in_view_of env ctx1 recs = in_view_of env ctx recs"
    using c1(2) by (simp add: in_view_of_def admits_cong)
  then show ?case
    using c1 c2 ctx_refines_trans [OF c1(2) c2(2)] by (simp add: in_view_of_def)
qed (simp add: in_view_of_def)

lemma in_view_resolves: "x \<in> set (in_view_of env ctx recs) \<Longrightarrow> returns (resolve_rule env x)"
  by (auto simp: in_view_of_def admits_def split: sum.splits)

lemma split_views_eq:
  "\<forall>x \<in> set recs. returns (resolve_rule env x) \<Longrightarrow>
     split_views env recs = Inr (filter (\<lambda>x. \<not> is_catch_all env x) recs, filter (is_catch_all env) recs)"
  by (induction recs) (auto simp: returns_iff is_catch_all_def)

subsection \<open>The pipeline computes the specification\<close>

lemma policy_select_ctx_ip:
  "ctx_ip ctx' = ctx_ip ctx \<Longrightarrow> policy_select digest p cs ctx' r = policy_select digest p cs ctx r"
  by (cases p) (simp_all add: sticky_hash_select_def Let_def)

lemma select_group_eq:
  assumes "filter_in_view env rrset ctx = (Inr iv, ctx')" and "iv \<noteq> []"
    and "split_views env iv = Inr (sp, ca)"
  shows "select_group env status rrset ctx r =
     (case resolve_policy env (hd rrset) of
        Inl e \<Rightarrow> (Inr None, ctx', r)
      | Inr policy \<Rightarrow>
          (case policy_select (e_digest env) policy (choose_candidates status sp ca) ctx' r of
             (Inl e, r') \<Rightarrow> (Inr None, ctx', r')
           | (Inr ys, r') \<Rightarrow> (Inr (Some ys), ctx', r')))"
  using assms by (cases iv) (simp_all add: select_group_def Let_def del: split_views.simps)

lemma select_group_correct:
  assumes "env_ok env (ctx_ip ctx)"
  shows "\<exists>ctx' r'. select_group env status rrset ctx r = (Inr (answer_of env status ctx r rrset), ctx', r')
    \<and> ctx_refines (e_geoip env) ctx ctx'"
proof -
  obtain ctx' where f: "filter_in_view env rrset ctx = (Inr (in_view_of env ctx rrset), ctx')"
    "ctx_refines (e_geoip env) ctx ctx'"
    using filter_in_view_correct [OF assms] by blast
  have ip: "ctx_ip ctx' = ctx_ip ctx" using f(2) by (simp add: ctx_refines_simps)
  have sp: "split_views env (in_view_of env ctx rrset) =
      Inr (filter (\<lambda>x. \<not> is_catch_all env x) (in_view_of env ctx rrset),
           filter (is_catch_all env) (in_view_of env ctx rrset))"
    by (intro split_views_eq ballI in_view_resolves)
  show ?thesis
  proof (cases "in_view_of env ctx rrset = []")
    case True
    then show ?thesis using f by (simp add: select_group_def answer_of_def)
  next
    case False
    note eq = select_group_eq [OF f(1) False sp, folded candidates_of_def]
    show ?thesis
      using f(2) False policy_select_ctx_ip [OF ip]
      by (auto simp: eq answer_of_def split: sum.split prod.split)
  qed
qed

subsection \<open>The loop over the query types\<close>

lemma answer_of_cong:
  assumes "ctx_refines (e_geoip env) ctx ctx'"
  shows "answer_of env status ctx' r rrset = answer_of env status ctx r rrset"
proof -
  have "admits env ctx' = admits env ctx" by (rule admits_cong [OF assms])
  then have "in_view_of env ctx' rrset = in_view_of env ctx rrset"
    "candidates_of env status ctx' rrset = candidates_of env status ctx rrset"
    by (simp_all add: in_view_of_def candidates_of_def)
  moreover have "policy_select (e_digest env) p cs ctx' r = policy_select (e_digest env) p cs ctx r" for p cs
    using assms by (intro policy_select_ctx_ip) (simp add: ctx_refines_simps)
  ultimately show ?thesis by (simp add: answer_of_def split: sum.split)
qed

definition selection_of ::
    "dns_env \<Rightarrow> status_registry \<Rightarrow> client_context \<Rightarrow> (string \<times> dns_record list) list \<Rightarrow> rng list
       \<Rightarrow> (string \<times> dns_record list) list" where
  "selection_of env status ctx gs rs =
     List.map_filter (\<lambda>((qtype, rrset), r). map_option (Pair qtype) (answer_of env status ctx r rrset)) (zip gs rs)"

lemma select_records_correct:
  "env_ok env (ctx_ip ctx) \<Longrightarrow>
     \<exists>rs ctx' r'. length rs = length gs \<and>
       select_records env status gs ctx r = (Inr (selection_of env status ctx gs rs), ctx', r') \<and>
       ctx_refines (e_geoip env) ctx ctx'"
proof (induction gs arbitrary: ctx r)
  case Nil
  then show ?case by (auto simp: selection_of_def map_filter_simps)
next
  case (Cons g gs)
  obtain qtype rrset where g: "g = (qtype, rrset)" by (cases g)
  obtain ctx1 r1 where s: "select_group env status rrset ctx r = (Inr (answer_of env status ctx r rrset), ctx1, r1)"
    "ctx_refines (e_geoip env) ctx ctx1"
    using select_group_correct [OF Cons.prems] by blast
  then have "env_ok env (ctx_ip ctx1)" using Cons.prems by (simp add: ctx_refines_simps)
  then obtain rs ctx2 r2 where t: "length rs = length gs"
    "select_records env status gs ctx1 r1 = (Inr (selection_of env status ctx1 gs rs), ctx2, r2)"
    "ctx_refines (e_geoip env) ctx1 ctx2"
    using Cons.IH by blast
  have e: "selection_of env status ctx1 gs rs = selection_of env status ctx gs rs"
    by (simp add: selection_of_def answer_of_cong [OF s(2)])
  have "select_records env status (g # gs) ctx r = (Inr (selection_of env status ctx (g # gs) (r # rs)), ctx2, r2)"
    using s(1) t(2) e by (simp add: g selection_of_def map_filter_simps split: option.split)
  moreover have "length (r # rs) = length (g # gs)" using t(1) by simp
  ultimately show ?case using ctx_refines_trans [OF s(2) t(3)] by blast
qed

lemma selection_of_mem:
  assumes "(qtype, ys) \<in> set (selection_of env status ctx gs rs)"
  shows "\<exists>rrset r. (qtype, rrset) \<in> set gs \<and> answer_of env status ctx r rrset = Some ys"
proof -
  from assms obtain rrset r where "((qtype, rrset), r) \<in> set (zip gs rs)"
    "answer_of env status ctx r rrset = Some ys"
    by (auto simp: selection_of_def List.map_filter_def)
  then show ?thesis by (auto dest: set_zip_leftD)
qed

subsection \<open>What an answer satisfies\<close>

lemma choose_candidates_cases:
  assumes "y \<in> set (choose_candidates status sp ca)"
  shows "(y \<in> set sp \<or> y \<in> set ca)
    \<and> (y \<notin> set sp \<and> live status [y] \<noteq> [] \<longrightarrow> live status sp = [])
    \<and> (live status [y] = [] \<longrightarrow> live status sp = [] \<and> live status ca = [])
    \<and> (y \<notin> set sp \<and> live status [y] = [] \<longrightarrow> sp = [])"
  using assms by (auto simp: choose_candidates_def or_else_def live_def filter_empty_conv split: if_splits)

lemma choose_candidates_nonempty:
  "sp \<noteq> [] \<or> ca \<noteq> [] \<Longrightarrow> choose_candidates status sp ca \<noteq> []"
  by (auto simp: choose_candidates_def or_else_def)

lemma candidates_of_subset: "set (candidates_of env status ctx rrset) \<subseteq> set (in_view_of env ctx rrset)"
  by (auto simp: candidates_of_def dest!: choose_candidates_cases)

lemma in_view_of_subset: "set (in_view_of env ctx rrset) \<subseteq> set rrset"
  by (auto simp: in_view_of_def)

lemma candidates_of_nonempty: "in_view_of env ctx rrset \<noteq> [] \<Longrightarrow> candidates_of env status ctx rrset \<noteq> []"
  unfolding candidates_of_def
  by (rule choose_candidates_nonempty) (auto simp: filter_empty_conv neq_Nil_conv)

lemma candidates_of_ok: "records_ok rrset \<Longrightarrow> records_ok (candidates_of env status ctx rrset)"
  using records_ok_subset candidates_of_subset in_view_of_subset by (metis subset_trans)

lemma answer_of_SomeD:
  assumes "answer_of env status ctx r rrset = Some ys"
  obtains p where "resolve_policy env (hd rrset) = Inr p" "policy_wf p" "in_view_of env ctx rrset \<noteq> []"
    "fst (policy_select (e_digest env) p (candidates_of env status ctx rrset) ctx r) = Inr ys"
  using assms routing_resolve_wf by (auto simp: answer_of_def split: if_splits sum.splits)

lemma answer_of_answers:
  assumes "answer_of env status ctx r rrset = Some ys" "records_ok rrset"
  shows "set ys \<subseteq> set (candidates_of env status ctx rrset)" "ys \<noteq> []"
proof -
  from answer_of_SomeD [OF assms(1)] obtain p where p: "policy_wf p" "in_view_of env ctx rrset \<noteq> []"
    "fst (policy_select (e_digest env) p (candidates_of env status ctx rrset) ctx r) = Inr ys" by blast
  from policies.answers [of p "candidates_of env status ctx rrset" "e_digest env" ctx r]
    p candidates_of_ok [OF assms(2)] candidates_of_nonempty [OF p(2)]
  show "set ys \<subseteq> set (candidates_of env status ctx rrset)" "ys \<noteq> []" by auto
qed

lemma answer_of_None:
  assumes "records_ok rrset"
  shows "answer_of env status ctx r rrset = None \<longleftrightarrow>
    in_view_of env ctx rrset = [] \<or> \<not> returns (resolve_policy env (hd rrset))"
proof (cases "resolve_policy env (hd rrset)")
  case (Inr p)
  from policies.answers [of p "candidates_of env status ctx rrset" "e_digest env" ctx r]
    candidates_of_ok [OF assms] routing_resolve_wf [OF Inr]
  show ?thesis using Inr by (auto simp: answer_of_def)
qed (simp add: answer_of_def)

subsection \<open>The scope\<close>

lemma all_match_all_eq:
  assumes "parse_net_raises (e_parse_net env)"
  shows "all_match_all env recs = Inr (\<forall>x \<in> set recs. is_catch_all env x)"
proof (induction recs)
  case (Cons x xs)
  show ?case
  proof (cases "resolve_rule env x")
    case (Inl e)
    then obtain m where "e = ValueError m" using view_resolve_InlD [OF assms] by blast
    with Inl show ?thesis by (simp add: is_catch_all_def)
  next
    case (Inr rule)
    then show ?thesis using Cons.IH by (simp add: is_catch_all_def)
  qed
qed simp

definition scope_of :: "dns_env \<Rightarrow> client_context \<Rightarrow> dns_record list \<Rightarrow> routing_policy \<Rightarrow> int" where
  "scope_of env ctx rrset p =
     (if rrset = [] \<or> r_qtype (hd rrset) \<in> set authority_qtypes then 0
      else if \<not> (\<forall>x \<in> set rrset. is_catch_all env x) then ctx_prefixlen ctx
      else (case policy_network_prefix p ctx of None \<Rightarrow> 0 | Some n \<Rightarrow> min n (ctx_prefixlen ctx)))"

lemma scope_prefix_eq:
  assumes "parse_net_raises (e_parse_net env)" "resolve_policy env (hd rrset) = Inr p"
  shows "scope_prefix env rrset ctx = Inr (scope_of env ctx rrset p)"
  using assms(2) by (simp add: scope_prefix_def scope_of_def all_match_all_eq [OF assms(1)] Let_def split: option.split)

lemma scope_of_bounds:
  assumes "policy_wf p" "0 \<le> ctx_prefixlen ctx"
  shows "0 \<le> scope_of env ctx rrset p \<and> scope_of env ctx rrset p \<le> ctx_prefixlen ctx"
  using assms by (cases p) (auto simp: scope_of_def policy_wf_def sticky_network_prefix_def)

lemma catch_all_admits: "is_catch_all env x \<Longrightarrow> admits env ctx x"
  by (auto simp: is_catch_all_def admits_def rule_admits_def split: sum.splits)

text \<open>
  Two clients that agree on as many leading bits as the scope says get the same choice: a narrower
  scope than the source prefix arises only when every view is match-all.
\<close>

lemma scope_sound:
  assumes nar: "scope_of env ctx rrset p < ctx_prefixlen ctx"
    and qt: "rrset \<noteq> []" "r_qtype (hd rrset) \<notin> set authority_qtypes"
    and pol: "resolve_policy env (hd rrset) = Inr p" and ok: "policy_wf p"
    and fam: "ip_version (ctx_ip ctx') = ip_version (ctx_ip ctx)"
    and bits: "leading_bits (nat (scope_of env ctx rrset p)) (ctx_ip ctx')
      = leading_bits (nat (scope_of env ctx rrset p)) (ctx_ip ctx)"
  shows "answer_of env status ctx' r rrset = answer_of env status ctx r rrset"
proof -
  have all: "\<forall>x \<in> set rrset. is_catch_all env x" using nar qt by (auto simp: scope_of_def split: if_splits)
  then have view: "in_view_of env c rrset = rrset" for c
    by (auto simp: in_view_of_def filter_id_conv catch_all_admits)
  then have cand: "candidates_of env status ctx' rrset = candidates_of env status ctx rrset"
    by (simp add: candidates_of_def)
  have "policy_select (e_digest env) p cs ctx' r = policy_select (e_digest env) p cs ctx r" for cs
  proof (cases p)
    case (StickyHash n p4 p6)
    have pre: "prefixes_ok p4 p6" using ok by (simp add: StickyHash policy_wf_def prefixes_ok_def)
    have "scope_of env ctx rrset p = sticky_network_prefix p4 p6 ctx"
      using nar qt all by (auto simp: scope_of_def StickyHash min_def split: if_splits)
    then have "nat (scope_of env ctx rrset p) = family_prefix (ctx_ip ctx) p4 p6"
      by (cases "ctx_ip ctx") (simp_all add: sticky_network_prefix_def family_prefix_def)
    then have "masked_network (ctx_ip ctx') p4 p6 = masked_network (ctx_ip ctx) p4 p6"
      using masked_network_cong [OF pre fam [symmetric]] bits by simp
    then show ?thesis by (simp add: StickyHash sticky_hash_select_def Let_def)
  qed simp_all
  then show ?thesis by (simp add: answer_of_def view cand pol split: sum.split)
qed

end
