(* ===== verification/Url_Query.thy ===== *)
theory Url_Query
  imports Py_Strings
begin

section \<open>Query strings\<close>

text \<open>
  \<open>urllib.parse.parse_qsl\<close> and \<open>parse_qs\<close> with their default arguments, as both handlers use them:
  fields are separated by an ampersand, a field without a value is dropped, a plus is a space. The
  percent decoding \<open>unquote\<close> is a parameter.
\<close>


definition query_fields :: "string \<Rightarrow> string list" where
  "query_fields query = (if query = [] then [] else filter (\<lambda>f. f \<noteq> []) (split_on (CHR ''&'') query))"

definition parse_field :: "(string \<Rightarrow> string) \<Rightarrow> string \<Rightarrow> (string \<times> string) option" where
  "parse_field unquote field =
     (let (name, sep, val) = str_partition (CHR ''='') field;
          plus = (\<lambda>s. str_replace ''+'' '' '' s)
      in if val = [] then None else Some (unquote (plus name), unquote (plus val)))"

definition parse_qsl :: "(string \<Rightarrow> string) \<Rightarrow> string \<Rightarrow> (string \<times> string) list" where
  "parse_qsl unquote query = List.map_filter (parse_field unquote) (query_fields query)"

definition parse_qs :: "(string \<Rightarrow> string) \<Rightarrow> string \<Rightarrow> (string \<times> string list) list" where
  "parse_qs unquote query =
     map (\<lambda>(k, kvs). (k, map snd kvs)) (group_by fst (parse_qsl unquote query))"

end
