(* ===== verification/PowerDNS_Handler.thy ===== *)
theory PowerDNS_Handler
  imports PowerDNS_Select_Proofs Url_Query
begin

section \<open>The DNS handler\<close>

text \<open>
  The operations of \<open>server/http/handler/powerdns.py\<close> around the selection: \<open>_get_lookup\<close>,
  \<open>_get_all_domains\<close>, \<open>_set_remote_ip\<close> and the dispatch of \<open>content\<close> and \<open>_handle_route\<close>. The
  database reads are parameters (a list of rows or the exception raised); \<open>now\<close> is the clock, read once
  per listed domain; \<open>parse_ip\<close> and \<open>parse_net\<close> are the \<open>netaddr\<close> constructors; \<open>unquote\<close> is the
  percent decoding inside \<open>parse_qs\<close>. A reply is the value handed to \<open>json.dumps\<close>.
\<close>

subsection \<open>Lookup\<close>

record dns_answer =
  a_qname :: string
  a_qtype :: string
  a_content :: string
  a_ttl :: int
  a_scope :: int

definition shape_answer :: "int \<Rightarrow> dns_record \<Rightarrow> dns_answer" where
  "shape_answer scope r =
     \<lparr>a_qname = r_qname r, a_qtype = r_qtype r, a_content = r_content r, a_ttl = r_ttl r, a_scope = scope\<rparr>"

fun lookup_answers ::
    "dns_env \<Rightarrow> (string \<times> dns_record list) list \<Rightarrow> client_context \<Rightarrow> (string \<times> dns_record list) list
       \<Rightarrow> dns_answer list result" where
  "lookup_answers env all_records ctx [] = Inr []"
| "lookup_answers env all_records ctx ((qtype, chosen) # rest) =
     bind_result (scope_prefix env (list_at all_records qtype) ctx)
       (\<lambda>scope. bind_result (lookup_answers env all_records ctx rest)
          (\<lambda>answers. Inr (map (shape_answer scope) chosen @ answers)))"

definition get_lookup ::
    "dns_env \<Rightarrow> status_registry \<Rightarrow> dns_record list \<Rightarrow> client_context \<Rightarrow> rng \<Rightarrow> dns_answer list result" where
  "get_lookup env status records ctx r =
     (let all_records = group_by r_qtype records
      in case select_records env status all_records ctx r of
           (Inl e, _, _) \<Rightarrow> Inl e
         | (Inr selected, ctx', _) \<Rightarrow> lookup_answers env all_records ctx' selected)"

subsection \<open>The zone list\<close>

record domain_row =
  d_id :: int
  d_domain :: string
  d_soa_content :: string

record zone_entry =
  z_id :: int
  z_zone :: string
  z_serial :: int
  z_last_check :: int

definition soa_serial :: "string \<Rightarrow> int result" where
  "soa_serial content =
     (let fields = split_ws content
      in if length fields \<le> 2 then Inl IndexError else py_int_str (fields ! 2))"

fun zone_entries :: "(nat \<Rightarrow> int) \<Rightarrow> domain_row list \<Rightarrow> zone_entry list result" where
  "zone_entries now [] = Inr []"
| "zone_entries now (d # ds) =
     (case soa_serial (d_soa_content d) of
        Inl e \<Rightarrow> (case e of
                    IndexError \<Rightarrow> zone_entries now ds
                  | ValueError _ \<Rightarrow> zone_entries now ds
                  | _ \<Rightarrow> Inl e)
      | Inr serial \<Rightarrow>
          bind_result (zone_entries (\<lambda>i. now (Suc i)) ds)
            (\<lambda>zs. Inr (\<lparr>z_id = d_id d, z_zone = d_domain d @ ''.'', z_serial = serial, z_last_check = now 0\<rparr> # zs)))"

definition get_all_domains ::
    "(string \<Rightarrow> string) \<Rightarrow> (nat \<Rightarrow> int) \<Rightarrow> (bool \<Rightarrow> domain_row list result) \<Rightarrow> string \<Rightarrow> zone_entry list result" where
  "get_all_domains unquote now gslb_domains query =
     (let include_disabled = (map_of (parse_qs unquote query) ''includeDisabled'' = Some [''true''])
      in bind_result (gslb_domains include_disabled) (zone_entries now))"

subsection \<open>Dispatch\<close>

datatype dns_reply =
    LookupReply "dns_answer list"
  | DomainsReply "zone_entry list"
  | FalseReply

definition dns_content ::
    "(string \<Rightarrow> string \<Rightarrow> dns_answer list result) \<Rightarrow> zone_entry list result \<Rightarrow> string list \<Rightarrow> dns_reply result" where
  "dns_content lookup domains dirs =
     (if length dirs = 4 \<and> dirs ! 1 = ''lookup''
      then bind_result (lookup (dirs ! 2) (dirs ! 3)) (\<lambda>xs. Inr (LookupReply xs))
      else if length dirs = 2 \<and> dirs ! 1 = ''getAllDomains''
      then bind_result domains (\<lambda>zs. Inr (DomainsReply zs))
      else Inr FalseReply)"

text \<open>The JSON values of a reply.\<close>

definition answer_json :: "dns_answer \<Rightarrow> pyval" where
  "answer_json a = PDict
     [(KStr ''qname'', PStr (a_qname a)), (KStr ''qtype'', PStr (a_qtype a)),
      (KStr ''content'', PStr (a_content a)), (KStr ''ttl'', PInt (a_ttl a)),
      (KStr ''scopeMask'', PInt (a_scope a))]"

definition zone_json :: "zone_entry \<Rightarrow> pyval" where
  "zone_json z = PDict
     [(KStr ''id'', PInt (z_id z)), (KStr ''zone'', PStr (z_zone z)), (KStr ''kind'', PStr ''native''),
      (KStr ''serial'', PInt (z_serial z)), (KStr ''notified_serial'', PInt (z_serial z)),
      (KStr ''last_check'', PInt (z_last_check z)), (KStr ''masters'', PList [])]"

fun reply_json :: "dns_reply \<Rightarrow> pyval" where
  "reply_json (LookupReply xs) = PDict [(KStr ''result'', PList (map answer_json xs))]"
| "reply_json (DomainsReply zs) = PDict [(KStr ''result'', PList (map zone_json zs))]"
| "reply_json FalseReply = PDict [(KStr ''result'', PBool False)]"

subsection \<open>The client of a request\<close>

text \<open>The header value or the TCP peer, then the peer again when \<open>netaddr\<close> rejects it.\<close>

definition with_fallback :: "(string \<Rightarrow> 'a result) \<Rightarrow> string \<Rightarrow> string \<Rightarrow> 'a result" where
  "with_fallback parse text peer =
     (case parse text of
        Inl (AddrFormatError _) \<Rightarrow> parse peer
      | Inl (ValueError _) \<Rightarrow> parse peer
      | m \<Rightarrow> m)"

definition dns_set_remote_ip ::
    "(string \<Rightarrow> ip_address result) \<Rightarrow> (string \<Rightarrow> ip_network result) \<Rightarrow> (string \<Rightarrow> string option) \<Rightarrow> string
       \<Rightarrow> (ip_address \<times> client_context) result" where
  "dns_set_remote_ip parse_ip parse_net header client_ip =
     (let remote = (case header ''X-Remotebackend-Remote'' of None \<Rightarrow> client_ip | Some v \<Rightarrow> v);
          real_remote = (case header ''X-Remotebackend-Real-Remote'' of None \<Rightarrow> client_ip | Some v \<Rightarrow> v)
      in bind_result (with_fallback parse_ip remote client_ip)
           (\<lambda>remote_ip. bind_result (with_fallback parse_net real_remote client_ip)
              (\<lambda>net. Inr (remote_ip, client_context net))))"

end
