(* ===== verification/Demo_Env.thy ===== *)
theory Demo_Env
  imports PowerDNS_Select_Proofs
begin

section \<open>The environment of the witnesses\<close>

text \<open>
  Concrete parameters for the witnesses of the DNS side: two policy texts, three networks and a
  membership test by leading bits, records and clients.
\<close>


definition demo_contains :: "ip_address \<Rightarrow> ip_network \<Rightarrow> bool" where
  "demo_contains a net \<longleftrightarrow> ip_version a = net_version net \<and>
     leading_bits (nat (net_prefixlen net)) a = leading_bits (nat (net_prefixlen net)) (net_ip net)"

definition demo_env :: dns_env where
  "demo_env =
     \<lparr>e_loads = (\<lambda>s. if s = ''rr'' then Inr (PDict [(KStr ''type'', PStr ''round-robin'')])
                     else if s = ''sticky'' then Inr (PDict [(KStr ''type'', PStr ''sticky-hash'')])
                     else Inl (ValueError s)),
      e_digest = (\<lambda>bs. bs),
      e_parse_net = (\<lambda>s. if s = ''all4'' then Inr \<lparr>net_ip = IPv4 0, net_prefixlen = 0\<rparr>
                         else if s = ''all6'' then Inr \<lparr>net_ip = IPv6 0, net_prefixlen = 0\<rparr>
                         else if s = ''ten'' then Inr \<lparr>net_ip = IPv4 0x0A000000, net_prefixlen = 8\<rparr>
                         else Inl (AddrFormatError s)),
      e_contains = demo_contains,
      e_geoip = None\<rparr>"

definition demo_record :: "int \<Rightarrow> string \<Rightarrow> string \<Rightarrow> dns_record" where
  "demo_record i policy rule =
     \<lparr>r_qname = ''a.b'', r_qtype = ''A'', r_ttl = 60, r_policy_json = policy, r_weight = 1, r_id = i,
      r_content = str_int i, r_rule = rule\<rparr>"

definition demo_client :: "32 word \<Rightarrow> client_context" where
  "demo_client w = \<lparr>ctx_ip = IPv4 w, ctx_prefixlen = 32, ctx_geo = None\<rparr>"

lemma demo_env_ok [simp]: "env_ok demo_env a"
  by (simp add: env_ok_def demo_env_def parse_net_raises_def geo_lookup_ok_def)


lemma records_ok_short:
  assumes "\<And>c. c \<in> set cs \<Longrightarrow> 0 \<le> r_weight c \<and> length (r_content c) \<le> 255"
  shows "records_ok cs"
proof -
  have "length (utf8_encode (r_content c)) < 256 ^ 4" if "c \<in> set cs" for c
  proof -
    have "length (utf8_encode (r_content c)) \<le> 510"
      using assms [OF that] utf8_encode_length [of "r_content c"] by linarith
    also have "(510::nat) < 256 ^ 4" by simp
    finally show ?thesis .
  qed
  then show ?thesis using assms by (simp add: records_ok_def weights_nonneg_def content_ok_def)
qed

lemma demo_record_simps [simp]:
  "r_weight (demo_record i p v) = 1" "r_qtype (demo_record i p v) = ''A''" "r_id (demo_record i p v) = i"
  "r_policy_json (demo_record i p v) = p" "r_rule (demo_record i p v) = v"
  by (simp_all add: demo_record_def)

lemma demo_records_ok [simp]: "records_ok [demo_record 1 p v, demo_record 2 q w]"
  by (rule records_ok_short) (auto simp: demo_record_def str_int_def digits_of.simps)

end
