(* ===== verification/PowerDNS_Properties.thy ===== *)
theory PowerDNS_Properties
  imports PowerDNS_Handler Demo_Env
begin

section \<open>The correctness of a lookup\<close>

text \<open>
  Lemmas that lift the selection to \<open>get_lookup\<close>, and the properties of the DNS side with their
  witnesses, which run the pipeline on \<open>Demo_Env\<close>.
\<close>

subsection \<open>From groups to replies\<close>

lemma lookup_answers_eq:
  assumes "\<And>q ys. (q, ys) \<in> set sel \<Longrightarrow> scope_prefix env (list_at all_records q) ctx = Inr (sc q)"
  shows "lookup_answers env all_records ctx sel
    = Inr (concat (map (\<lambda>(q, ys). map (shape_answer (sc q)) ys) sel))"
  using assms
proof (induction sel)
  case (Cons g sel)
  obtain q ys where g: "g = (q, ys)" by (cases g)
  have "scope_prefix env (list_at all_records q) ctx = Inr (sc q)" using Cons.prems [of q ys] g by simp
  moreover have "lookup_answers env all_records ctx sel
      = Inr (concat (map (\<lambda>(q, ys). map (shape_answer (sc q)) ys) sel))"
    by (rule Cons.IH) (rule Cons.prems, erule list.set_intros(2))
  ultimately show ?case by (simp add: g)
qed simp

lemma scope_of_refines:
  assumes "ctx_refines geoip ctx ctx'"
  shows "scope_of env ctx' rrset p = scope_of env ctx rrset p"
proof -
  have "policy_network_prefix p ctx' = policy_network_prefix p ctx"
    using assms by (cases p) (simp_all add: sticky_network_prefix_def ctx_refines_simps)
  then show ?thesis using assms by (simp add: scope_of_def ctx_refines_simps split: option.split)
qed

definition group_of :: "dns_record list \<Rightarrow> string \<Rightarrow> dns_record list" where
  "group_of records q = filter (\<lambda>x. r_qtype x = q) records"

definition group_scope :: "dns_env \<Rightarrow> client_context \<Rightarrow> dns_record list \<Rightarrow> int" where
  "group_scope env ctx rrset =
     (case resolve_policy env (hd rrset) of Inl _ \<Rightarrow> 0 | Inr p \<Rightarrow> scope_of env ctx rrset p)"

lemma group_by_qtype:
  "(q, g) \<in> set (group_by r_qtype records) \<longleftrightarrow> q \<in> r_qtype ` set records \<and> g = group_of records q"
  by (simp add: group_by_mem group_of_def)

lemma list_at_qtype: "list_at (group_by r_qtype records) q = group_of records q"
  by (auto simp: map_of_group_by group_of_def filter_empty_conv eq_commute [of "[]"])

lemma get_lookup_eq:
  assumes "env_ok env (ctx_ip ctx)"
  shows "\<exists>rs. length rs = length (group_by r_qtype records) \<and>
    get_lookup env status records ctx r =
      Inr (concat (map (\<lambda>(q, ys). map (shape_answer (group_scope env ctx (group_of records q))) ys)
            (selection_of env status ctx (group_by r_qtype records) rs)))"
proof -
  let ?gs = "group_by r_qtype records"
  obtain rs ctx' r' where s: "length rs = length ?gs"
    "select_records env status ?gs ctx r = (Inr (selection_of env status ctx ?gs rs), ctx', r')"
    "ctx_refines (e_geoip env) ctx ctx'"
    using select_records_correct [OF assms] by blast
  have "lookup_answers env ?gs ctx' (selection_of env status ctx ?gs rs) =
      Inr (concat (map (\<lambda>(q, ys). map (shape_answer (group_scope env ctx (group_of records q))) ys)
            (selection_of env status ctx ?gs rs)))"
  proof (rule lookup_answers_eq)
    fix q ys assume "(q, ys) \<in> set (selection_of env status ctx ?gs rs)"
    from selection_of_mem [OF this] obtain g r0 where
      g: "(q, g) \<in> set ?gs" "answer_of env status ctx r0 g = Some ys" by blast
    from answer_of_SomeD [OF g(2)] obtain p where p: "resolve_policy env (hd g) = Inr p" by blast
    have "g = group_of records q" using g(1) by (simp add: group_by_qtype)
    moreover have "scope_prefix env g ctx' = Inr (scope_of env ctx g p)"
      using scope_prefix_eq [OF _ p] scope_of_refines [OF s(3)] assms by (simp add: env_ok_def)
    ultimately show "scope_prefix env (list_at ?gs q) ctx' = Inr (group_scope env ctx (group_of records q))"
      using p by (simp add: list_at_qtype group_scope_def)
  qed
  then show ?thesis using s(1,2) by (auto simp: get_lookup_def Let_def)
qed

lemma get_lookup_mem:
  assumes "env_ok env (ctx_ip ctx)" "get_lookup env status records ctx r = Inr answers" "a \<in> set answers"
  shows "\<exists>q r0 ys y. q \<in> r_qtype ` set records \<and> answer_of env status ctx r0 (group_of records q) = Some ys
    \<and> y \<in> set ys \<and> a = shape_answer (group_scope env ctx (group_of records q)) y"
proof -
  from get_lookup_eq [OF assms(1), of records status r] assms(2,3) obtain rs q ys y where
    m: "(q, ys) \<in> set (selection_of env status ctx (group_by r_qtype records) rs)" "y \<in> set ys"
    "a = shape_answer (group_scope env ctx (group_of records q)) y"
    by auto
  from selection_of_mem [OF m(1)] m(2,3) show ?thesis by (auto simp: group_by_qtype)
qed

lemma selection_of_complete:
  assumes "(q, g) \<in> set gs" "length rs = length gs" "\<And>r. answer_of env status ctx r g \<noteq> None"
  shows "\<exists>r ys. (q, ys) \<in> set (selection_of env status ctx gs rs) \<and> answer_of env status ctx r g = Some ys"
proof -
  from assms(1,2) obtain r where r: "((q, g), r) \<in> set (zip gs rs)"
    by (metis in_set_impl_in_set_zip1)
  obtain ys where "answer_of env status ctx r g = Some ys" using assms(3) [of r] by auto
  with r show ?thesis by (force simp: selection_of_def List.map_filter_def)
qed

lemma records_ok_group: "records_ok records \<Longrightarrow> records_ok (group_of records q)"
  by (rule records_ok_subset) (auto simp: group_of_def)

text \<open>The order of precedence, over one record set.\<close>

definition precedes_correctly ::
    "dns_env \<Rightarrow> status_registry \<Rightarrow> client_context \<Rightarrow> dns_record list \<Rightarrow> dns_record \<Rightarrow> bool" where
  "precedes_correctly env status ctx rrset y \<longleftrightarrow>
     (let up = (\<lambda>x. \<not> registry_is_down (r_id x) status);
          seen = filter (admits env ctx) rrset;
          specific = filter (\<lambda>x. \<not> is_catch_all env x) seen
      in (is_catch_all env y \<and> up y \<longrightarrow> \<not> list_ex up specific)
       \<and> (\<not> up y \<longrightarrow> \<not> list_ex up seen)
       \<and> (is_catch_all env y \<and> \<not> up y \<longrightarrow> specific = []))"

lemma candidates_precede:
  assumes "y \<in> set (candidates_of env status ctx rrset)"
  shows "precedes_correctly env status ctx rrset y"
proof -
  let ?seen = "in_view_of env ctx rrset" and ?up = "\<lambda>x. \<not> registry_is_down (r_id x) status"
  let ?sp = "filter (\<lambda>x. \<not> is_catch_all env x) ?seen" and ?ca = "filter (is_catch_all env) ?seen"
  have live: "live status xs = [] \<longleftrightarrow> \<not> list_ex ?up xs" for xs
    by (simp add: live_def filter_empty_conv list_ex_iff)
  note c = choose_candidates_cases [OF assms [unfolded candidates_of_def]]
  have one: "live status [y] = [] \<longleftrightarrow> \<not> ?up y" by (simp add: live)
  have split: "list_ex ?up ?seen \<longleftrightarrow> list_ex ?up ?sp \<or> list_ex ?up ?ca"
    by (auto simp: list_ex_iff)
  have sp: "is_catch_all env y \<Longrightarrow> y \<notin> set ?sp" by simp
  from c one sp live split show ?thesis
    unfolding precedes_correctly_def Let_def in_view_of_def [symmetric] by blast
qed

text \<open>Every answer comes from a candidate of its type.\<close>

lemma get_lookup_source:
  assumes "env_ok env (ctx_ip ctx)" and "records_ok records"
    and "get_lookup env status records ctx r = Inr answers" and "a \<in> set answers"
  shows "\<exists>y \<in> set records. a = shape_answer (a_scope a) y \<and> r_qtype y = a_qtype a \<and> admits env ctx y
    \<and> y \<in> set (candidates_of env status ctx (group_of records (a_qtype a)))"
proof -
  from get_lookup_mem [OF assms(1,3,4)] obtain q r0 ys y where
    y: "answer_of env status ctx r0 (group_of records q) = Some ys" "y \<in> set ys"
    "a = shape_answer (group_scope env ctx (group_of records q)) y" by blast
  have c: "y \<in> set (candidates_of env status ctx (group_of records q))"
    using answer_of_answers(1) [OF y(1) records_ok_group [OF assms(2)]] y(2) by blast
  then have "y \<in> set (in_view_of env ctx (group_of records q))" using candidates_of_subset by blast
  then have m: "y \<in> set records" "r_qtype y = q" "admits env ctx y"
    by (auto simp: in_view_of_def group_of_def)
  moreover have "a_qtype a = q" using m(2) by (simp add: y(3) shape_answer_def)
  moreover have "a = shape_answer (a_scope a) y" by (simp add: y(3) shape_answer_def)
  ultimately show ?thesis using c by auto
qed

subsection \<open>Properties\<close>

text \<open>
  C5: a lookup never raises, whatever the records hold (malformed rules and policies included), when
  the address parser raises only what it documents and the GeoIP reader answers for the client.
\<close>

theorem get_lookup_returns:
  assumes "env_ok env (ctx_ip ctx)"
  shows "returns (get_lookup env status records ctx r)"
  using get_lookup_eq [OF assms, of records status r] by (auto simp: returns_iff)

theorem get_lookup_returns_witness:
  "returns (get_lookup demo_env {1} [demo_record 1 ''bad'' ''ten'', demo_record 2 ''rr'' ''worse'']
     (demo_client 0x0A000001) (\<lambda>_. 0))"
  by (rule get_lookup_returns) simp

text \<open>
  C1: every answer comes from a record of the queried name whose view admits the client, and respects
  the order of precedence: live specific, live catch-all, down specific, down catch-all.
\<close>

theorem get_lookup_sound:
  assumes "env_ok env (ctx_ip ctx)" and "records_ok records"
    and "get_lookup env status records ctx r = Inr answers" and "a \<in> set answers"
  shows "\<exists>y \<in> set records. a = shape_answer (a_scope a) y \<and> admits env ctx y
    \<and> precedes_correctly env status ctx (group_of records (r_qtype y)) y"
proof -
  from get_lookup_source [OF assms] obtain y where
    y: "y \<in> set records" "a = shape_answer (a_scope a) y" "r_qtype y = a_qtype a" "admits env ctx y"
    "y \<in> set (candidates_of env status ctx (group_of records (a_qtype a)))" by blast
  with candidates_precede [OF y(5)] show ?thesis by (intro bexI [OF _ y(1)]) simp
qed

theorem get_lookup_sound_witness:
  "\<exists>y \<in> set [demo_record 1 ''rr'' ''all4 all6'', demo_record 2 ''rr'' ''ten''].
     shape_answer 32 (demo_record 2 ''rr'' ''ten'') = shape_answer (a_scope (shape_answer 32 (demo_record 2 ''rr'' ''ten''))) y
     \<and> admits demo_env (demo_client 0x0A000001) y
     \<and> precedes_correctly demo_env {} (demo_client 0x0A000001)
         (group_of [demo_record 1 ''rr'' ''all4 all6'', demo_record 2 ''rr'' ''ten''] (r_qtype y)) y"
proof (rule get_lookup_sound)
  show "get_lookup demo_env {} [demo_record 1 ''rr'' ''all4 all6'', demo_record 2 ''rr'' ''ten'']
      (demo_client 0x0A000001) (\<lambda>_. 0) = Inr [shape_answer 32 (demo_record 2 ''rr'' ''ten'')]"
    by code_simp
qed simp_all

lemma lookup_answered_iff:
  assumes "env_ok env (ctx_ip ctx)" and "records_ok records"
    and "get_lookup env status records ctx r = Inr answers"
  shows "(\<exists>a \<in> set answers. a_qtype a = q) \<longleftrightarrow>
    (\<exists>y \<in> set records. r_qtype y = q \<and> admits env ctx y) \<and> returns (resolve_policy env (hd (group_of records q)))"
    (is "?answered \<longleftrightarrow> ?seen \<and> ?pol")
proof
  assume ?answered
  then obtain a where a: "a \<in> set answers" "a_qtype a = q" by blast
  from get_lookup_mem [OF assms(1,3) a(1)] obtain q' r0 ys y where
    y: "answer_of env status ctx r0 (group_of records q') = Some ys" "y \<in> set ys"
    "a = shape_answer (group_scope env ctx (group_of records q')) y" by blast
  have v: "y \<in> set (in_view_of env ctx (group_of records q'))"
    using answer_of_answers(1) [OF y(1) records_ok_group [OF assms(2)]] y(2) candidates_of_subset by blast
  then have "q' = q" using a(2) y(3) by (auto simp: in_view_of_def group_of_def shape_answer_def)
  with v y(1) show "?seen \<and> ?pol"
    by (auto simp: in_view_of_def group_of_def returns_iff elim: answer_of_SomeD)
next
  assume "?seen \<and> ?pol"
  then obtain y where y: "y \<in> set records" "r_qtype y = q" "admits env ctx y" and pol: ?pol by blast
  have ok: "records_ok (group_of records q)" by (rule records_ok_group [OF assms(2)])
  have "y \<in> set (in_view_of env ctx (group_of records q))" using y by (simp add: in_view_of_def group_of_def)
  then have some: "answer_of env status ctx r0 (group_of records q) \<noteq> None" for r0
    using pol by (auto simp: answer_of_None [OF ok])
  have g: "(q, group_of records q) \<in> set (group_by r_qtype records)" using y by (auto simp: group_by_qtype)
  obtain rs where rs: "length rs = length (group_by r_qtype records)"
    "answers = concat (map (\<lambda>(q, ys). map (shape_answer (group_scope env ctx (group_of records q))) ys)
        (selection_of env status ctx (group_by r_qtype records) rs))"
    using get_lookup_eq [OF assms(1), of records status r] assms(3) by auto
  obtain r0 ys where ys: "(q, ys) \<in> set (selection_of env status ctx (group_by r_qtype records) rs)"
    "answer_of env status ctx r0 (group_of records q) = Some ys"
    using selection_of_complete [OF g rs(1) some] by blast
  obtain z where z: "z \<in> set ys" using answer_of_answers(2) [OF ys(2) ok] by (cases ys) auto
  have "z \<in> set (group_of records q)"
    using answer_of_answers(1) [OF ys(2) ok] z candidates_of_subset in_view_of_subset by blast
  then have "r_qtype z = q" by (simp add: group_of_def)
  moreover have "shape_answer (group_scope env ctx (group_of records q)) z \<in> set answers"
    using ys(1) z by (auto simp: rs(2))
  ultimately show ?answered by (metis dns_answer.select_convs(2) shape_answer_def)
qed

text \<open>
  C14: a query type is answered exactly when some record of it is in the client's view and the policy
  of its record set compiles; health never empties an answer (all down is all up).
\<close>

theorem get_lookup_answers_iff:
  assumes "env_ok env (ctx_ip ctx)" and "records_ok records"
    and "get_lookup env status records ctx r = Inr answers"
  shows "(\<exists>a \<in> set answers. a_qtype a = q) \<longleftrightarrow>
    (\<exists>y \<in> set records. r_qtype y = q \<and> admits env ctx y) \<and> returns (resolve_policy env (hd (group_of records q)))"
  by (rule lookup_answered_iff [OF assms])

theorem get_lookup_answers_iff_witness:
  "(\<exists>a \<in> set [shape_answer 32 (demo_record 2 ''rr'' ''ten'')]. a_qtype a = ''A'') \<longleftrightarrow>
    (\<exists>y \<in> set [demo_record 1 ''rr'' ''all4 all6'', demo_record 2 ''rr'' ''ten''].
        r_qtype y = ''A'' \<and> admits demo_env (demo_client 0x0A000001) y) \<and>
    returns (resolve_policy demo_env
      (hd (group_of [demo_record 1 ''rr'' ''all4 all6'', demo_record 2 ''rr'' ''ten''] ''A'')))"
proof (rule get_lookup_answers_iff)
  show "get_lookup demo_env {1, 2} [demo_record 1 ''rr'' ''all4 all6'', demo_record 2 ''rr'' ''ten'']
      (demo_client 0x0A000001) (\<lambda>_. 0) = Inr [shape_answer 32 (demo_record 2 ''rr'' ''ten'')]"
    by code_simp
qed simp_all

text \<open>
  C32: the scope of an answer stays within the client's source prefix; authority types get scope 0, and
  a record set with a view that does not match everybody gets the source prefix.
\<close>

theorem get_lookup_scope:
  assumes "env_ok env (ctx_ip ctx)" and "0 \<le> ctx_prefixlen ctx" and "records_ok records"
    and "get_lookup env status records ctx r = Inr answers" and "a \<in> set answers"
  shows "0 \<le> a_scope a \<and> a_scope a \<le> ctx_prefixlen ctx
    \<and> (a_qtype a \<in> {''SOA'', ''NS'', ''DS''} \<longrightarrow> a_scope a = 0)
    \<and> (a_qtype a \<notin> {''SOA'', ''NS'', ''DS''} \<and> (\<exists>y \<in> set records. r_qtype y = a_qtype a \<and> \<not> is_catch_all env y)
        \<longrightarrow> a_scope a = ctx_prefixlen ctx)"
proof -
  from get_lookup_mem [OF assms(1,4,5)] obtain q r0 ys y where
    y: "q \<in> r_qtype ` set records" "answer_of env status ctx r0 (group_of records q) = Some ys" "y \<in> set ys"
    "a = shape_answer (group_scope env ctx (group_of records q)) y" by blast
  let ?g = "group_of records q"
  have ne: "?g \<noteq> []" "r_qtype (hd ?g) = q" using y(1) hd_in_set [of ?g]
    by (auto simp: group_of_def filter_empty_conv)
  have "y \<in> set ?g"
    using answer_of_answers(1) [OF y(2) records_ok_group [OF assms(3)]] y(3)
      candidates_of_subset in_view_of_subset by blast
  then have q: "a_qtype a = q" by (simp add: y(4) shape_answer_def group_of_def)
  obtain p where p: "resolve_policy env (hd ?g) = Inr p" "policy_wf p"
    using answer_of_SomeD [OF y(2)] by blast
  have s: "a_scope a = scope_of env ctx ?g p" by (simp add: y(4) shape_answer_def group_scope_def p(1))
  show ?thesis using scope_of_bounds [OF p(2) assms(2), of env ?g] ne q s
    by (auto simp: scope_of_def authority_qtypes_def group_of_def split: if_splits)
qed

theorem get_lookup_scope_witness:
  "a_scope (shape_answer 32 (demo_record 2 ''rr'' ''ten'')) = ctx_prefixlen (demo_client 0x0A000001)"
proof -
  have r: "get_lookup demo_env {} [demo_record 1 ''rr'' ''all4 all6'', demo_record 2 ''rr'' ''ten'']
      (demo_client 0x0A000001) (\<lambda>_. 0) = Inr [shape_answer 32 (demo_record 2 ''rr'' ''ten'')]"
    by code_simp
  have "a_qtype (shape_answer 32 (demo_record 2 ''rr'' ''ten'')) \<notin> {''SOA'', ''NS'', ''DS''}"
    and "r_qtype (demo_record 2 ''rr'' ''ten'') = a_qtype (shape_answer 32 (demo_record 2 ''rr'' ''ten''))"
    and "\<not> is_catch_all demo_env (demo_record 2 ''rr'' ''ten'')"
    by code_simp+
  with get_lookup_scope [OF _ _ _ r] show ?thesis by (simp add: demo_client_def)
qed




lemma soa_serial_errors: "soa_serial s = Inl e \<Longrightarrow> e = IndexError \<or> (\<exists>m. e = ValueError m)"
  by (auto simp: soa_serial_def Let_def py_int_str_def split: if_splits option.splits)

text \<open>
  The zone list never fails on SOA contents. It has one entry, in order, for each domain whose SOA
  content has an integer as third field, with the domain's id, its name with a final dot and that serial.
\<close>

theorem get_all_domains_entries:
  assumes "gslb_domains (map_of (parse_qs unquote query) ''includeDisabled'' = Some [''true'']) = Inr ds"
  shows "\<exists>zs. get_all_domains unquote now gslb_domains query = Inr zs \<and>
    map (\<lambda>z. (z_id z, z_zone z, z_serial z)) zs =
      List.map_filter (\<lambda>d. case soa_serial (d_soa_content d) of
          Inl _ \<Rightarrow> None | Inr n \<Rightarrow> Some (d_id d, d_domain d @ ''.'', n)) ds"
proof -
  have "\<exists>zs. zone_entries now ds = Inr zs \<and>
    map (\<lambda>z. (z_id z, z_zone z, z_serial z)) zs =
      List.map_filter (\<lambda>d. case soa_serial (d_soa_content d) of
          Inl _ \<Rightarrow> None | Inr n \<Rightarrow> Some (d_id d, d_domain d @ ''.'', n)) ds" for now
  proof (induction ds arbitrary: now)
    case (Cons d ds)
    show ?case
    proof (cases "soa_serial (d_soa_content d)")
      case (Inl e)
      with soa_serial_errors [OF Inl] Cons.IH [of now] show ?thesis by (auto simp: map_filter_simps)
    next
      case (Inr n)
      with Cons.IH [of "\<lambda>i. now (Suc i)"] show ?thesis by (auto simp: map_filter_simps)
    qed
  qed (simp add: map_filter_simps)
  with assms show ?thesis by (simp add: get_all_domains_def Let_def)
qed

theorem get_all_domains_entries_witness:
  "\<exists>zs. get_all_domains (\<lambda>s. s) (\<lambda>_. 9) (\<lambda>b. Inr (if b then [\<lparr>d_id = 1, d_domain = ''a'', d_soa_content = ''n h 7 1''\<rparr>] else [])) ''x=1&includeDisabled=true'' = Inr zs \<and>
    map (\<lambda>z. (z_id z, z_zone z, z_serial z)) zs =
      List.map_filter (\<lambda>d. case soa_serial (d_soa_content d) of
          Inl _ \<Rightarrow> None | Inr n \<Rightarrow> Some (d_id d, d_domain d @ ''.'', n))
        [\<lparr>d_id = 1, d_domain = ''a'', d_soa_content = ''n h 7 1''\<rparr>]"
proof (rule get_all_domains_entries)
  have "map_of (parse_qs (\<lambda>s. s) ''x=1&includeDisabled=true'') ''includeDisabled'' = Some [''true'']" by code_simp
  then show "(\<lambda>b. Inr (if b then [\<lparr>d_id = 1, d_domain = ''a'', d_soa_content = ''n h 7 1''\<rparr>] else []))
      (map_of (parse_qs (\<lambda>s. s) ''x=1&includeDisabled=true'') ''includeDisabled'' = Some [''true'']) =
    Inr [\<lparr>d_id = 1, d_domain = ''a'', d_soa_content = ''n h 7 1''\<rparr>]"
    by simp
qed

lemma with_fallback_correct:
  assumes "parse_net_raises parse" "parse peer = Inr y"
  shows "with_fallback parse (case h of None \<Rightarrow> peer | Some v \<Rightarrow> v) peer =
    Inr (case Option.bind h (\<lambda>h. case parse h of Inl _ \<Rightarrow> None | Inr x \<Rightarrow> Some x) of None \<Rightarrow> y | Some x \<Rightarrow> x)"
proof (cases h)
  case None
  with assms(2) show ?thesis by (simp add: with_fallback_def)
next
  case (Some v)
  show ?thesis
  proof (cases "parse v")
    case (Inl e)
    with assms(1) obtain m where "e = AddrFormatError m \<or> e = ValueError m"
      unfolding parse_net_raises_def by blast
    with Some Inl assms(2) show ?thesis by (auto simp: with_fallback_def)
  next
    case (Inr x)
    with Some show ?thesis by (simp add: with_fallback_def)
  qed
qed

text \<open>
  The headers of the remote backend never make a request fail. When the address and network parsers
  raise only what they document and accept the TCP peer, a valid header is used, a missing or malformed
  one is replaced by the peer, and the client's geo starts unresolved.
\<close>

theorem dns_set_remote_ip_fallback:
  assumes "parse_net_raises parse_ip" and "parse_net_raises parse_net"
    and "parse_ip peer = Inr a" and "parse_net peer = Inr n"
  shows "dns_set_remote_ip parse_ip parse_net header peer =
    Inr ((case Option.bind (header ''X-Remotebackend-Remote'') (\<lambda>h. case parse_ip h of Inl _ \<Rightarrow> None | Inr x \<Rightarrow> Some x)
            of None \<Rightarrow> a | Some x \<Rightarrow> x),
         client_context
           (case Option.bind (header ''X-Remotebackend-Real-Remote'') (\<lambda>h. case parse_net h of Inl _ \<Rightarrow> None | Inr x \<Rightarrow> Some x)
              of None \<Rightarrow> n | Some x \<Rightarrow> x))"
  by (simp add: dns_set_remote_ip_def Let_def with_fallback_correct assms)

theorem dns_set_remote_ip_fallback_witness:
  "dns_set_remote_ip (\<lambda>s. if s = ''p'' then Inr (IPv4 1) else Inl (ValueError s))
     (\<lambda>s. if s = ''p'' then Inr \<lparr>net_ip = IPv4 1, net_prefixlen = 32\<rparr> else Inl (AddrFormatError s))
     [''X-Remotebackend-Remote'' \<mapsto> ''junk''] ''p'' = Inr (IPv4 1, demo_client 1)"
  by (subst dns_set_remote_ip_fallback [where a = "IPv4 1" and n = "\<lparr>net_ip = IPv4 1, net_prefixlen = 32\<rparr>"])
     (simp_all add: parse_net_raises_def client_context_def demo_client_def)

end
