(* ===== verification/Sql.thy ===== *)
theory Sql
  imports Py_Strings
begin

section \<open>SQL statements and their execution\<close>

text \<open>
  What the table layer and the DNS queries share: a statement is its text with \<open>%s\<close> placeholders and
  its bound values; an \<open>executor\<close> is the contract of \<open>Selector\<close> and \<open>Executor\<close> in
  \<open>database/mysql/tables.py\<close>, over a state that stands for the connection and the server. A computation
  over it returns a value or raises, with the new state. A multi-line statement of the source is
  \<open>sql_block\<close> of its lines without their indentation, which \<open>join_operation\<close> drops anyway.
\<close>

subsection \<open>Bound values\<close>

text \<open>\<open>Masked(value)\<close> of \<open>database/mysql/masked.py\<close>; a date is its proleptic ordinal.\<close>

datatype sql_param = SqlValue pyval | SqlMasked pyval | SqlDate int

definition mask :: string where
  "mask = ''*****''"

text \<open>\<open>repr\<close> of a bound value, given that of the others.\<close>

definition param_repr :: "(sql_param \<Rightarrow> string) \<Rightarrow> sql_param \<Rightarrow> string" where
  "param_repr rep p = (case p of SqlMasked _ \<Rightarrow> rep (SqlValue (PStr mask)) | _ \<Rightarrow> rep p)"

definition unwrap_params :: "sql_param list \<Rightarrow> sql_param list" where
  "unwrap_params params = map (\<lambda>p. case p of SqlMasked v \<Rightarrow> SqlValue v | _ \<Rightarrow> p) params"

subsection \<open>Statement texts\<close>

definition newline :: char where
  "newline = CHR 0x0A"

definition sql_block :: "string list \<Rightarrow> string" where
  "sql_block lines = newline # join [newline] lines @ [newline]"

text \<open>\<open>str.splitlines\<close> on code points below 256; carriage return and line feed are one break.\<close>

definition is_linebreak :: "char \<Rightarrow> bool" where
  "is_linebreak c \<longleftrightarrow> (10 \<le> code c \<and> code c \<le> 13) \<or> (28 \<le> code c \<and> code c \<le> 30) \<or> code c = 133"

fun splitlines_aux :: "string \<Rightarrow> string \<Rightarrow> string list" where
  "splitlines_aux w [] = (if w = [] then [] else [rev w])"
| "splitlines_aux w [x] = (if is_linebreak x then [rev w] else [rev (x # w)])"
| "splitlines_aux w (x # y # xs) =
     (if code x = 13 \<and> code y = 10 then rev w # splitlines_aux [] xs
      else if is_linebreak x then rev w # splitlines_aux [] (y # xs)
      else splitlines_aux (x # w) (y # xs))"

definition splitlines :: "string \<Rightarrow> string list" where
  "splitlines s = splitlines_aux [] s"

definition join_operation :: "string \<Rightarrow> string" where
  "join_operation operation =
     join '' '' (filter (\<lambda>l. l \<noteq> []) (map strip (splitlines operation)))"

text \<open>The number of \<open>%s\<close> placeholders.\<close>

fun placeholders :: "string \<Rightarrow> nat" where
  "placeholders [] = 0"
| "placeholders [c] = 0"
| "placeholders (c # d # cs) =
     (if c = CHR ''%'' \<and> d = CHR ''s'' then Suc (placeholders cs) else placeholders (d # cs))"

definition no_percent :: "string \<Rightarrow> bool" where
  "no_percent s \<longleftrightarrow> CHR ''%'' \<notin> set s"

lemma placeholders_Cons: "c \<noteq> CHR ''%'' \<Longrightarrow> placeholders (c # s) = placeholders s"
  by (cases s) simp_all

lemma placeholders_no_percent: "no_percent s \<Longrightarrow> placeholders (s @ t) = placeholders t"
proof (induction s)
  case (Cons c s)
  then have "c \<noteq> CHR ''%''" by (auto simp: no_percent_def)
  with Cons show ?case by (simp add: no_percent_def placeholders_Cons)
qed simp

lemma placeholders_nil: "no_percent s \<Longrightarrow> placeholders s = 0"
  using placeholders_no_percent [of s "[]"] by simp

lemma placeholders_mark [simp]: "placeholders (CHR ''%'' # CHR ''s'' # s) = Suc (placeholders s)"
  by simp

text \<open>A text that does not end in a percent sign can be followed by anything.\<close>

lemma placeholders_append:
  "a = [] \<or> last a \<noteq> CHR ''%'' \<Longrightarrow> placeholders (a @ b) = placeholders a + placeholders b"
proof (induction a rule: placeholders.induct)
  case (2 c)
  then show ?case by (simp add: placeholders_Cons)
next
  case (3 c d cs)
  show ?case
  proof (cases "c = CHR ''%'' \<and> d = CHR ''s''")
    case True
    with 3 show ?thesis by (cases "cs = []") simp_all
  next
    case False
    with 3 show ?thesis by auto
  qed
qed simp

lemma no_percent_simps [simp]:
  "no_percent []" "no_percent (c # s) \<longleftrightarrow> c \<noteq> CHR ''%'' \<and> no_percent s"
  "no_percent (s @ t) \<longleftrightarrow> no_percent s \<and> no_percent t"
  by (auto simp: no_percent_def)

lemma no_percent_join: "no_percent sep \<Longrightarrow> list_all no_percent ws \<Longrightarrow> no_percent (join sep ws)"
  by (induction sep ws rule: join.induct) auto

text \<open>\<open>', '.join(['%s'] * n)\<close>.\<close>

definition marks :: "nat \<Rightarrow> string" where
  "marks n = join '', '' (replicate n ''%s'')"

lemma placeholders_join_marks:
  "\<forall>w \<in> set ws. w \<noteq> [] \<and> last w \<noteq> CHR ''%'' \<Longrightarrow> no_percent sep \<Longrightarrow>
     placeholders (join sep ws) = sum_list (map placeholders ws)"
proof (induction sep ws rule: join.induct)
  case (3 sep w v ws)
  have "placeholders (w @ sep @ join sep (v # ws)) = placeholders w + placeholders (sep @ join sep (v # ws))"
    using 3 by (intro placeholders_append) auto
  with 3 show ?case by (simp add: placeholders_no_percent)
qed simp_all

lemma placeholders_marks [simp]: "placeholders (marks n) = n"
  by (simp add: marks_def placeholders_join_marks sum_list_replicate)

lemma last_join: "ws \<noteq> [] \<Longrightarrow> last ws \<noteq> [] \<Longrightarrow> join sep ws \<noteq> [] \<and> last (join sep ws) = last (last ws)"
  by (induction sep ws rule: join.induct) auto

lemma last_marks: "marks n = [] \<or> last (marks n) \<noteq> CHR ''%''"
proof (cases n)
  case (Suc k)
  have "last (replicate (Suc k) ''%s'') = ''%s''" by (rule last_replicate [THEN trans]) simp_all
  with last_join [of "replicate (Suc k) ''%s''" "'', ''"] show ?thesis by (simp add: marks_def Suc)
qed (simp add: marks_def)

lemma placeholders_marks_append [simp]: "placeholders (marks n @ s) = n + placeholders s"
  using placeholders_append [OF last_marks] by simp

subsection \<open>Computations over an executor\<close>

type_synonym row = "(string \<times> pyval) list"
type_synonym ('s, 'a) db = "'s \<Rightarrow> 'a result \<times> 's"

record 's executor =
  ex_select :: "string \<Rightarrow> sql_param list \<Rightarrow> ('s, row list) db"
  ex_modify :: "string \<Rightarrow> sql_param list \<Rightarrow> ('s, int) db"
  ex_last_insert_id :: "'s \<Rightarrow> int"

definition db_return :: "'a \<Rightarrow> ('s, 'a) db" where
  "db_return x = (\<lambda>s. (Inr x, s))"

definition db_raise :: "py_error \<Rightarrow> ('s, 'a) db" where
  "db_raise e = (\<lambda>s. (Inl e, s))"

definition db_bind :: "('s, 'a) db \<Rightarrow> ('a \<Rightarrow> ('s, 'b) db) \<Rightarrow> ('s, 'b) db" where
  "db_bind m f = (\<lambda>s. case m s of (Inl e, s') \<Rightarrow> (Inl e, s') | (Inr x, s') \<Rightarrow> f x s')"

definition db_lift :: "'a result \<Rightarrow> ('s, 'a) db" where
  "db_lift r = (\<lambda>s. (r, s))"

lemma db_simps [simp]:
  "db_return x s = (Inr x, s)" "db_raise e s = (Inl e, s)" "db_lift r s = (r, s)"
  by (simp_all add: db_return_def db_raise_def db_lift_def)

lemma db_bind_Inr_iff:
  "db_bind m f s = (Inr y, s'') \<longleftrightarrow> (\<exists>x s'. m s = (Inr x, s') \<and> f x s' = (Inr y, s''))"
  by (auto simp: db_bind_def split: prod.split sum.split)

text \<open>\<open>row[key]\<close>.\<close>

definition row_item :: "row \<Rightarrow> string \<Rightarrow> pyval result" where
  "row_item r key = (case map_of r key of None \<Rightarrow> Inl (KeyError key) | Some v \<Rightarrow> Inr v)"

subsection \<open>Guarded executors\<close>

text \<open>
  An executor whose state keeps an invariant under every statement that satisfies \<open>allowed\<close>; a
  computation is safe when it keeps the invariant of every such executor, so when it issues only
  allowed statements.
\<close>

locale guarded =
  fixes ex :: "'s executor" and allowed :: "string \<Rightarrow> sql_param list \<Rightarrow> bool" and inv :: "'s \<Rightarrow> bool"
  assumes select_inv: "allowed sql ps \<Longrightarrow> inv s \<Longrightarrow> inv (snd (ex_select ex sql ps s))"
    and modify_inv: "allowed sql ps \<Longrightarrow> inv s \<Longrightarrow> inv (snd (ex_modify ex sql ps s))"
begin

definition safe :: "('s, 'a) db \<Rightarrow> bool" where
  "safe m \<longleftrightarrow> (\<forall>s. inv s \<longrightarrow> inv (snd (m s)))"

lemma safe_return [intro, simp]: "safe (db_return x)" "safe (db_raise e)" "safe (db_lift r)"
  by (simp_all add: safe_def)

lemma safe_bind [intro]: "safe m \<Longrightarrow> (\<And>x. safe (f x)) \<Longrightarrow> safe (db_bind m f)"
  by (force simp: safe_def db_bind_def split: prod.split sum.split)

lemma safe_select [intro]: "allowed sql ps \<Longrightarrow> safe (ex_select ex sql ps)"
  by (simp add: safe_def select_inv)

lemma safe_modify [intro]: "allowed sql ps \<Longrightarrow> safe (ex_modify ex sql ps)"
  by (simp add: safe_def modify_inv)

end

text \<open>An executor that records what it is given; \<open>reply\<close> stands for the server.\<close>

type_synonym statement = "string \<times> sql_param list"

record server =
  sv_rows :: "statement list \<Rightarrow> row list result"
  sv_count :: "statement list \<Rightarrow> int result"
  sv_last_id :: "statement list \<Rightarrow> int"

definition recorder :: "server \<Rightarrow> (statement list) executor" where
  "recorder sv =
     \<lparr>ex_select = (\<lambda>sql ps log. (sv_rows sv (log @ [(sql, ps)]), log @ [(sql, ps)])),
      ex_modify = (\<lambda>sql ps log. (sv_count sv (log @ [(sql, ps)]), log @ [(sql, ps)])),
      ex_last_insert_id = sv_last_id sv\<rparr>"

definition all_allowed :: "(string \<Rightarrow> sql_param list \<Rightarrow> bool) \<Rightarrow> statement list \<Rightarrow> bool" where
  "all_allowed allowed log \<longleftrightarrow> list_all (\<lambda>(sql, ps). allowed sql ps) log"

interpretation recorded: guarded "recorder sv" allowed "all_allowed allowed" for sv allowed
  by unfold_locales (simp_all add: recorder_def all_allowed_def)

end
