(* ===== verification/Request_Handler.thy ===== *)
theory Request_Handler
  imports Sql
begin

section \<open>Requests and connections\<close>

text \<open>
  \<open>server/http/handler/request.py\<close>: what the DNS and the admin handler share. \<open>'r\<close> is what a role
  answers. The URL splitter, \<open>unquote\<close>, and \<open>handle_one_request\<close> with the sockets below it are parameters;
  the bytes of the connection are a list.
\<close>

subsection \<open>Bodies\<close>

definition max_body_size :: int where
  "max_body_size = 1048576"

definition body_invalid :: "string \<Rightarrow> py_error" where
  "body_invalid text = ValueError (CHR 0x27 # ''Content-Length'' @ CHR 0x27 # '' header invalid: '' @ CHR 0x27 # text @ [CHR 0x27])"

text \<open>The body and the bytes left on the connection; \<open>read\<close> returns less only at the end of the stream.\<close>

definition read_request_body :: "string option \<Rightarrow> nat list \<Rightarrow> (nat list \<times> nat list) result" where
  "read_request_body header stream =
     (case (case header of None \<Rightarrow> Inr 0 | Some h \<Rightarrow> py_int_str h) of
        Inl (ValueError _) \<Rightarrow> Inl (body_invalid (case header of None \<Rightarrow> ''0'' | Some h \<Rightarrow> h))
      | Inl e \<Rightarrow> Inl e
      | Inr n \<Rightarrow> if 0 \<le> n \<and> n \<le> max_body_size then Inr (take (nat n) stream, drop (nat n) stream)
                 else Inl (body_invalid (str_int n)))"

subsection \<open>Dispatch\<close>

record 'r role =
  ro_route :: string
  ro_urlsplit :: "string \<Rightarrow> (string \<times> string) result"
  ro_unquote :: "string \<Rightarrow> string"
  ro_set_remote_ip :: "unit result"
  ro_handle :: "string \<Rightarrow> string list \<Rightarrow> string \<Rightarrow> nat list option \<Rightarrow> 'r result"

datatype 'r response = Error_Status int | Answer 'r

text \<open>\<open>_urlsplit\<close>: the decoded segments after the first slash, and the query.\<close>

definition split_url :: "'r role \<Rightarrow> string \<Rightarrow> (string list \<times> string) result" where
  "split_url role path =
     bind_result (ro_urlsplit role path)
       (\<lambda>(p, query). Inr (tl (split_on (CHR ''/'') (ro_unquote role p)), query))"

definition handle_request :: "'r role \<Rightarrow> string \<Rightarrow> string \<Rightarrow> nat list option \<Rightarrow> 'r response result" where
  "handle_request role command path body =
     bind_result (ro_set_remote_ip role)
       (\<lambda>_. bind_result (split_url role path)
          (\<lambda>(dirs, query).
             if dirs \<noteq> [] \<and> hd dirs = ro_route role
             then bind_result (ro_handle role command dirs query body) (\<lambda>r. Inr (Answer r))
             else Inr (Error_Status 404)))"

text \<open>A GET or HEAD forgets the body of the request before it on the connection.\<close>

definition do_get_or_head :: "'r role \<Rightarrow> string \<Rightarrow> string \<Rightarrow> nat list \<Rightarrow> 'r response result \<times> nat list" where
  "do_get_or_head role command path stream = (handle_request role command path None, stream)"

definition do_post :: "'r role \<Rightarrow> string \<Rightarrow> string option \<Rightarrow> nat list \<Rightarrow> 'r response result \<times> nat list" where
  "do_post role path header stream =
     (case read_request_body header stream of
        Inl (ValueError _) \<Rightarrow> (Inr (Error_Status 400), stream)
      | Inl e \<Rightarrow> (Inl e, stream)
      | Inr (body, rest) \<Rightarrow> (handle_request role ''POST'' path (Some body), rest))"

subsection \<open>Responses\<close>

text \<open>The headers and body of a JSON response; \<open>encode\<close> is \<open>_encode_body\<close>.\<close>

definition identity_encode :: "nat list \<Rightarrow> nat list \<times> string option" where
  "identity_encode content_bytes = (content_bytes, None)"

definition send_content ::
    "(nat list \<Rightarrow> nat list \<times> string option) \<Rightarrow> string option \<Rightarrow> string \<Rightarrow> (string \<times> string) list \<times> nat list" where
  "send_content encode cache_control content =
     (let (body, encoding) = encode (utf8_encode content)
      in ((case cache_control of None \<Rightarrow> [] | Some c \<Rightarrow> [(''Cache-Control'', c)])
          @ [(''Content-Type'', ''application/json; charset=utf-8'')]
          @ (case encoding of None \<Rightarrow> [] | Some e \<Rightarrow> [(''Content-Encoding'', e)])
          @ [(''Content-Length'', str_int (int (length body)))], body))"

subsection \<open>Logging\<close>

definition sensitive_headers :: "string list" where
  "sensitive_headers = [''authorization'', ''proxy-authorization'', ''cookie'', ''set-cookie'']"

text \<open>The headers as \<open>log_message\<close> dumps them; a repeated name keeps its place and its last value.\<close>

definition logged_headers :: "(string \<times> string) list \<Rightarrow> (string \<times> string) list" where
  "logged_headers headers =
     foldl (\<lambda>d (name, val). AList.update name (if str_lower name \<in> set sensitive_headers then mask else val) d) [] headers"

text \<open>\<open>_client_ip\<close>: the address of the request, or the peer of the connection before it is known.\<close>

definition client_ip :: "string option \<Rightarrow> string \<Rightarrow> string" where
  "client_ip remote_ip address_string = (case remote_ip of None \<Rightarrow> address_string | Some ip \<Rightarrow> ip)"

text \<open>\<open>translate\<close> with the control characters of the standard library's handler.\<close>

definition is_control :: "char \<Rightarrow> bool" where
  "is_control c \<longleftrightarrow> code c < 32 \<or> (127 \<le> code c \<and> code c < 160)"

definition hex_char :: "nat \<Rightarrow> char" where
  "hex_char n = (if n < 10 then char_of (48 + n) else char_of (87 + n))"

definition escape_control :: "char \<Rightarrow> string" where
  "escape_control c =
     (if is_control c then [CHR 0x5C, CHR ''x'', hex_char (code c div 16), hex_char (code c mod 16)]
      else if c = CHR 0x5C then [c, c] else [c])"

definition log_line :: "string option \<Rightarrow> string \<Rightarrow> string \<Rightarrow> string" where
  "log_line remote_ip address_string message =
     client_ip remote_ip address_string @ '' '' @ concat (map escape_control message)"

subsection \<open>Connections\<close>

text \<open>
  One connection: \<open>Database(...)\<close> opens, \<open>handle_one_request\<close> runs until it leaves \<open>close_connection\<close> set or
  raises. An item of \<open>rounds\<close> is what one call does, with whether \<open>self.command\<close> is set when it raises; past
  the list it still waits for the client.
\<close>

datatype round = Served bool | Failed bool py_error

definition is_disconnect :: "py_error \<Rightarrow> bool" where
  "is_disconnect e \<longleftrightarrow> e = OtherError ''BrokenPipeError'' \<or> e = OtherError ''ConnectionError'' \<or> e = OtherError ''TimeoutError''"

datatype outcome = Waiting | Closed | Dropped | Sent500 | Silent

text \<open>The \<open>except\<close> clauses of \<open>handle\<close>; a 500 needs the command of a parsed request.\<close>

definition connection_failed :: "bool \<Rightarrow> py_error \<Rightarrow> outcome" where
  "connection_failed command_set e =
     (if is_disconnect e then Dropped else if command_set then Sent500 else Silent)"

fun serve_rounds :: "round list \<Rightarrow> nat \<times> outcome" where
  "serve_rounds [] = (0, Waiting)"
| "serve_rounds (Served closes # rounds) =
     (if closes then (1, Closed) else (case serve_rounds rounds of (n, oc) \<Rightarrow> (Suc n, oc)))"
| "serve_rounds (Failed command_set e # rounds) = (0, connection_failed command_set e)"

definition handle_connection :: "unit result \<Rightarrow> round list \<Rightarrow> nat \<times> outcome" where
  "handle_connection opened rounds =
     (case opened of Inl e \<Rightarrow> (0, connection_failed False e) | Inr _ \<Rightarrow> serve_rounds rounds)"

end
