(* ===== verification/Page_Request.thy ===== *)
theory Page_Request
  imports Py_Strings
begin

section \<open>Page requests\<close>

text \<open>
  \<open>database/page.py\<close>: the search, sort and paging parameters of a w2ui read, taken from a parsed query.
  The query and its clauses are Python dicts; an absent key reads as \<open>None\<close>.
\<close>

type_synonym query = "(pykey \<times> pyval) list"

record search_clause =
  sc_field :: string
  sc_type :: string
  sc_operator :: string
  sc_value :: pyval

record sort_clause =
  so_field :: string
  so_direction :: string

record page_request =
  p_searches :: "search_clause list"
  p_or_logic :: bool
  p_sorts :: "sort_clause list"
  p_limit :: "int option"
  p_offset :: "int option"

definition wildcards :: "string list" where
  "wildcards = [''*'', ''.'', ''+'', ''?'', ''^'', ''$'']"

definition text_of :: "pyval \<Rightarrow> string" where
  "text_of v = (if is_str v then str_of v else [])"

definition search_from_clause :: "query \<Rightarrow> search_clause" where
  "search_from_clause clause =
     \<lparr>sc_field = text_of (dict_get_none clause ''field''), sc_type = text_of (dict_get_none clause ''type''),
      sc_operator = text_of (dict_get_none clause ''operator''), sc_value = dict_get_none clause ''value''\<rparr>"

definition sort_from_clause :: "query \<Rightarrow> sort_clause" where
  "sort_from_clause clause =
     \<lparr>so_field = text_of (dict_get_none clause ''field''),
      so_direction = text_of (dict_get_none clause ''direction'')\<rparr>"

definition clauses_of :: "pyval \<Rightarrow> query list" where
  "clauses_of v = (case v of
     PList xs \<Rightarrow> List.map_filter (\<lambda>x. case x of PDict d \<Rightarrow> Some d | _ \<Rightarrow> None) xs
   | _ \<Rightarrow> [])"

definition searches_of :: "query \<Rightarrow> search_clause list" where
  "searches_of q =
     (let search = dict_get_none q ''search''
      in if \<not> truthy search then []
         else if is_str search then
           (if str_of search \<in> set wildcards then []
            else [\<lparr>sc_field = text_of (dict_get_none q ''field''), sc_type = ''text'',
                   sc_operator = ''contains'', sc_value = search\<rparr>])
         else map search_from_clause (clauses_of search))"

definition paging_error :: py_error where
  "paging_error = ValueError ''invalid paging value''"

text \<open>\<open>int(query[key])\<close> with \<open>TypeError\<close> and \<open>ValueError\<close> translated; \<open>key in query\<close> holds.\<close>

definition paging_int :: "query \<Rightarrow> string \<Rightarrow> int result" where
  "paging_int q key =
     (case py_int (dict_get_none q key) of
        Inl (TypeError _) \<Rightarrow> Inl paging_error
      | Inl (ValueError _) \<Rightarrow> Inl paging_error
      | r \<Rightarrow> r)"

definition paging_of :: "query \<Rightarrow> (int option \<times> int option) result" where
  "paging_of q =
     (let present = (\<lambda>key. dict_get q key \<noteq> None)
      in if present ''limit'' \<and> present ''offset'' then
           bind_result (paging_int q ''limit'')
             (\<lambda>limit. bind_result (paging_int q ''offset'') (\<lambda>offset. Inr (Some limit, Some offset)))
         else if present ''max'' then bind_result (paging_int q ''max'') (\<lambda>limit. Inr (Some limit, None))
         else Inr (None, None))"

definition page_from_query :: "query \<Rightarrow> page_request result" where
  "page_from_query q =
     bind_result (paging_of q)
       (\<lambda>(limit, offset). Inr
          \<lparr>p_searches = searches_of q, p_or_logic = (dict_get_none q ''searchLogic'' = PStr ''OR''),
           p_sorts = map sort_from_clause (clauses_of (dict_get_none q ''sort'')),
           p_limit = limit, p_offset = offset\<rparr>)"

lemma py_int_errors: "py_int v = Inl e \<Longrightarrow> (\<exists>m. e = TypeError m) \<or> (\<exists>m. e = ValueError m)"
  by (cases v) (auto simp: py_int_str_def split: option.splits)

lemma paging_int_errors: "paging_int q key = Inl e \<Longrightarrow> e = paging_error"
  using py_int_errors by (fastforce simp: paging_int_def split: sum.splits py_error.splits)

text \<open>The only error of a page request is the \<open>ValueError\<close> shown to the user for a paging value.\<close>

theorem page_from_query_errors:
  assumes "page_from_query q = Inl e"
  shows "e = ValueError ''invalid paging value''"
  using assms
  by (auto simp: page_from_query_def paging_of_def Let_def bind_result_Inl_iff paging_error_def
      dest!: paging_int_errors split: if_splits)

theorem page_from_query_errors_witness:
  "ValueError ''invalid paging value'' = ValueError ''invalid paging value''"
  by (rule page_from_query_errors [where q = "[(KStr ''max'', PStr ''ten'')]"]) code_simp

end
