(* ===== verification/Password.thy ===== *)
theory Password
  imports Py_Strings
begin

section \<open>Passwords\<close>

text \<open>
  \<open>system/password.py\<close>. \<open>crypt password salt\<close> is \<open>legacycrypt.crypt\<close>: its result may be \<open>None\<close> and
  it may raise; \<open>OSError\<close> is \<open>OtherError ''OSError''\<close>. \<open>dummy\<close> is \<open>_DUMMY_HASH\<close>, computed when the
  module loads. \<open>hmac.compare_digest\<close> compares strings of ASCII characters and raises on others.
\<close>

type_synonym crypt = "string \<Rightarrow> string \<Rightarrow> string option result"

definition hash_password :: "crypt \<Rightarrow> string \<Rightarrow> string \<Rightarrow> string option result" where
  "hash_password crypt salt password = crypt password salt"

definition is_ascii :: "string \<Rightarrow> bool" where
  "is_ascii s \<longleftrightarrow> list_all (\<lambda>c. code c < 128) s"

definition compare_digest :: "string \<Rightarrow> string \<Rightarrow> bool result" where
  "compare_digest a b =
     (if is_ascii a \<and> is_ascii b then Inr (a = b)
      else Inl (TypeError ''comparing strings with non-ASCII characters is not supported''))"

definition verify_password :: "crypt \<Rightarrow> string \<Rightarrow> string \<Rightarrow> string \<Rightarrow> bool result" where
  "verify_password crypt dummy password stored =
     (let accept = (stored \<noteq> []);
          salt = (if accept then stored else dummy)
      in case crypt password salt of
           Inl (TypeError _) \<Rightarrow> Inr False
         | Inl (ValueError _) \<Rightarrow> Inr False
         | Inl (OtherError e) \<Rightarrow> if e = ''OSError'' then Inr False else Inl (OtherError e)
         | Inl e \<Rightarrow> Inl e
         | Inr computed \<Rightarrow>
             bind_result
               (case computed of
                  None \<Rightarrow> Inr False
                | Some h \<Rightarrow> if h = [] then Inr False else compare_digest h salt)
               (\<lambda>matched. Inr (accept \<and> matched)))"

text \<open>What an accepted password satisfies, for the callers.\<close>

lemma verify_password_accepts:
  assumes "verify_password crypt dummy password stored = Inr True"
  shows "stored \<noteq> []" and "crypt password stored = Inr (Some stored)"
proof -
  show stored: "stored \<noteq> []"
    using assms by (auto simp: verify_password_def Let_def bind_result_Inr_iff
        split: sum.splits py_error.splits option.splits if_splits)
  show "crypt password stored = Inr (Some stored)"
    using assms stored
    by (auto simp: verify_password_def Let_def bind_result_Inr_iff compare_digest_def
        split: sum.splits py_error.splits option.splits if_splits)
qed

text \<open>
  A password is accepted exactly when a hash is stored and hashing the password with it gives it
  back; the dummy hash used for an unknown user never authenticates anyone.
\<close>

theorem verify_password_iff:
  "verify_password crypt dummy password stored = Inr True \<longleftrightarrow>
     stored \<noteq> [] \<and> is_ascii stored \<and> crypt password stored = Inr (Some stored)"
proof (cases "crypt password (if stored \<noteq> [] then stored else dummy)")
  case (Inl e)
  then show ?thesis
    by (cases e) (auto simp: verify_password_def Let_def split: if_splits)
next
  case (Inr h)
  then show ?thesis
    by (cases h) (auto simp: verify_password_def compare_digest_def Let_def split: if_splits)
qed

end
