(* ===== verification/Tables.thy ===== *)
theory Tables
  imports Sql Page_Request Password
begin

section \<open>The admin tables\<close>

text \<open>
  \<open>database/mysql/tables.py\<close>: every read and write of the admin interface as the SQL statements it
  composes and runs. A table is a \<open>sql_table\<close>; \<open>t_class\<close> says which class it is an instance of, and an
  operation that a subclass overrides is defined by cases on it. Properties of the class
  (\<open>_select\<close>, \<open>_insert\<close>, ...) are functions of the table. \<open>table_env\<close> holds \<open>repr\<close> (for \<open>str\<close> of a list,
  a dict or a float), \<open>date.fromisoformat\<close> (to the ordinal), \<open>crypt\<close>, the salt and the dummy hash.
\<close>

datatype table_class = PlainTable | AuditTable | RecordsTable | StatusTable | UsersTable

record sql_table =
  t_class :: table_class
  t_name :: string
  t_key :: string
  t_fields :: "string list"
  t_columns :: "string list"
  t_aliases :: "(string \<times> string) list"
  t_defaults :: "(string \<times> pyval) list"

record table_env =
  te_repr :: "pyval \<Rightarrow> string"
  te_fromiso :: "string \<Rightarrow> int option"
  te_crypt :: crypt
  te_salt :: string
  te_dummy :: string

subsection \<open>Projections\<close>

definition quoted :: "string \<Rightarrow> string" where
  "quoted s = CHR ''`'' # s @ ''`''"

definition column_of :: "sql_table \<Rightarrow> string \<Rightarrow> string" where
  "column_of t exposed =
     (if exposed = ''recid'' then t_key t
      else (case map_of (t_aliases t) exposed of None \<Rightarrow> exposed | Some c \<Rightarrow> c))"

definition base_projection :: "sql_table \<Rightarrow> string \<Rightarrow> string" where
  "base_projection t exposed =
     (let column = column_of t exposed
      in if column \<noteq> exposed then quoted column @ '' AS '' @ quoted exposed else quoted exposed)"

text \<open>\<open>Users._projection\<close>: the password is projected as the mask.\<close>

definition projection :: "sql_table \<Rightarrow> string \<Rightarrow> string" where
  "projection t exposed =
     (if t_class t = UsersTable \<and> exposed = ''password''
      then CHR 0x27 # mask @ CHR 0x27 # '' AS `password`''
      else base_projection t exposed)"

definition records_select :: string where
  "records_select = sql_block
     [''SELECT `records`.`id` AS `recid`,'',
      ''`domains`.`domain`,'',
      ''`rrsets`.`name`,'',
      ''`rrsets`.`ttl`,'',
      ''`routings`.`policy`,'',
      ''`types`.`type` AS `name_type`,'',
      ''`records`.`disabled`,'',
      ''`records`.`weight`,'',
      ''`records`.`content`,'',
      ''`monitors`.`monitor`,'',
      ''`views`.`view`'',
      ''FROM `records`'',
      ''JOIN `rrsets` ON `records`.`rrset_id` = `rrsets`.`id`'',
      ''JOIN `domains` ON `rrsets`.`domain_id` = `domains`.`id`'',
      ''JOIN `types` ON `rrsets`.`type_value` = `types`.`value`'',
      ''JOIN `routings` ON `rrsets`.`routing_id` = `routings`.`id`'',
      ''JOIN `monitors` ON `records`.`monitor_id` = `monitors`.`id`'',
      ''JOIN `views` ON `records`.`view_id` = `views`.`id`'']"

definition select_sql :: "sql_table \<Rightarrow> string" where
  "select_sql t =
     (if t_class t = RecordsTable \<or> t_class t = StatusTable then records_select
      else ''SELECT '' @ join '', '' (map (projection t) (t_fields t)) @ '' FROM '' @ quoted (t_name t))"

definition select_one :: "sql_table \<Rightarrow> string" where
  "select_one t = select_sql t @ '' WHERE '' @ quoted (t_name t) @ ''.'' @ quoted (t_key t) @ '' = %s''"

definition insert_of :: "sql_table \<Rightarrow> nat \<Rightarrow> string" where
  "insert_of t cnt =
     (let columns = join '', '' (map (\<lambda>n. quoted (column_of t n)) (t_columns t));
          values = ''('' @ marks (length (t_columns t)) @ '')''
      in ''INSERT INTO '' @ quoted (t_name t) @ '' ('' @ columns @ '') VALUES ''
         @ join '', '' (replicate cnt values))"

definition update_of :: "sql_table \<Rightarrow> string list \<Rightarrow> string" where
  "update_of t columns =
     ''UPDATE '' @ quoted (t_name t) @ '' SET ''
       @ join '', '' (map (\<lambda>n. quoted (column_of t n) @ '' = %s'') columns)
       @ '' WHERE '' @ quoted (t_key t) @ '' = %s''"

definition delete_of :: "sql_table \<Rightarrow> nat \<Rightarrow> string" where
  "delete_of t cnt =
     ''DELETE FROM '' @ quoted (t_name t) @ '' WHERE '' @ quoted (t_key t) @ '' IN ('' @ marks cnt @ '')''"

subsection \<open>Search clauses\<close>

definition escape_like :: "string \<Rightarrow> string" where
  "escape_like s = str_replace ''_'' [CHR 0x5C, CHR ''_'']
     (str_replace ''%'' [CHR 0x5C, CHR ''%''] (str_replace [CHR 0x5C] [CHR 0x5C, CHR 0x5C] s))"

text \<open>\<open>str(value)\<close>.\<close>

definition py_str :: "table_env \<Rightarrow> pyval \<Rightarrow> string" where
  "py_str env v = (case v of
     PStr s \<Rightarrow> s | PInt i \<Rightarrow> str_int i | PBool b \<Rightarrow> (if b then ''True'' else ''False'')
   | PNone \<Rightarrow> ''None'' | _ \<Rightarrow> te_repr env v)"

type_synonym clause = "string \<times> sql_param list"

definition no_match :: clause where
  "no_match = (''0 = 1'', [])"

definition like_pattern :: "string \<Rightarrow> string \<Rightarrow> string" where
  "like_pattern operator s =
     (if operator = ''begins'' then s @ ''%''
      else if operator = ''contains'' then ''%'' @ s @ ''%'' else ''%'' @ s)"

definition text_clause :: "table_env \<Rightarrow> string \<Rightarrow> string \<Rightarrow> pyval \<Rightarrow> clause" where
  "text_clause env column operator val =
     (if operator = ''is'' then (column @ '' = %s'', [SqlValue (PStr (py_str env val))])
      else (column @ '' LIKE %s'',
            [SqlValue (PStr (like_pattern operator (escape_like (py_str env val))))]))"

definition int_param :: "pyval \<Rightarrow> sql_param result" where
  "int_param v = bind_result (py_int v) (\<lambda>i. Inr (SqlValue (PInt i)))"

text \<open>The body of the \<open>try\<close>.\<close>

definition int_clause_try :: "string \<Rightarrow> string \<Rightarrow> pyval \<Rightarrow> clause result" where
  "int_clause_try column operator val =
     (if operator = ''is'' then bind_result (int_param val) (\<lambda>p. Inr (column @ '' = %s'', [p]))
      else if operator = ''in'' \<or> operator = ''not in'' then
        (let values = (case val of PList xs \<Rightarrow> xs | _ \<Rightarrow> [val])
         in if values = [] then Inr no_match
            else bind_result (mapr int_param values)
                   (\<lambda>ps. Inr (column @ '' '' @ (if operator = ''not in'' then ''NOT '' else [])
                               @ ''IN ('' @ marks (length values) @ '')'', ps)))
      else (case val of
              PList xs \<Rightarrow>
                (case xs of
                   a # b # _ \<Rightarrow> bind_result (int_param a)
                                  (\<lambda>p. bind_result (int_param b) (\<lambda>q. Inr (column @ '' BETWEEN %s AND %s'', [p, q])))
                 | [a] \<Rightarrow> bind_result (int_param a) (\<lambda>_. Inl IndexError)
                 | [] \<Rightarrow> Inl IndexError)
            | _ \<Rightarrow> Inr no_match))"

definition int_clause :: "string \<Rightarrow> string \<Rightarrow> pyval \<Rightarrow> clause result" where
  "int_clause column operator val =
     (case int_clause_try column operator val of
        Inl IndexError \<Rightarrow> Inr no_match
      | Inl (TypeError _) \<Rightarrow> Inr no_match
      | Inl (ValueError _) \<Rightarrow> Inr no_match
      | r \<Rightarrow> r)"

text \<open>\<open>date.max.toordinal()\<close>; the day after it overflows.\<close>

definition max_ordinal :: int where
  "max_ordinal = 3652059"

definition date_range :: "string \<Rightarrow> int \<Rightarrow> int \<Rightarrow> clause" where
  "date_range column start end =
     (if max_ordinal \<le> end then no_match
      else (column @ '' >= %s AND '' @ column @ '' < %s'', [SqlDate start, SqlDate (end + 1)]))"

definition date_clause :: "table_env \<Rightarrow> string \<Rightarrow> string \<Rightarrow> pyval \<Rightarrow> clause" where
  "date_clause env column operator val =
     (let iso = (\<lambda>v. te_fromiso env (py_str env v))
      in if operator = ''is'' then (case iso val of None \<Rightarrow> no_match | Some d \<Rightarrow> date_range column d d)
         else (case val of
                 PList (a # b # _) \<Rightarrow>
                   (case (iso a, iso b) of (Some d, Some e) \<Rightarrow> date_range column d e | _ \<Rightarrow> no_match)
               | _ \<Rightarrow> no_match))"

definition operators :: "string \<Rightarrow> string list" where
  "operators typ =
     (if typ = ''text'' then [''is'', ''begins'', ''contains'', ''ends'']
      else if typ = ''int'' then [''is'', ''in'', ''not in'', ''between'']
      else if typ = ''date'' then [''is'', ''between'']
      else [])"

definition search_clause_sql :: "table_env \<Rightarrow> sql_table \<Rightarrow> search_clause \<Rightarrow> clause option result" where
  "search_clause_sql env t search =
     (if sc_operator search \<notin> set (operators (sc_type search)) then Inr None
      else if sc_field search \<notin> set (t_fields t) then Inr (Some no_match)
      else
        (let column = quoted (sc_field search)
         in if sc_type search = ''text'' then
              Inr (Some (text_clause env column (sc_operator search) (sc_value search)))
            else if sc_type search = ''int'' then
              bind_result (int_clause column (sc_operator search) (sc_value search)) (\<lambda>c. Inr (Some c))
            else Inr (Some (date_clause env column (sc_operator search) (sc_value search)))))"

definition search_sql :: "table_env \<Rightarrow> sql_table \<Rightarrow> page_request \<Rightarrow> clause result" where
  "search_sql env t page =
     bind_result (mapr (search_clause_sql env t) (p_searches page))
       (\<lambda>found. let clauses = List.map_filter id found
                in Inr (if clauses = [] then
                          (if p_searches page \<noteq> [] \<and> p_or_logic page
                           then ('' WHERE '' @ fst no_match, []) else ([], []))
                        else ('' WHERE '' @ join (if p_or_logic page then '' OR '' else '' AND '') (map fst clauses),
                              concat (map snd clauses))))"

definition limit_sql :: "page_request \<Rightarrow> clause" where
  "limit_sql page =
     (case p_limit page of
        None \<Rightarrow> ([], [])
      | Some limit \<Rightarrow>
          (case p_offset page of
             None \<Rightarrow> ('' LIMIT %s'', [SqlValue (PInt limit)])
           | Some offset \<Rightarrow> ('' LIMIT %s OFFSET %s'', [SqlValue (PInt limit), SqlValue (PInt offset)])))"

definition order_sql :: "sql_table \<Rightarrow> page_request \<Rightarrow> string" where
  "order_sql t page =
     (let sorts = filter (\<lambda>s. so_field s \<in> set (t_fields t)) (p_sorts page);
          terms = map (\<lambda>s. if so_direction s = ''desc'' then quoted (so_field s) @ '' DESC''
                           else quoted (so_field s)) sorts
                  @ (if p_limit page \<noteq> None \<and> \<not> list_ex (\<lambda>s. so_field s = ''recid'') sorts
                     then [quoted ''recid''] else [])
      in if terms = [] then [] else '' ORDER BY '' @ join '', '' terms)"

end
