(* ===== verification/Table_Operations.thy ===== *)
theory Table_Operations
  imports Tables
begin

section \<open>Reading and writing the admin tables\<close>

text \<open>
  The methods of \<open>database/mysql/tables.py\<close> that run statements: \<open>_read\<close>, \<open>get\<close>, \<open>save\<close>,
  \<open>written_recid\<close>, \<open>remove\<close>, \<open>Audit.record\<close>, \<open>Users.check_user\<close> and the registry \<open>TABLES\<close>. Keyword
  arguments are association lists; \<open>down_ids\<close> is the only extra argument a \<open>get\<close> takes.
\<close>

subsection \<open>The paging pipeline\<close>

definition row_total :: "row list \<Rightarrow> int result" where
  "row_total rows =
     (case rows of
        [] \<Rightarrow> Inl IndexError
      | r # _ \<Rightarrow> bind_result (row_item r ''total'') py_int)"

definition table_read ::
    "'s executor \<Rightarrow> table_env \<Rightarrow> sql_table \<Rightarrow> string \<Rightarrow> sql_param list \<Rightarrow> page_request option
       \<Rightarrow> ('s, row list \<times> int) db" where
  "table_read ex env t operation params page =
     (case page of
        None \<Rightarrow> db_bind (ex_select ex operation params) (\<lambda>rows. db_return (rows, int (length rows)))
      | Some page \<Rightarrow>
          db_bind (db_lift (search_sql env t page))
            (\<lambda>(where_sql, where_params).
               let (paging, paging_params) = limit_sql page;
                   wrapped = ''SELECT * FROM ('' @ operation @ '') AS `t`'' @ where_sql @ order_sql t page @ paging
               in db_bind (ex_select ex wrapped (params @ where_params @ paging_params))
                    (\<lambda>rows.
                       case (p_limit page, p_offset page) of
                         (Some limit, Some offset) \<Rightarrow>
                           if int (length rows) < limit \<and> (rows \<noteq> [] \<or> offset = 0)
                           then db_return (rows, offset + int (length rows))
                           else db_bind (ex_select ex (''SELECT COUNT(*) AS `total` FROM ('' @ operation @ '') AS `t`'' @ where_sql)
                                          (params @ where_params))
                                  (\<lambda>counted. db_bind (db_lift (row_total counted)) (\<lambda>n. db_return (rows, n)))
                       | _ \<Rightarrow> db_return (rows, int (length rows)))))"

text \<open>\<open>Table.get\<close>.\<close>

definition base_get ::
    "'s executor \<Rightarrow> table_env \<Rightarrow> sql_table \<Rightarrow> int \<Rightarrow> page_request option \<Rightarrow> ('s, row list \<times> int) db" where
  "base_get ex env t recid page =
     table_read ex env t (if recid \<noteq> 0 then select_one t else select_sql t)
       (if recid \<noteq> 0 then [SqlValue (PInt recid)] else []) page"

subsection \<open>Records and status\<close>

definition local_fields :: "sql_table \<Rightarrow> string list" where
  "local_fields t =
     [''recid'', ''disabled'', ''weight'', ''content''] @ (if t_class t = StatusTable then [''status''] else [])"

definition is_local :: "sql_table \<Rightarrow> page_request \<Rightarrow> bool" where
  "is_local t page =
     (set (map sc_field (p_searches page)) \<union> set (map so_field (p_sorts page)) \<subseteq> set (local_fields t))"

definition down_condition :: "string \<Rightarrow> int list \<Rightarrow> string" where
  "down_condition column down_ids =
     (if down_ids = [] then [] else '' OR '' @ column @ '' IN ('' @ marks (length down_ids) @ '')'')"

definition status_case :: "string \<Rightarrow> string \<Rightarrow> int list \<Rightarrow> string" where
  "status_case disabled column down_ids =
     ''CASE WHEN '' @ disabled @ down_condition column down_ids
       @ '' THEN '' @ [CHR 0x27] @ ''Off'' @ [CHR 0x27] @ '' ELSE '' @ [CHR 0x27] @ ''On'' @ [CHR 0x27]
       @ '' END AS `status`''"

definition id_params :: "int list \<Rightarrow> sql_param list" where
  "id_params ids = map (\<lambda>i. SqlValue (PInt i)) ids"

definition local_select :: "sql_table \<Rightarrow> int list \<Rightarrow> string \<times> sql_param list" where
  "local_select t down_ids =
     (if t_class t = StatusTable then
        (sql_block
           [''SELECT `records`.`id` AS `recid`,'', ''`records`.`disabled`,'', ''`records`.`weight`,'',
            ''`records`.`content`,'', status_case ''`records`.`disabled`'' ''`records`.`id`'' down_ids,
            ''FROM `records`''], id_params down_ids)
      else
        (sql_block
           [''SELECT `records`.`id` AS `recid`,'', ''`records`.`disabled`,'', ''`records`.`weight`,'',
            ''`records`.`content`'', ''FROM `records`''], []))"

text \<open>\<open>Records._join_page\<close>: restore the page order, skip ids that are gone.\<close>

definition records_join_page :: "'s executor \<Rightarrow> sql_table \<Rightarrow> row list \<Rightarrow> ('s, row list) db" where
  "records_join_page ex t id_rows =
     (if id_rows = [] then db_return []
      else
        db_bind (db_lift (mapr (\<lambda>r. row_item r ''recid'') id_rows))
          (\<lambda>ids. db_bind
             (ex_select ex (select_sql t @ '' WHERE `records`.`id` IN ('' @ marks (length ids) @ '')'') (map SqlValue ids))
             (\<lambda>rows. db_bind (db_lift (mapr (\<lambda>r. bind_result (row_item r ''recid'') (\<lambda>i. Inr (i, r))) rows))
                (\<lambda>pairs. db_return (List.map_filter (map_of (rev pairs)) ids)))))"

text \<open>The dict \<open>{row['recid']: row['status']}\<close>, and \<open>row['status'] = ...\<close> on each joined row.\<close>

definition status_join_page :: "'s executor \<Rightarrow> sql_table \<Rightarrow> row list \<Rightarrow> ('s, row list) db" where
  "status_join_page ex t id_rows =
     db_bind (records_join_page ex t id_rows)
       (\<lambda>rows. db_bind (db_lift (mapr (\<lambda>r. bind_result (row_item r ''recid'')
                                   (\<lambda>i. bind_result (row_item r ''status'') (\<lambda>s. Inr (i, s)))) id_rows))
          (\<lambda>status. db_lift (mapr (\<lambda>r. bind_result (row_item r ''recid'')
             (\<lambda>i. case map_of (rev status) i of
                None \<Rightarrow> Inl (KeyError ''recid'')
              | Some s \<Rightarrow> Inr (AList.update ''status'' s r))) rows)))"

definition join_page :: "'s executor \<Rightarrow> sql_table \<Rightarrow> row list \<Rightarrow> ('s, row list) db" where
  "join_page ex t id_rows =
     (if t_class t = StatusTable then status_join_page ex t id_rows else records_join_page ex t id_rows)"

definition status_full_read ::
    "'s executor \<Rightarrow> table_env \<Rightarrow> sql_table \<Rightarrow> int \<Rightarrow> page_request option \<Rightarrow> int list \<Rightarrow> ('s, row list \<times> int) db" where
  "status_full_read ex env t recid page down_ids =
     table_read ex env t
       (sql_block
          [''SELECT `r`.*,'',
           status_case ''`r`.`disabled`'' ''`r`.`recid`'' down_ids,
           ''FROM ('' @ (if recid \<noteq> 0 then select_one t else select_sql t) @ '') AS `r`''])
       (id_params down_ids @ (if recid \<noteq> 0 then [SqlValue (PInt recid)] else [])) page"

definition full_read ::
    "'s executor \<Rightarrow> table_env \<Rightarrow> sql_table \<Rightarrow> int \<Rightarrow> page_request option \<Rightarrow> int list \<Rightarrow> ('s, row list \<times> int) db" where
  "full_read ex env t recid page down_ids =
     (if t_class t = StatusTable then status_full_read ex env t recid page down_ids
      else base_get ex env t recid page)"

definition records_get ::
    "'s executor \<Rightarrow> table_env \<Rightarrow> sql_table \<Rightarrow> int \<Rightarrow> page_request option \<Rightarrow> int list \<Rightarrow> ('s, row list \<times> int) db" where
  "records_get ex env t recid page down_ids =
     (case page of
        Some p \<Rightarrow>
          if recid \<noteq> 0 \<or> \<not> is_local t p then full_read ex env t recid page down_ids
          else (let (source, params) = local_select t down_ids
                in db_bind (table_read ex env t source params page)
                     (\<lambda>(id_rows, total). db_bind (join_page ex t id_rows) (\<lambda>rows. db_return (rows, total))))
      | None \<Rightarrow> full_read ex env t recid page down_ids)"

definition table_get ::
    "'s executor \<Rightarrow> table_env \<Rightarrow> sql_table \<Rightarrow> int \<Rightarrow> page_request option \<Rightarrow> int list \<Rightarrow> ('s, row list \<times> int) db" where
  "table_get ex env t recid page down_ids =
     (if t_class t = RecordsTable \<or> t_class t = StatusTable then records_get ex env t recid page down_ids
      else base_get ex env t recid page)"

subsection \<open>Writing\<close>

definition field_item :: "row \<Rightarrow> string \<Rightarrow> pyval result" where
  "field_item posted key = row_item posted key"

definition set_defaults :: "(string \<times> pyval) list \<Rightarrow> row \<Rightarrow> row" where
  "set_defaults dflts posted =
     foldl (\<lambda>f (k, v). if map_of f k = None then f @ [(k, v)] else f) posted dflts"

definition base_save :: "'s executor \<Rightarrow> sql_table \<Rightarrow> int \<Rightarrow> row \<Rightarrow> ('s, int) db" where
  "base_save ex t save_recid posted =
     db_bind (db_lift (mapr (field_item (set_defaults (t_defaults t) posted)) (t_columns t)))
       (\<lambda>values. if save_recid \<noteq> 0
                 then ex_modify ex (update_of t (t_columns t)) (map SqlValue values @ [SqlValue (PInt save_recid)])
                 else ex_modify ex (insert_of t 1) (map SqlValue values))"

definition rrset_upsert :: string where
  "rrset_upsert = sql_block
     [''INSERT INTO `rrsets` (`domain_id`, `name`, `type_value`, `ttl`, `routing_id`)'',
      ''SELECT (SELECT `id` FROM `domains` WHERE `domain` = %s), %s,'',
      ''(SELECT `value` FROM `types` WHERE `type` = %s), %s,'',
      ''(SELECT `id` FROM `routings` WHERE `policy` = %s)'',
      ''ON DUPLICATE KEY UPDATE `id` = LAST_INSERT_ID(`id`), `ttl` = %s,'',
      ''`routing_id` = (SELECT `id` FROM `routings` WHERE `policy` = %s)'']"

definition record_update :: string where
  "record_update = sql_block
     [''UPDATE `records`'',
      ''SET `rrset_id` = LAST_INSERT_ID(),'',
      ''`content` = %s,'',
      ''`monitor_id` = (SELECT `id` FROM `monitors` WHERE `monitor` = %s),'',
      ''`view_id` = (SELECT `id` FROM `views` WHERE `view` = %s),'',
      ''`disabled` = %s,'',
      ''`weight` = %s'',
      ''WHERE `id` = %s'']"

definition record_insert :: string where
  "record_insert = sql_block
     [''INSERT INTO `records`'',
      ''(`rrset_id`, `content`, `monitor_id`, `view_id`, `disabled`, `weight`)'',
      ''SELECT LAST_INSERT_ID(), %s,'',
      ''(SELECT `id` FROM `monitors` WHERE `monitor` = %s),'',
      ''(SELECT `id` FROM `views` WHERE `view` = %s), %s, %s'']"

definition coerce_disabled :: "table_env \<Rightarrow> row \<Rightarrow> int" where
  "coerce_disabled env posted =
     (let v = (case map_of posted ''disabled'' of None \<Rightarrow> PInt 0 | Some v \<Rightarrow> v)
      in if str_lower (py_str env v) \<in> {''1'', ''true''} then 1 else 0)"

definition records_save :: "'s executor \<Rightarrow> table_env \<Rightarrow> int \<Rightarrow> row \<Rightarrow> ('s, int) db" where
  "records_save ex env save_recid posted =
     db_bind (db_lift (mapr (field_item posted)
                [''domain'', ''name'', ''name_type'', ''ttl'', ''policy'', ''content'', ''monitor'', ''view'']))
       (\<lambda>vs.
          let upsert_params = map SqlValue (take 5 vs @ [vs ! 3, vs ! 4]);
              disabled = coerce_disabled env posted;
              weight = (case map_of posted ''weight'' of None \<Rightarrow> PInt 0 | Some v \<Rightarrow> v);
              record_params = map SqlValue (drop 5 vs @ [PInt disabled, weight])
          in db_bind (ex_modify ex rrset_upsert upsert_params)
               (\<lambda>affected.
                  db_bind (if save_recid \<noteq> 0
                           then ex_modify ex record_update (record_params @ [SqlValue (PInt save_recid)])
                           else ex_modify ex record_insert record_params)
                    (\<lambda>written. db_return (affected + written))))"

text \<open>\<open>hash_password\<close> of a non-string password raises in \<open>crypt\<close>.\<close>

definition hashed :: "table_env \<Rightarrow> pyval \<Rightarrow> sql_param result" where
  "hashed env password =
     (case password of
        PStr p \<Rightarrow> bind_result (hash_password (te_crypt env) (te_salt env) p)
                    (\<lambda>h. Inr (SqlMasked (case h of None \<Rightarrow> PNone | Some s \<Rightarrow> PStr s)))
      | _ \<Rightarrow> Inl (TypeError ''crypt() argument must be str''))"

definition users_save :: "'s executor \<Rightarrow> table_env \<Rightarrow> sql_table \<Rightarrow> int \<Rightarrow> row \<Rightarrow> ('s, int) db" where
  "users_save ex env t save_recid posted =
     db_bind (db_lift (mapr (field_item posted) [''user'', ''name'', ''password'']))
       (\<lambda>vs.
          let user = SqlValue (vs ! 0); name = SqlValue (vs ! 1); password = vs ! 2
          in if save_recid = 0 then
               db_bind (db_lift (hashed env password)) (\<lambda>h. ex_modify ex (insert_of t 1) [user, name, h])
             else if password = PStr mask then
               ex_modify ex (update_of t [''user'', ''name'']) [user, name, SqlValue (PInt save_recid)]
             else
               db_bind (db_lift (hashed env password))
                 (\<lambda>h. ex_modify ex (update_of t (t_columns t)) [user, name, h, SqlValue (PInt save_recid)]))"

definition read_only :: "string \<Rightarrow> py_error" where
  "read_only name = ValueError (name @ '' is read-only'')"

definition table_save :: "'s executor \<Rightarrow> table_env \<Rightarrow> sql_table \<Rightarrow> int \<Rightarrow> row \<Rightarrow> ('s, int) db" where
  "table_save ex env t save_recid posted =
     (case t_class t of
        AuditTable \<Rightarrow> db_raise (read_only ''audit'')
      | StatusTable \<Rightarrow> db_raise (read_only ''status'')
      | RecordsTable \<Rightarrow> records_save ex env save_recid posted
      | UsersTable \<Rightarrow> users_save ex env t save_recid posted
      | PlainTable \<Rightarrow> base_save ex t save_recid posted)"

definition written_recid :: "'s executor \<Rightarrow> sql_table \<Rightarrow> int \<Rightarrow> row \<Rightarrow> ('s, int) db" where
  "written_recid ex t save_recid posted =
     (if ''recid'' \<in> set (t_columns t) then db_lift (bind_result (field_item posted ''recid'') py_int)
      else if save_recid \<noteq> 0 then db_return save_recid
      else (\<lambda>s. let recid = ex_last_insert_id ex s
                in (if recid = 0 then Inl (RuntimeError (CHR 0x27 # t_name t @ CHR 0x27 # '' insert generated no key''))
                    else Inr recid, s)))"

definition base_remove :: "'s executor \<Rightarrow> sql_table \<Rightarrow> pyval list \<Rightarrow> ('s, int) db" where
  "base_remove ex t ids =
     (if ids = [] then db_return 0 else ex_modify ex (delete_of t (length ids)) (map SqlValue ids))"

definition table_remove :: "'s executor \<Rightarrow> sql_table \<Rightarrow> pyval list \<Rightarrow> ('s, int) db" where
  "table_remove ex t ids =
     (case t_class t of
        AuditTable \<Rightarrow> db_raise (read_only ''audit'')
      | StatusTable \<Rightarrow> db_raise (read_only ''status'')
      | _ \<Rightarrow> base_remove ex t ids)"

text \<open>\<open>AuditRow\<close>, in the bind order of its fields.\<close>

record audit_row =
  au_user :: string
  au_client_ip :: string
  au_action :: string
  au_data :: string
  au_record_id :: pyval
  au_before :: "string option"
  au_after :: "string option"

definition optional_str :: "string option \<Rightarrow> pyval" where
  "optional_str x = (case x of None \<Rightarrow> PNone | Some s \<Rightarrow> PStr s)"

definition audit_values :: "audit_row \<Rightarrow> pyval list" where
  "audit_values r =
     [PStr (au_user r), PStr (au_client_ip r), PStr (au_action r), PStr (au_data r), au_record_id r,
      optional_str (au_before r), optional_str (au_after r)]"

definition audit_record :: "'s executor \<Rightarrow> sql_table \<Rightarrow> audit_row list \<Rightarrow> ('s, int) db" where
  "audit_record ex t rows =
     (if rows = [] then db_return 0
      else ex_modify ex (insert_of t (length rows)) (map SqlValue (concat (map audit_values rows))))"

definition check_user ::
    "'s executor \<Rightarrow> table_env \<Rightarrow> sql_table \<Rightarrow> string \<Rightarrow> string \<Rightarrow> ('s, row list) db" where
  "check_user ex env t user password =
     db_bind (ex_select ex (''SELECT `id`, `user`, `name`, `password` FROM '' @ quoted (t_name t) @ '' WHERE `user` = %s'')
                [SqlValue (PStr user)])
       (\<lambda>rows. db_lift
          (bind_result (case rows of [] \<Rightarrow> Inr (PStr []) | r # _ \<Rightarrow> row_item r ''password'')
             (\<lambda>stored. bind_result (verify_password (te_crypt env) (te_dummy env) password (str_of stored))
                (\<lambda>ok. Inr (if ok then [filter (\<lambda>(k, v). k \<noteq> ''password'') (hd rows)] else [])))))"

subsection \<open>The tables\<close>

definition audit_fields :: "string list" where
  "audit_fields = [''user'', ''client_ip'', ''action'', ''data'', ''record_id'', ''record_before'', ''record_after'']"

definition plain_table :: "string \<Rightarrow> string list \<Rightarrow> string list \<Rightarrow> sql_table" where
  "plain_table name exposed columns =
     \<lparr>t_class = PlainTable, t_name = name, t_key = ''id'', t_fields = exposed, t_columns = columns,
      t_aliases = [], t_defaults = []\<rparr>"

definition AUDIT :: sql_table where
  "AUDIT = (plain_table ''audit'' ([''recid'', ''logged''] @ audit_fields) audit_fields)\<lparr>t_class := AuditTable\<rparr>"

definition DOMAINS :: sql_table where
  "DOMAINS = (plain_table ''domains'' [''recid'', ''domain'', ''description''] [''domain'', ''description''])
     \<lparr>t_defaults := [(''description'', PStr [])]\<rparr>"

definition MONITORS :: sql_table where
  "MONITORS = plain_table ''monitors'' [''recid'', ''monitor'', ''monitor_json''] [''monitor'', ''monitor_json'']"

definition RECORDS :: sql_table where
  "RECORDS = (plain_table ''records''
     [''recid'', ''domain'', ''name'', ''ttl'', ''policy'', ''name_type'', ''disabled'', ''weight'', ''content'',
      ''monitor'', ''view''] [])\<lparr>t_class := RecordsTable\<rparr>"

definition ROUTINGS :: sql_table where
  "ROUTINGS = plain_table ''routings'' [''recid'', ''policy'', ''policy_json''] [''policy'', ''policy_json'']"

definition STATUS :: sql_table where
  "STATUS = (plain_table ''records'' (t_fields RECORDS @ [''status'']) [])\<lparr>t_class := StatusTable\<rparr>"

definition TYPES :: sql_table where
  "TYPES = (plain_table ''types'' [''recid'', ''name_type'', ''description''] [''recid'', ''name_type'', ''description''])
     \<lparr>t_key := ''value'', t_aliases := [(''name_type'', ''type'')]\<rparr>"

definition USERS :: sql_table where
  "USERS = (plain_table ''users'' [''recid'', ''user'', ''name'', ''password''] [''user'', ''name'', ''password''])
     \<lparr>t_class := UsersTable\<rparr>"

definition VIEWS :: sql_table where
  "VIEWS = plain_table ''views'' [''recid'', ''view'', ''rule''] [''view'', ''rule'']"

definition TABLES :: "(string \<times> sql_table) list" where
  "TABLES = [(''audit'', AUDIT), (''domains'', DOMAINS), (''monitors'', MONITORS), (''records'', RECORDS),
     (''routings'', ROUTINGS), (''status'', STATUS), (''types'', TYPES), (''users'', USERS), (''views'', VIEWS)]"

end
