(* ===== verification/Json.thy ===== *)
theory Json
  imports Py_Strings
begin

section \<open>JSON texts\<close>

text \<open>
  \<open>json.dumps\<close> with \<open>ensure_ascii\<close> and the two separators, over the values of the model; \<open>rep\<close> is
  \<open>repr\<close> of a float. No value of the model is a date, so \<open>json_default\<close> of \<open>database/serialize.py\<close> is not
  reached and nothing raises.
\<close>

definition hex_digit :: "nat \<Rightarrow> char" where
  "hex_digit n = ''0123456789abcdef'' ! (n mod 16)"

definition json_char :: "char \<Rightarrow> string" where
  "json_char c =
     (let n = code c
      in if c = CHR 0x22 \<or> c = CHR 0x5C then [CHR 0x5C, c]
         else if n = 8 then [CHR 0x5C, CHR ''b'']
         else if n = 9 then [CHR 0x5C, CHR ''t'']
         else if n = 10 then [CHR 0x5C, CHR ''n'']
         else if n = 12 then [CHR 0x5C, CHR ''f'']
         else if n = 13 then [CHR 0x5C, CHR ''r'']
         else if 32 \<le> n \<and> n \<le> 126 then [c]
         else [CHR 0x5C, CHR ''u'', CHR ''0'', CHR ''0'', hex_digit (n div 16), hex_digit n])"

definition json_string :: "string \<Rightarrow> string" where
  "json_string s = CHR 0x22 # concat (map json_char s) @ [CHR 0x22]"

fun key_text :: "pykey \<Rightarrow> string" where
  "key_text (KStr s) = json_string s"
| "key_text (KInt i) = json_string (str_int i)"

fun json_dumps :: "string \<Rightarrow> string \<Rightarrow> (pyval \<Rightarrow> string) \<Rightarrow> pyval \<Rightarrow> string" where
  "json_dumps item_sep key_sep rep PNone = ''null''"
| "json_dumps item_sep key_sep rep (PBool b) = (if b then ''true'' else ''false'')"
| "json_dumps item_sep key_sep rep (PInt i) = str_int i"
| "json_dumps item_sep key_sep rep (PFloat m e) = rep (PFloat m e)"
| "json_dumps item_sep key_sep rep (PStr s) = json_string s"
| "json_dumps item_sep key_sep rep (PList xs) =
     ''['' @ join item_sep (map (json_dumps item_sep key_sep rep) xs) @ '']''"
| "json_dumps item_sep key_sep rep (PDict d) =
     ''{'' @ join item_sep (map (\<lambda>kv. key_text (fst kv) @ key_sep @ json_dumps item_sep key_sep rep (snd kv)) d) @ ''}''"

end
