(* ===== verification/W2UI.thy ===== *)
theory W2UI
  imports Table_Operations Json
begin

section \<open>The audited admin operations\<close>

text \<open>
  \<open>database/mysql/w2ui.py\<close>: a data token selects its table; deletions and saves run in one transaction
  with the audit rows they write. \<open>tx\<close> is the transaction of the database the mix-in is part of
  (\<open>mysql_transaction\<close>), \<open>rep\<close> the \<open>repr\<close> of a float in the audited JSON.
\<close>

record user_context =
  uc_id :: pyval
  uc_user :: string
  uc_name :: pyval
  uc_client_ip :: string

definition w2ui_table :: "string \<Rightarrow> sql_table result" where
  "w2ui_table data =
     (case map_of TABLES data of
        None \<Rightarrow> Inl (ValueError (CHR 0x27 # data @ CHR 0x27 # '' not implemented''))
      | Some t \<Rightarrow> Inr t)"

definition record_json :: "(pyval \<Rightarrow> string) \<Rightarrow> row option \<Rightarrow> string option" where
  "record_json rep r =
     (case r of
        None \<Rightarrow> None
      | Some d \<Rightarrow> Some (json_dumps '', '' '': '' rep (PDict (map (\<lambda>(k, v). (KStr k, v)) d))))"

definition make_audit_row ::
    "(pyval \<Rightarrow> string) \<Rightarrow> string \<Rightarrow> string \<Rightarrow> user_context \<Rightarrow> pyval \<Rightarrow> row option \<Rightarrow> row option \<Rightarrow> audit_row" where
  "make_audit_row rep action data user record_id before after =
     \<lparr>au_user = uc_user user, au_client_ip = uc_client_ip user, au_action = action, au_data = data,
      au_record_id = record_id, au_before = record_json rep before, au_after = record_json rep after\<rparr>"

definition read_row :: "'s executor \<Rightarrow> table_env \<Rightarrow> sql_table \<Rightarrow> int \<Rightarrow> ('s, row option) db" where
  "read_row ex env t recid =
     db_bind (table_get ex env t recid None [])
       (\<lambda>(rows, _). db_return (case rows of [] \<Rightarrow> None | r # _ \<Rightarrow> Some r))"

definition recid_page :: "pyval list \<Rightarrow> page_request" where
  "recid_page ids =
     \<lparr>p_searches = [\<lparr>sc_field = ''recid'', sc_type = ''int'', sc_operator = ''in'', sc_value = PList ids\<rparr>],
      p_or_logic = False, p_sorts = [], p_limit = None, p_offset = None\<rparr>"

definition delete_block ::
    "'s executor \<Rightarrow> table_env \<Rightarrow> (pyval \<Rightarrow> string) \<Rightarrow> string \<Rightarrow> sql_table \<Rightarrow> pyval list \<Rightarrow> user_context \<Rightarrow> ('s, int) db" where
  "delete_block ex env rep data t ids user =
     db_bind (table_get ex env t 0 (Some (recid_page ids)) [])
       (\<lambda>(records, _). db_bind (db_lift (mapr (\<lambda>r. row_item r ''recid'') records))
          (\<lambda>recids. db_bind (table_remove ex t recids)
             (\<lambda>deleted.
                if deleted \<noteq> 0 then
                  db_bind (audit_record ex AUDIT
                      (map (\<lambda>(i, r). make_audit_row rep ''delete'' data user i (Some r) None) (zip recids records)))
                    (\<lambda>_. db_return deleted)
                else db_return deleted)))"

definition delete_data ::
    "'s executor \<Rightarrow> (('s, int) db \<Rightarrow> ('s, int) db) \<Rightarrow> table_env \<Rightarrow> (pyval \<Rightarrow> string) \<Rightarrow> string \<Rightarrow> pyval list \<Rightarrow> user_context
       \<Rightarrow> ('s, int) db" where
  "delete_data ex tx env rep data ids user =
     db_bind (db_lift (w2ui_table data)) (\<lambda>t. tx (delete_block ex env rep data t ids user))"

definition get_data ::
    "'s executor \<Rightarrow> table_env \<Rightarrow> string \<Rightarrow> int \<Rightarrow> page_request option \<Rightarrow> int list \<Rightarrow> ('s, row list \<times> int) db" where
  "get_data ex env data recid page down_ids =
     db_bind (db_lift (w2ui_table data)) (\<lambda>t. table_get ex env t recid page down_ids)"

text \<open>A posted field with the name of a parameter of the called function cannot be passed as a keyword.\<close>

definition no_clash :: "string list \<Rightarrow> row \<Rightarrow> unit result" where
  "no_clash params posted =
     (if list_ex (\<lambda>(k, _). k \<in> set params) posted then Inl (TypeError ''got multiple values for argument'') else Inr ())"

definition record_missing :: "string \<Rightarrow> int \<Rightarrow> py_error" where
  "record_missing data recid = ValueError (CHR 0x27 # data @ CHR 0x27 # '' record '' @ str_int recid @ '' not found'')"

definition save_block ::
    "'s executor \<Rightarrow> table_env \<Rightarrow> (pyval \<Rightarrow> string) \<Rightarrow> string \<Rightarrow> sql_table \<Rightarrow> int \<Rightarrow> user_context \<Rightarrow> row \<Rightarrow> ('s, int) db" where
  "save_block ex env rep data t save_recid user posted =
     db_bind (if save_recid \<noteq> 0 then read_row ex env t save_recid else db_return None)
       (\<lambda>before. db_bind (db_bind (db_lift (no_clash [''db''] posted)) (\<lambda>_. table_save ex env t save_recid posted))
          (\<lambda>affected.
             if affected \<noteq> 0 then
               db_bind (written_recid ex t save_recid posted)
                 (\<lambda>recid. db_bind (read_row ex env t recid)
                    (\<lambda>after. case after of
                       None \<Rightarrow> db_raise (record_missing data recid)
                     | Some r \<Rightarrow>
                         db_bind (audit_record ex AUDIT
                             [make_audit_row rep ''save'' data user (PInt recid) before (Some r)])
                           (\<lambda>_. db_return affected)))
             else db_return affected))"

definition save_data ::
    "'s executor \<Rightarrow> (('s, int) db \<Rightarrow> ('s, int) db) \<Rightarrow> table_env \<Rightarrow> (pyval \<Rightarrow> string) \<Rightarrow> string \<Rightarrow> int \<Rightarrow> user_context \<Rightarrow> row
       \<Rightarrow> ('s, int) db" where
  "save_data ex tx env rep data save_recid user posted =
     db_bind (db_lift (no_clash [''self'', ''data'', ''save_recid'', ''user_context''] posted))
       (\<lambda>_. db_bind (db_lift (w2ui_table data)) (\<lambda>t. tx (save_block ex env rep data t save_recid user posted)))"

definition w2ui_check_user :: "'s executor \<Rightarrow> table_env \<Rightarrow> string \<Rightarrow> string \<Rightarrow> ('s, row list) db" where
  "w2ui_check_user ex env user password = check_user ex env USERS user password"

end
