(* ===== verification/Query_Parser.thy ===== *)
theory Query_Parser
  imports Url_Query
begin

section \<open>The nested query parser\<close>

text \<open>
  \<open>server/http/handler/queryparser.py\<close>: \<open>a[b][0]=v\<close> becomes a nested dict. A nested value is a \<open>pyval\<close>;
  the query dict that \<open>parse_query\<close> updates in place through the reference \<open>tempdict\<close> is updated along
  the path that reference has walked. Containers other than dicts answer \<open>in\<close>, \<open>[]\<close> and assignment as
  Python's do, exceptions included; the texts of those messages are shortened.
\<close>

subsection \<open>Keys\<close>

text \<open>\<open>s[i]\<close> of a string for an index that may be \<open>-1\<close>.\<close>

definition char_at :: "string \<Rightarrow> int \<Rightarrow> char result" where
  "char_at s i =
     (let j = (if i < 0 then i + int (length s) else i)
      in if 0 \<le> j \<and> j < int (length s) then Inr (s ! nat j) else Inl IndexError)"

definition slice :: "string \<Rightarrow> nat \<Rightarrow> nat \<Rightarrow> string" where
  "slice s i j = take (j - i) (drop i s)"

definition get_key :: "string \<Rightarrow> string option result" where
  "get_key s =
     (case (find_char (CHR ''['') s, find_char (CHR '']'') s) of
        (Some start, Some end) \<Rightarrow>
          bind_result (char_at s (int start + 1))
            (\<lambda>c. let start' = (if c = CHR 0x27 then start + 1 else start)
                 in bind_result (char_at s (int end - 1))
                      (\<lambda>d. let end' = (if d = CHR 0x27 then int end - 1 else int end)
                           in Inr (Some (if end' < 0
                                         then slice s (start' + 1) (nat (int (length s) + end'))
                                         else slice s (start' + 1) (nat end')))))
      | _ \<Rightarrow> Inr None)"

definition has_variable_name :: "string \<Rightarrow> bool" where
  "has_variable_name s = (case find_char (CHR ''['') s of None \<Rightarrow> False | Some i \<Rightarrow> 0 < i)"

definition is_number :: "string \<Rightarrow> bool" where
  "is_number s =
     (case s of
        [] \<Rightarrow> False
      | c # cs \<Rightarrow> if c = CHR ''-'' \<or> c = CHR ''+'' then str_isdigit cs else str_isdigit s)"

text \<open>The loop of \<open>_more_than_one_index\<close>; \<open>None\<close> is \<open>start = -1\<close>.\<close>

fun index_loop :: "nat \<Rightarrow> string \<Rightarrow> nat option \<Rightarrow> nat option" where
  "index_loop 0 s start = start"
| "index_loop (Suc n) s start =
     (case start of
        None \<Rightarrow> None
      | Some i \<Rightarrow> (case find_from (CHR ''['') s i of
                     None \<Rightarrow> None
                   | Some j \<Rightarrow> index_loop n s (find_from (CHR '']'') s j)))"

definition more_than_one_index :: "string \<Rightarrow> bool" where
  "more_than_one_index s = (index_loop 2 s (Some 0) \<noteq> None)"

text \<open>\<open>int(newkey) if _is_number(newkey) else newkey\<close>.\<close>

definition key_of :: "string \<Rightarrow> pykey result" where
  "key_of s = (if is_number s then bind_result (py_int_str s) (\<lambda>i. Inr (KInt i)) else Inr (KStr s))"

definition value_of :: "string \<Rightarrow> pyval result" where
  "value_of s = (if is_number s then bind_result (py_int_str s) (\<lambda>i. Inr (PInt i)) else Inr (PStr s))"

subsection \<open>One pair\<close>

lemma find_char_less: "find_char c s = Some i \<Longrightarrow> i < length s"
  using find_char_Some by blast

function parser_helper :: "string \<Rightarrow> string \<Rightarrow> (pykey \<times> pyval) list result" where
  "parser_helper key val =
     (if has_variable_name key then
        (let start = the (find_char (CHR ''['') key)
         in bind_result (parser_helper (drop start key) val)
              (\<lambda>sub. Inr [(KStr (take start key), PDict sub)]))
      else if more_than_one_index key then
        bind_result (get_key key)
          (\<lambda>newkey. case newkey of
             None \<Rightarrow> Inl (TypeError ''object of type 'NoneType' has no len()'')
           | Some nk \<Rightarrow>
               bind_result (key_of nk)
                 (\<lambda>k. case find_char (CHR '']'') key of
                    None \<Rightarrow> Inl IndexError
                  | Some end \<Rightarrow> bind_result (parser_helper (drop (end + 1) key) val) (\<lambda>sub. Inr [(k, PDict sub)])))
      else
        bind_result
          (if find_char (CHR ''['') key \<noteq> None
           then bind_result (get_key key) (\<lambda>nk. case nk of None \<Rightarrow> Inl QueryParserError | Some s \<Rightarrow> Inr s)
           else Inr key)
          (\<lambda>nk. bind_result (key_of nk)
             (\<lambda>k. bind_result (if key = ''[]'' then value_of val else Inr (PStr val))
                (\<lambda>v. Inr [(k, v)]))))"
  by pat_completeness auto
termination
  by (relation "measure (\<lambda>(key, _). length key)")
     (auto simp: has_variable_name_def split: option.splits dest!: find_char_less)

declare parser_helper.simps [simp del]

subsection \<open>Merging a pair into the query\<close>

definition key_val :: "pykey \<Rightarrow> pyval" where
  "key_val k = (case k of KStr s \<Rightarrow> PStr s | KInt i \<Rightarrow> PInt i)"

fun substring :: "string \<Rightarrow> string \<Rightarrow> bool" where
  "substring p [] = (p = [])"
| "substring p (x # xs) = (starts_with p (x # xs) \<or> substring p xs)"

definition bad_key :: py_error where
  "bad_key = TypeError ''indices must be integers''"

text \<open>\<open>k in container\<close>.\<close>

fun key_in :: "pykey \<Rightarrow> pyval \<Rightarrow> bool result" where
  "key_in k (PDict d) = Inr (k \<in> fst ` set d)"
| "key_in k (PList xs) = Inr (key_val k \<in> set xs)"
| "key_in (KStr t) (PStr s) = Inr (substring t s)"
| "key_in (KInt i) (PStr s) = Inl (TypeError ''requires string as left operand'')"
| "key_in k _ = Inl (TypeError ''argument is not iterable'')"

definition list_index :: "'a list \<Rightarrow> int \<Rightarrow> nat option" where
  "list_index xs i =
     (let j = (if i < 0 then i + int (length xs) else i)
      in if 0 \<le> j \<and> j < int (length xs) then Some (nat j) else None)"

text \<open>\<open>container[k]\<close> and the container after \<open>container[k] = v\<close>.\<close>

fun get_item :: "pyval \<Rightarrow> pykey \<Rightarrow> pyval result" where
  "get_item (PDict d) k = (case map_of d k of None \<Rightarrow> Inl (KeyError ''key'') | Some v \<Rightarrow> Inr v)"
| "get_item (PList xs) (KInt i) = (case list_index xs i of None \<Rightarrow> Inl IndexError | Some j \<Rightarrow> Inr (xs ! j))"
| "get_item _ _ = Inl bad_key"

fun set_item :: "pyval \<Rightarrow> pykey \<Rightarrow> pyval \<Rightarrow> pyval result" where
  "set_item (PDict d) k v = Inr (PDict (AList.update k v d))"
| "set_item (PList xs) (KInt i) v =
     (case list_index xs i of None \<Rightarrow> Inl IndexError | Some j \<Rightarrow> Inr (PList (xs[j := v])))"
| "set_item _ _ _ = Inl bad_key"

lemma size_snd_last: "d \<noteq> [] \<Longrightarrow> size (snd (last d)) < size (PDict d)"
proof -
  assume "d \<noteq> []"
  then have "last d \<in> set d" by simp
  then have "size_prod (\<lambda>_. 0) size (last d) \<le> size_list (size_prod (\<lambda>_. 0) size) d"
    by (intro size_list_estimation') auto
  moreover have "size (snd (last d)) \<le> size_prod (\<lambda>_. 0) size (last d)" by (cases "last d") simp
  ultimately show ?thesis by simp
qed

text \<open>
  One pair: the walk down while the key is present and the value is a dict, then the insertion.
  \<open>popitem\<close> takes the only item of the pair's dict; of an empty one it raises.
\<close>

function merge :: "pyval \<Rightarrow> pykey \<Rightarrow> pyval \<Rightarrow> pyval result" where
  "merge container k v =
     bind_result (key_in k container)
       (\<lambda>present.
          if present then
            (case v of
               PDict d \<Rightarrow>
                 bind_result (get_item container k)
                   (\<lambda>child. if d = [] then Inl (KeyError ''popitem(): dictionary is empty'')
                            else bind_result (merge child (fst (last d)) (snd (last d)))
                                   (\<lambda>child'. set_item container k child'))
             | _ \<Rightarrow>
                 bind_result (get_item container k)
                   (\<lambda>old. set_item container k
                      (case old of PList xs \<Rightarrow> PList (xs @ [v]) | _ \<Rightarrow> PList [old, v])))
          else set_item container k v)"
  by pat_completeness auto

termination
  by (relation "measure (\<lambda>(_, _, v). size v)") (auto dest: size_snd_last simp: split_beta)

declare merge.simps [simp del]

fun merge_pairs :: "pyval \<Rightarrow> (string \<times> string) list \<Rightarrow> pyval result" where
  "merge_pairs q [] = Inr q"
| "merge_pairs q ((key, val) # rest) =
     bind_result (parser_helper key val)
       (\<lambda>di. if di = [] then Inl (KeyError ''popitem(): dictionary is empty'')
             else bind_result (merge q (fst (last di)) (snd (last di))) (\<lambda>q'. merge_pairs q' rest))"

subsection \<open>Normalisation\<close>

lemma mapr_cong [fundef_cong]:
  "xs = ys \<Longrightarrow> (\<And>x. x \<in> set ys \<Longrightarrow> f x = g x) \<Longrightarrow> mapr f xs = mapr g ys"
proof -
  have "(\<And>x. x \<in> set ys \<Longrightarrow> f x = g x) \<Longrightarrow> mapr f ys = mapr g ys" by (induction ys) auto
  then show "xs = ys \<Longrightarrow> (\<And>x. x \<in> set ys \<Longrightarrow> f x = g x) \<Longrightarrow> mapr f xs = mapr g ys" by simp
qed

text \<open>The values of a dict are smaller than it.\<close>

lemma size_item: "p \<in> set d \<Longrightarrow> size (snd p) < size_list (size_prod (\<lambda>_. 0) size) d"
proof -
  assume "p \<in> set d"
  then have "size_prod (\<lambda>_. 0) size p \<le> size_list (size_prod (\<lambda>_. 0) size) d"
    by (rule size_list_estimation') simp
  then show ?thesis by (cases p) simp
qed

lemma size_nested:
  "p \<in> set d \<Longrightarrow> snd p = PDict e \<Longrightarrow> size_list (size_prod (\<lambda>_. 0) size) e < size_list (size_prod (\<lambda>_. 0) size) d"
  using size_item [of p d] by simp

function normalize :: "pyval \<Rightarrow> pyval result" where
  "normalize v =
     (case v of
        PDict d \<Rightarrow>
          bind_result
            (mapr (\<lambda>kv. case snd kv of
                 PDict e \<Rightarrow>
                   (case e of
                      [] \<Rightarrow> Inl (RuntimeError ''StopIteration'')
                    | (KInt i, x) # rest \<Rightarrow> bind_result (mapr normalize (map snd e)) (\<lambda>xs. Inr (fst kv, PList xs))
                    | (KStr s, x) # rest \<Rightarrow>
                        if s = [] then Inr (fst kv, x)
                        else bind_result (normalize (PDict e)) (\<lambda>y. Inr (fst kv, y)))
               | x \<Rightarrow> Inr (fst kv, x)) d)
            (\<lambda>items. Inr (PDict items))
      | _ \<Rightarrow> Inr v)"
  by pat_completeness auto
termination
proof (relation "measure size", goal_cases)
  case (2 v d p e x xs k y s)
  then show ?case using size_item [of p d] by simp
next
  case (3 v d p e x xs k y i z)
  then obtain q where q: "q \<in> set e" "z = snd q" by auto
  have "size z < size_list (size_prod (\<lambda>_. 0) size) e" using size_item [OF q(1)] q(2) by simp
  moreover have "size_list (size_prod (\<lambda>_. 0) size) e < size_list (size_prod (\<lambda>_. 0) size) d"
    using 3 by (intro size_nested) simp_all
  ultimately show ?case using 3 by simp
qed simp

declare normalize.simps [simp del]

definition parse_query :: "(string \<Rightarrow> string) \<Rightarrow> string \<Rightarrow> pyval result" where
  "parse_query unquote query_string =
     (if query_string = [] then Inr (PDict [])
      else bind_result (merge_pairs (PDict []) (parse_qsl unquote query_string)) normalize)"

end
