(* ===== verification/Check_Base.thy ===== *)
theory Check_Base
  imports Dataclass_Fields
begin

section \<open>Health checks: validation, registry, construction\<close>

text \<open>
  \<open>monitor/check/base.py\<close> and the field declarations and \<open>__post_init__\<close> methods of the six check types
  in \<open>monitor/check/\<close>. A constructed check is a \<open>check\<close>: the base fields and the fields of its type.
  \<open>check_env\<close> holds what is not in the repository: \<open>netaddr.IPAddress\<close> and \<open>re.compile\<close> as
  predicates (the validator accepts the text), and
  \<open>urlsplit\<close>, whose \<open>port\<close> may raise when it is read, with \<open>urlunsplit\<close> (of a path and a query).
\<close>

subsection \<open>Parameters\<close>

record url_parts =
  u_scheme :: string
  u_netloc :: string
  u_hostname :: "string option"
  u_port :: "int option result"
  u_path :: string
  u_query :: string

record check_env =
  ce_ip_ok :: "string \<Rightarrow> bool"
  ce_regex_ok :: "string \<Rightarrow> bool"
  ce_urlsplit :: "string \<Rightarrow> url_parts result"
  ce_urlunsplit :: "string \<Rightarrow> string \<Rightarrow> string"

subsection \<open>Field validators\<close>

definition check_validate_port :: "int \<Rightarrow> unit result" where
  "check_validate_port value = (if \<not> (1 \<le> value \<and> value \<le> 65535) then Inl (ValueError ''out of range'') else Inr ())"

definition check_validate_positive :: "int \<Rightarrow> unit result" where
  "check_validate_positive value = (if value < 1 then Inl (ValueError ''not positive'') else Inr ())"

definition positive_field :: "string \<Rightarrow> int \<Rightarrow> field_spec" where
  "positive_field name dflt =
     \<lparr>f_name = name, f_type = TInt, f_valid = (\<lambda>v. returns (check_validate_positive (int_of v))),
      f_default = Some (PInt dflt)\<rparr>"

definition port_field :: "string \<Rightarrow> field_spec" where
  "port_field name =
     \<lparr>f_name = name, f_type = TInt, f_valid = (\<lambda>v. returns (check_validate_port (int_of v))), f_default = None\<rparr>"

definition ip_field :: "check_env \<Rightarrow> string \<Rightarrow> field_spec" where
  "ip_field env name =
     \<lparr>f_name = name, f_type = TStr, f_valid = (\<lambda>v. ce_ip_ok env (str_of v)), f_default = None\<rparr>"

definition regex_field :: "check_env \<Rightarrow> string \<Rightarrow> field_spec" where
  "regex_field env name =
     \<lparr>f_name = name, f_type = TStr, f_valid = (\<lambda>v. ce_regex_ok env (str_of v)), f_default = Some (PStr [])\<rparr>"

definition plain_field :: "string \<Rightarrow> field_type \<Rightarrow> pyval option \<Rightarrow> field_spec" where
  "plain_field name t dflt = \<lparr>f_name = name, f_type = t, f_valid = (\<lambda>_. True), f_default = dflt\<rparr>"

subsection \<open>The check types\<close>

text \<open>\<open>HttpCheck\<close> carries the parsed \<open>_expected_statuses\<close> besides its fields.\<close>

datatype check_kind =
    NoCheck
  | IcmpCheck (icmp_ip: string)
  | TcpCheck (tcp_ip: string) (tcp_port: int)
  | TlsCheck (tls_ip: string) (tls_port: int) (tls_verify: bool) (tls_host: string)
  | HttpCheck (http_url: string) (http_method: string) (http_expected_status: string)
      (http_body_match: string) (http_tls_verify: bool) (http_host: string) (http_expected_statuses: "int list")
  | ExecCheck (exec_args: "string list") (exec_expected_code: int) (exec_output_match: string)
      (exec_redirect_error: bool)

record check =
  ck_interval :: int
  ck_timeout :: int
  ck_fall :: int
  ck_rise :: int
  ck_kind :: check_kind

definition base_fields :: "field_spec list" where
  "base_fields = [positive_field ''interval'' 3, positive_field ''timeout'' 1,
                  positive_field ''fall'' 3, positive_field ''rise'' 5]"

definition check_registry :: "check_env \<Rightarrow> string \<Rightarrow> field_spec list option" where
  "check_registry env t =
     map_option (\<lambda>own. base_fields @ own)
       (map_of
         [(''none'', []),
          (''icmp'', [ip_field env ''ip'']),
          (''tcp'', [ip_field env ''ip'', port_field ''port'']),
          (''tls'', [ip_field env ''ip'', port_field ''port'',
                     plain_field ''tls_verify'' TBool (Some (PBool True)),
                     plain_field ''host'' TStr (Some (PStr []))]),
          (''http'', [plain_field ''url'' TStr None,
                      plain_field ''method'' TStr (Some (PStr ''GET'')),
                      plain_field ''expected_status'' TStr (Some (PStr ''200-399'')),
                      regex_field env ''body_match'',
                      plain_field ''tls_verify'' TBool (Some (PBool True)),
                      plain_field ''host'' TStr (Some (PStr []))]),
          (''exec'', [plain_field ''args'' TList None,
                      plain_field ''expected_code'' TInt (Some (PInt 0)),
                      regex_field env ''output_match'',
                      plain_field ''redirect_error'' TBool (Some (PBool True))])] t)"

text \<open>The class attribute \<open>skip\<close>.\<close>

definition check_skip :: "check \<Rightarrow> bool" where
  "check_skip c = (ck_kind c = NoCheck)"

subsection \<open>The http status specification\<close>

definition status_invalid :: py_error where
  "status_invalid = invalid_parameter ''check'' ''expected_status''"

text \<open>The bounds of one token: \<open>int(low)\<close> and \<open>int(high if sep else low)\<close>.\<close>

definition status_bounds :: "string \<Rightarrow> (int \<times> int) result" where
  "status_bounds token =
     (let (low, sep, high) = str_partition (CHR ''-'') (strip token)
      in case int_literal low of
           None \<Rightarrow> Inl status_invalid
         | Some l \<Rightarrow> (case int_literal (if sep then high else low) of
                        None \<Rightarrow> Inl status_invalid
                      | Some h \<Rightarrow> if h < l \<or> l < 100 \<or> 599 < h then Inl status_invalid else Inr (l, h)))"

definition parse_status_spec :: "string \<Rightarrow> int list result" where
  "parse_status_spec spec =
     foldr_result (\<lambda>statuses token. bind_result (status_bounds token) (\<lambda>(l, h). Inr (statuses @ [l..h])))
       [] (split_on (CHR '','') spec)"

subsection \<open>Construction\<close>

text \<open>The type's own \<open>__post_init__\<close>, after the base's, on the field values.\<close>

definition post_init_http :: "check_env \<Rightarrow> (string \<Rightarrow> pyval) \<Rightarrow> check_kind result" where
  "post_init_http env val =
     (let url = str_of (val ''url''); meth = str_of (val ''method''); body_match = str_of (val ''body_match'')
      in bind_result (ce_urlsplit env url)
           (\<lambda>parts.
              if u_scheme parts \<notin> {''http'', ''https''} \<or> u_netloc parts = []
              then Inl (invalid_parameter ''check'' ''url'')
              else bind_result (parse_status_spec (str_of (val ''expected_status'')))
                (\<lambda>statuses.
                   if meth \<notin> {''GET'', ''HEAD''} then Inl (ValueError ''check parameter 'method' unsupported'')
                   else if meth = ''HEAD'' \<and> body_match \<noteq> []
                   then Inl (ValueError ''check parameter 'body_match' unsupported for HEAD requests'')
                   else Inr (HttpCheck url meth (str_of (val ''expected_status'')) body_match
                          (bool_of (val ''tls_verify'')) (str_of (val ''host'')) statuses))))"

definition post_init_exec :: "(string \<Rightarrow> pyval) \<Rightarrow> check_kind result" where
  "post_init_exec val =
     (let args = list_of (val ''args''); expected_code = int_of (val ''expected_code'')
      in if args = [] \<or> \<not> list_all is_str args then Inl (invalid_parameter ''check'' ''args'')
         else if \<not> (0 \<le> expected_code \<and> expected_code \<le> 255)
         then Inl (invalid_parameter ''check'' ''expected_code'')
         else Inr (ExecCheck (map str_of args) expected_code (str_of (val ''output_match''))
                (bool_of (val ''redirect_error''))))"

definition build_kind :: "check_env \<Rightarrow> string \<Rightarrow> (string \<Rightarrow> pyval) \<Rightarrow> check_kind result" where
  "build_kind env t val =
     (if t = ''http'' then post_init_http env val
      else if t = ''exec'' then post_init_exec val
      else if t = ''icmp'' then Inr (IcmpCheck (str_of (val ''ip'')))
      else if t = ''tcp'' then Inr (TcpCheck (str_of (val ''ip'')) (int_of (val ''port'')))
      else if t = ''tls'' then Inr (TlsCheck (str_of (val ''ip'')) (int_of (val ''port''))
             (bool_of (val ''tls_verify'')) (str_of (val ''host'')))
      else Inr NoCheck)"

definition check_create :: "check_env \<Rightarrow> (string \<times> pyval) list \<Rightarrow> check result" where
  "check_create env check_spec =
     bind_result (create_fields ''check'' (check_registry env) check_spec)
       (\<lambda>(t, val).
          (let interval = int_of (val ''interval''); timeout = int_of (val ''timeout'')
           in bind_result (build_kind env t val)
                (\<lambda>kind. Inr \<lparr>ck_interval = interval,
                             ck_timeout = (if interval < timeout then interval else timeout),
                             ck_fall = int_of (val ''fall''), ck_rise = int_of (val ''rise''),
                             ck_kind = kind\<rparr>)))"

end
