(* ===== verification/Config.thy ===== *)
theory Config
  imports Py_Strings
begin

section \<open>Configuration with environment overrides\<close>

text \<open>
  \<open>system/config.py\<close>. A parsed TOML document is its top-level items in order (\<open>tomllib.load\<close> is a
  parameter of the program: the documents are given); the environment is an association list. \<open>float(s)\<close>
  is the parameter \<open>py_float\<close>, mantissa and decimal exponent; error messages leave out the \<open>repr\<close> of the value. A \<open>_Section\<close> is its dict; the config and
  the section name it holds are arguments of its operations.
\<close>

type_synonym config_data = "(string \<times> (string \<times> pyval) list) list"
type_synonym environ = "(string \<times> string) list"

subsection \<open>Coercion\<close>

text \<open>\<open>type(current)(value)\<close> on a string, for the types TOML has; \<open>None\<close> is a \<open>ValueError\<close>.\<close>

fun convert_as :: "(string \<Rightarrow> (int \<times> int) option) \<Rightarrow> pyval \<Rightarrow> string \<Rightarrow> pyval option" where
  "convert_as py_float (PInt _) s = map_option PInt (int_literal s)"
| "convert_as py_float (PFloat _ _) s = map_option (\<lambda>(m, e). PFloat m e) (py_float s)"
| "convert_as py_float (PList _) s = Some (PList (map (\<lambda>c. PStr [c]) s))"
| "convert_as py_float (PDict _) s = (if s = [] then Some (PDict []) else None)"
| "convert_as py_float v s = Some (PStr s)"

fun type_name :: "pyval \<Rightarrow> string" where
  "type_name PNone = ''NoneType''"
| "type_name (PBool _) = ''bool''"
| "type_name (PInt _) = ''int''"
| "type_name (PFloat _ _) = ''float''"
| "type_name (PStr _) = ''str''"
| "type_name (PList _) = ''list''"
| "type_name (PDict _) = ''dict''"

definition coerce_env ::
    "(string \<Rightarrow> (int \<times> int) option) \<Rightarrow> pyval \<Rightarrow> pyval \<Rightarrow> string \<Rightarrow> pyval result" where
  "coerce_env py_float val current name =
     (if is_str val \<and> \<not> is_str current then
        (case current of
           PBool _ \<Rightarrow> Inr (PBool (str_lower (strip (str_of val)) \<in> {''1'', ''true'', ''yes'', ''on''}))
         | PNone \<Rightarrow> Inr val
         | _ \<Rightarrow> (case convert_as py_float current (str_of val) of
                   Some v \<Rightarrow> Inr v
                 | None \<Rightarrow> Inl (ValueError ((if name \<noteq> [] then name @ '' value'' else ''value'')
                             @ '' is not a valid '' @ type_name current))))
      else Inr val)"

subsection \<open>Loading\<close>

text \<open>\<open>d.update(options)\<close>: each item in order; a non-table raises.\<close>

definition dict_update :: "('k \<times> 'v) list \<Rightarrow> ('k \<times> 'v) list \<Rightarrow> ('k \<times> 'v) list" where
  "dict_update d options = foldl (\<lambda>d (k, v). AList.update k v d) d options"

definition load_section :: "config_data \<Rightarrow> string \<times> pyval \<Rightarrow> config_data result" where
  "load_section data = (\<lambda>(section, options).
     case options of
       PDict d \<Rightarrow> Inr (AList.update section
                         (dict_update (case map_of data section of None \<Rightarrow> [] | Some t \<Rightarrow> t) (str_items d)) data)
     | _ \<Rightarrow> Inl (TypeError ''object is not iterable''))"

definition config_load :: "(string \<times> pyval) list list \<Rightarrow> config_data result" where
  "config_load documents = foldr_result (foldr_result load_section) [] documents"

subsection \<open>Access\<close>

definition config_env_key :: "string \<Rightarrow> string \<Rightarrow> string" where
  "config_env_key section option = str_upper (''POWERGSLB_'' @ section @ ''_'' @ option)"

definition config_raw :: "config_data \<Rightarrow> string \<Rightarrow> string \<Rightarrow> pyval \<Rightarrow> pyval" where
  "config_raw data section option dflt =
     (case map_of data section of
        None \<Rightarrow> dflt
      | Some t \<Rightarrow> (case map_of t option of None \<Rightarrow> dflt | Some v \<Rightarrow> v))"

definition config_get ::
    "(string \<Rightarrow> (int \<times> int) option) \<Rightarrow> environ \<Rightarrow> config_data \<Rightarrow> string \<Rightarrow> string \<Rightarrow> pyval \<Rightarrow> pyval result" where
  "config_get py_float environ data section option dflt =
     (let val = config_raw data section option dflt; env_key = config_env_key section option
      in case map_of environ env_key of
           Some s \<Rightarrow> coerce_env py_float (PStr s) val env_key
         | None \<Rightarrow> Inr val)"

text \<open>The option names of a section; a Python set, listed here in order of first occurrence.\<close>

definition section_options :: "environ \<Rightarrow> config_data \<Rightarrow> string \<Rightarrow> string list" where
  "section_options environ data section =
     (let prefix = str_upper (''POWERGSLB_'' @ section @ ''_'')
      in remdups ((case map_of data section of None \<Rightarrow> [] | Some t \<Rightarrow> map fst t)
           @ map (\<lambda>k. str_lower (drop (length prefix) k)) (filter (starts_with prefix) (map fst environ))))"

definition config_items ::
    "(string \<Rightarrow> (int \<times> int) option) \<Rightarrow> environ \<Rightarrow> config_data \<Rightarrow> string \<Rightarrow> (string \<times> pyval) list result" where
  "config_items py_float environ data section =
     mapr (\<lambda>option. bind_result (config_get py_float environ data section option PNone) (\<lambda>v. Inr (option, v)))
       (section_options environ data section)"

definition section_get ::
    "(string \<Rightarrow> (int \<times> int) option) \<Rightarrow> environ \<Rightarrow> config_data \<Rightarrow> string \<Rightarrow> string \<Rightarrow> pyval \<Rightarrow> pyval result" where
  "section_get py_float environ data section option dflt = config_get py_float environ data section option dflt"

text \<open>\<open>pop\<close> returns the value and the remaining dict.\<close>

definition section_pop ::
    "(string \<Rightarrow> (int \<times> int) option) \<Rightarrow> environ \<Rightarrow> config_data \<Rightarrow> string \<Rightarrow> string \<Rightarrow> pyval
       \<Rightarrow> (string \<times> pyval) list \<Rightarrow> (pyval \<times> (string \<times> pyval) list) result" where
  "section_pop py_float environ data section option dflt d =
     bind_result (config_get py_float environ data section option dflt) (\<lambda>v. Inr (v, AList.delete option d))"

end
