(* ===== verification/Check_Execute.thy ===== *)
theory Check_Execute
  imports Check_Base Config
begin

section \<open>Running a check\<close>

text \<open>
  The \<open>execute\<close> methods of \<open>monitor/check/\<close> and \<open>Check.configure\<close>. The network, the process and the
  clock are traces: a loop consumes one event per iteration, holding what the clock, the selector and
  the read gave, and has no result when the trace ends first (\<open>None\<close>). The operations of other packages
  (\<open>ping\<close>, \<open>create_connection\<close>, \<open>wrap_socket\<close>, \<open>re.search\<close>, the HTTP exchange, the process) are
  the parameters of \<open>check_world\<close>; \<open>Inl\<close> is the exception one raises.
\<close>

subsection \<open>Options of the check classes\<close>

text \<open>
  The tunable class attributes \<open>_config_options\<close> finds, as \<open><type>_<option>\<close> with their values; the
  \<open>execute\<close> methods below expect each to have the type of its default.
\<close>

type_synonym check_options = "(string \<times> pyval) list"

definition default_options :: "string \<Rightarrow> check_options" where
  "default_options version =
     [(''exec_output_chunk'', PInt 65536), (''http_body_chunk'', PInt 65536),
      (''http_user_agent'', PStr (''PowerGSLB/'' @ version)), (''icmp_privileged'', PBool True)]"

text \<open>The new attributes, and the unknown options, which are logged.\<close>

definition check_configure ::
    "(string \<Rightarrow> (int \<times> int) option) \<Rightarrow> (string \<times> pyval) list \<Rightarrow> check_options
       \<Rightarrow> (check_options \<times> string list) result" where
  "check_configure py_float options opts =
     bind_result
       (mapr (\<lambda>(key, current).
          case map_of options key of
            None \<Rightarrow> Inr (key, current)
          | Some v \<Rightarrow> bind_result (coerce_env py_float v current key) (\<lambda>w. Inr (key, w))) opts)
       (\<lambda>opts'. Inr (opts', filter (\<lambda>key. key \<notin> fst ` set opts) (map fst options)))"

definition option_value :: "check_options \<Rightarrow> string \<Rightarrow> pyval" where
  "option_value opts key = (case map_of opts key of None \<Rightarrow> PNone | Some v \<Rightarrow> v)"

subsection \<open>Reading with a deadline\<close>

text \<open>One iteration of \<open>_read_output\<close>: time left, whether the selector fired, the bytes read.\<close>

record exec_event =
  x_remaining :: int
  x_ready :: bool
  x_chunk :: "nat list"

fun read_output :: "nat \<Rightarrow> nat list \<Rightarrow> exec_event list \<Rightarrow> (nat list \<times> bool) option" where
  "read_output output_chunk output [] = None"
| "read_output output_chunk output (x # xs) =
     (if x_remaining x \<le> 0 \<or> \<not> x_ready x then Some (output, True)
      else if x_chunk x = [] then Some (output, False)
      else read_output output_chunk
             (if length output < output_chunk
              then output @ take (output_chunk - length output) (x_chunk x) else output) xs)"

text \<open>
  One iteration of \<open>_read_body\<close>: whether the deadline has passed, and what \<open>read1(n)\<close> does when
  it is asked for at most \<open>n\<close> bytes.
\<close>

datatype read1 = Chunk "nat list" | TimedOut | Raises py_error

record http_event =
  h_late :: bool
  h_read1 :: "nat \<Rightarrow> read1"

fun read_body_loop :: "nat \<Rightarrow> nat list \<Rightarrow> http_event list \<Rightarrow> (nat list \<times> bool) result option" where
  "read_body_loop body_chunk body [] = (if length body < body_chunk then None else Some (Inr (body, False)))"
| "read_body_loop body_chunk body (x # xs) =
     (if length body < body_chunk then
        (if h_late x then Some (Inr (body, True))
         else (case h_read1 x (body_chunk - length body) of
                 TimedOut \<Rightarrow> Some (Inr (body, True))
               | Raises e \<Rightarrow> Some (Inl e)
               | Chunk c \<Rightarrow> if c = [] then Some (Inr (body, False))
                            else read_body_loop body_chunk (body @ c) xs))
      else Some (Inr (body, False)))"

definition read_body :: "string \<Rightarrow> nat \<Rightarrow> http_event list \<Rightarrow> (nat list \<times> bool) result option" where
  "read_body meth body_chunk xs =
     (if meth \<noteq> ''GET'' then Some (Inr ([], False)) else read_body_loop body_chunk [] xs)"

subsection \<open>The verdicts\<close>

record http_request =
  q_https :: bool
  q_verify :: bool
  q_hostname :: string
  q_port :: "int option"
  q_method :: string
  q_target :: string
  q_headers :: "(string \<times> string) list"

record check_world =
  w_ping :: "string \<Rightarrow> int \<Rightarrow> bool \<Rightarrow> bool result"
  w_connect :: "string \<Rightarrow> int \<Rightarrow> int \<Rightarrow> unit result"
  w_handshake :: "bool \<Rightarrow> string \<Rightarrow> unit result"
  w_search :: "string \<Rightarrow> nat list \<Rightarrow> bool"
  w_http :: "http_request \<Rightarrow> int \<Rightarrow> (int \<times> http_event list) result"
  w_exec :: "string list \<Rightarrow> bool \<Rightarrow> (exec_event list \<times> int option) result"

text \<open>The request of a check, or what building the connection raises.\<close>

definition http_request_of :: "check_env \<Rightarrow> check_options \<Rightarrow> string \<Rightarrow> string \<Rightarrow> bool \<Rightarrow> string \<Rightarrow> http_request result" where
  "http_request_of env opts url meth verify host =
     bind_result (ce_urlsplit env url) (\<lambda>parts.
       case u_hostname parts of
         None \<Rightarrow> Inl AssertionError
       | Some hostname \<Rightarrow> bind_result (u_port parts) (\<lambda>port. Inr
           \<lparr>q_https = (u_scheme parts = ''https''), q_verify = verify, q_hostname = hostname, q_port = port,
            q_method = meth,
            q_target = ce_urlunsplit env (if u_path parts = [] then ''/'' else u_path parts) (u_query parts),
            q_headers = (''User-Agent'', str_of (option_value opts ''http_user_agent''))
                        # (if host = [] then [] else [(''Host'', host)])\<rparr>))"

definition http_execute ::
    "check_env \<Rightarrow> check_options \<Rightarrow> check_world \<Rightarrow> check \<Rightarrow> bool result option" where
  "http_execute env opts world c =
     (case ck_kind c of
        HttpCheck url meth expected body_match verify host statuses \<Rightarrow>
          (case bind_result (http_request_of env opts url meth verify host) (\<lambda>request. w_http world request (ck_timeout c)) of
             Inl e \<Rightarrow> Some (Inl e)
           | Inr (status, events) \<Rightarrow>
               (case read_body meth (nat (int_of (option_value opts ''http_body_chunk''))) events of
                  None \<Rightarrow> None
                | Some (Inl e) \<Rightarrow> Some (Inl e)
                | Some (Inr (body, timed_out)) \<Rightarrow>
                    Some (Inr (if timed_out then False
                               else if status \<notin> set statuses then False
                               else if body_match = [] then True
                               else w_search world body_match body))))
      | _ \<Rightarrow> Some (Inl AttributeError))"

text \<open>The second component of \<open>w_exec\<close> is the exit code, or \<open>None\<close> when \<open>wait\<close> times out.\<close>

definition exec_execute :: "check_options \<Rightarrow> check_world \<Rightarrow> check \<Rightarrow> bool result option" where
  "exec_execute opts world c =
     (case ck_kind c of
        ExecCheck args expected_code output_match redirect \<Rightarrow>
          (case w_exec world args redirect of
             Inl e \<Rightarrow> Some (Inl e)
           | Inr (events, wait) \<Rightarrow>
               (case read_output (nat (int_of (option_value opts ''exec_output_chunk''))) [] events of
                  None \<Rightarrow> None
                | Some (output, timed_out) \<Rightarrow>
                    Some (Inr (if timed_out then False
                               else (case wait of
                                       None \<Rightarrow> False
                                     | Some excode \<Rightarrow>
                                         if excode \<noteq> expected_code then False
                                         else if output_match = [] then True
                                         else w_search world output_match output)))))
      | _ \<Rightarrow> Some (Inl AttributeError))"

definition icmp_execute :: "check_options \<Rightarrow> check_world \<Rightarrow> int \<Rightarrow> string \<Rightarrow> bool result" where
  "icmp_execute opts world timeout ip = w_ping world ip timeout (bool_of (option_value opts ''icmp_privileged''))"

definition tcp_execute :: "check_world \<Rightarrow> int \<Rightarrow> string \<Rightarrow> int \<Rightarrow> bool result" where
  "tcp_execute world timeout ip port = bind_result (w_connect world ip port timeout) (\<lambda>_. Inr True)"

definition tls_execute :: "check_world \<Rightarrow> int \<Rightarrow> string \<Rightarrow> int \<Rightarrow> bool \<Rightarrow> string \<Rightarrow> bool result" where
  "tls_execute world timeout ip port verify host =
     (let server_hostname = (if host \<noteq> [] then host else ip)
      in bind_result (w_connect world ip port timeout)
           (\<lambda>_. bind_result (w_handshake world verify server_hostname) (\<lambda>_. Inr True)))"

definition check_execute ::
    "check_env \<Rightarrow> check_options \<Rightarrow> check_world \<Rightarrow> check \<Rightarrow> bool result option" where
  "check_execute env opts world c =
     (case ck_kind c of
        NoCheck \<Rightarrow> Some (Inr True)
      | IcmpCheck ip \<Rightarrow> Some (icmp_execute opts world (ck_timeout c) ip)
      | TcpCheck ip port \<Rightarrow> Some (tcp_execute world (ck_timeout c) ip port)
      | TlsCheck ip port verify host \<Rightarrow> Some (tls_execute world (ck_timeout c) ip port verify host)
      | HttpCheck _ _ _ _ _ _ _ \<Rightarrow> http_execute env opts world c
      | ExecCheck _ _ _ _ \<Rightarrow> exec_execute opts world c)"

end
