(* ===== verification/Check_Thread.thy ===== *)
theory Check_Thread
  imports Check_Execute Status_Registry
begin

section \<open>Check threads\<close>

text \<open>
  \<open>monitor/check/thread.py\<close>: the fall/rise debounce of one check, over the shared status registry. A
  run of the check is its outcome: what \<open>execute\<close> returned or raised.
\<close>

record check_thread =
  ct_check :: check
  ct_content_id :: int
  ct_fall :: nat
  ct_rise :: nat

definition check_thread_init :: "check \<Rightarrow> int \<Rightarrow> check_thread" where
  "check_thread_init c content_id = \<lparr>ct_check = c, ct_content_id = content_id, ct_fall = 0, ct_rise = 0\<rparr>"

definition check_fall :: "check_thread \<Rightarrow> status_registry \<Rightarrow> check_thread \<times> status_registry" where
  "check_fall t status =
     (let t' = t\<lparr>ct_fall := Suc (ct_fall t), ct_rise := 0\<rparr>
      in (t', if ck_fall (ct_check t) \<le> int (ct_fall t') \<and> \<not> writer_is_down (ct_content_id t) status
              then writer_set_down (ct_content_id t) status else status))"

definition check_rise :: "check_thread \<Rightarrow> status_registry \<Rightarrow> check_thread \<times> status_registry" where
  "check_rise t status =
     (let t' = t\<lparr>ct_fall := 0, ct_rise := Suc (ct_rise t)\<rparr>
      in (t', if ck_rise (ct_check t) \<le> int (ct_rise t') \<and> writer_is_down (ct_content_id t) status
              then writer_set_up (ct_content_id t) status else status))"

definition check_task :: "bool result \<Rightarrow> check_thread \<Rightarrow> status_registry \<Rightarrow> check_thread \<times> status_registry" where
  "check_task outcome t status =
     (case outcome of
        Inr healthy \<Rightarrow> if healthy then check_rise t status else check_fall t status
      | Inl _ \<Rightarrow> check_fall t status)"

fun check_tasks :: "bool result list \<Rightarrow> check_thread \<Rightarrow> status_registry \<Rightarrow> check_thread \<times> status_registry" where
  "check_tasks [] t status = (t, status)"
| "check_tasks (x # xs) t status = (let (t', status') = check_task x t status in check_tasks xs t' status')"

subsection \<open>Trailing runs\<close>

definition healthy :: "bool result \<Rightarrow> bool" where
  "healthy x \<longleftrightarrow> x = Inr True"

definition trailing :: "('a \<Rightarrow> bool) \<Rightarrow> 'a list \<Rightarrow> nat" where
  "trailing P xs = length (takeWhile P (rev xs))"

lemma trailing_simps [simp]:
  "trailing P [] = 0"
  "trailing P (xs @ [x]) = (if P x then Suc (trailing P xs) else 0)"
  by (simp_all add: trailing_def)

text \<open>The specification of the debounce, from the outcomes alone.\<close>

fun debounced :: "int \<Rightarrow> int \<Rightarrow> bool \<Rightarrow> bool result list \<Rightarrow> bool" where
  "debounced fall rise down [] = down"
| "debounced fall rise down (x # xs) =
     (let outcomes = rev (x # xs)
      in if \<not> healthy x \<and> fall \<le> int (trailing (\<lambda>y. \<not> healthy y) outcomes) then True
         else if healthy x \<and> rise \<le> int (trailing healthy outcomes) then False
         else debounced fall rise down xs)"

lemma check_task_cases:
  "check_task x t status = (if healthy x then check_rise t status else check_fall t status)"
  by (auto simp: check_task_def healthy_def split: sum.split)

lemma check_tasks_append:
  "check_tasks (xs @ ys) t status = (let (t', status') = check_tasks xs t status in check_tasks ys t' status')"
  by (induction xs arbitrary: t status) (auto split: prod.split)

lemma check_tasks_correct:
  "\<exists>status'. check_tasks xs (check_thread_init c i) status =
      ((check_thread_init c i)\<lparr>ct_fall := trailing (\<lambda>y. \<not> healthy y) xs, ct_rise := trailing healthy xs\<rparr>, status')
    \<and> (i \<in> status' \<longleftrightarrow> debounced (ck_fall c) (ck_rise c) (i \<in> status) (rev xs))
    \<and> (\<forall>j. j \<noteq> i \<longrightarrow> (j \<in> status' \<longleftrightarrow> j \<in> status))"
proof (induction xs rule: rev_induct)
  case Nil
  then show ?case by (simp add: check_thread_init_def)
next
  case (snoc x xs)
  then obtain status' where s: "check_tasks xs (check_thread_init c i) status =
      ((check_thread_init c i)\<lparr>ct_fall := trailing (\<lambda>y. \<not> healthy y) xs, ct_rise := trailing healthy xs\<rparr>, status')"
    "i \<in> status' \<longleftrightarrow> debounced (ck_fall c) (ck_rise c) (i \<in> status) (rev xs)"
    "\<forall>j. j \<noteq> i \<longrightarrow> (j \<in> status' \<longleftrightarrow> j \<in> status)" by blast
  show ?case
  proof (cases "healthy x")
    case True
    with s show ?thesis
      by (simp add: check_tasks_append check_task_cases check_rise_def check_thread_init_def Let_def)
  next
    case False
    with s show ?thesis
      by (simp add: check_tasks_append check_task_cases check_fall_def check_thread_init_def Let_def)
  qed
qed

end
