(* ===== verification/Monitor_Manager.thy ===== *)
theory Monitor_Manager
  imports Check_Thread
begin

section \<open>The monitor\<close>

text \<open>
  \<open>monitor/monitor.py\<close>: from the database rows to the desired checks, and from the desired checks to
  the running threads. A started thread is a \<open>check_thread\<close> with a serial number, its identity;
  \<open>alive\<close> is what \<open>is_alive()\<close> answers for a serial when it is asked. \<open>json.loads\<close> is the parameter
  \<open>loads\<close>. The database read is given as its rows or its exception.
\<close>

subsection \<open>Building a check\<close>

record raw_check =
  rc_id :: int
  rc_content :: string
  rc_monitor_json :: string

primrec substitute :: "string \<Rightarrow> string \<Rightarrow> pyval \<Rightarrow> pyval" where
  "substitute tok rep PNone = PNone"
| "substitute tok rep (PBool b) = PBool b"
| "substitute tok rep (PInt i) = PInt i"
| "substitute tok rep (PFloat m e) = PFloat m e"
| "substitute tok rep (PStr s) = PStr (str_replace tok rep s)"
| "substitute tok rep (PList xs) = PList (map (substitute tok rep) xs)"
| "substitute tok rep (PDict d) = PDict (map (map_prod id (substitute tok rep)) d)"

definition content_token :: string where
  "content_token = ''${content}''"

definition monitor_parse :: "(string \<Rightarrow> pyval result) \<Rightarrow> string \<Rightarrow> string \<Rightarrow> pyval result" where
  "monitor_parse loads content monitor_json =
     bind_result (loads monitor_json)
       (\<lambda>template. if \<not> is_dict template then Inl (ValueError ''monitor_json must be a JSON object'')
                   else Inr (substitute content_token content template))"

definition build_check ::
    "check_env \<Rightarrow> (string \<Rightarrow> pyval result) \<Rightarrow> string \<Rightarrow> string \<Rightarrow> check result" where
  "build_check env loads content monitor_json =
     bind_result (monitor_parse loads content monitor_json)
       (\<lambda>spec. case spec of PDict d \<Rightarrow> check_create env (str_items d) | _ \<Rightarrow> Inl AttributeError)"

text \<open>The loop of \<open>_desired_checks\<close>: a row that raises is logged and left out.\<close>

fun desired_loop ::
    "check_env \<Rightarrow> (string \<Rightarrow> pyval result) \<Rightarrow> (int \<times> check) list \<Rightarrow> raw_check list \<Rightarrow> (int \<times> check) list" where
  "desired_loop env loads desired [] = desired"
| "desired_loop env loads desired (raw # raws) =
     (case build_check env loads (rc_content raw) (rc_monitor_json raw) of
        Inl _ \<Rightarrow> desired_loop env loads desired raws
      | Inr c \<Rightarrow> desired_loop env loads (if check_skip c then desired else AList.update (rc_id raw) c desired) raws)"

definition desired_checks ::
    "check_env \<Rightarrow> (string \<Rightarrow> pyval result) \<Rightarrow> raw_check list result \<Rightarrow> (int \<times> check) list option result" where
  "desired_checks env loads rows =
     (case rows of
        Inl DatabaseError \<Rightarrow> Inr None
      | Inl e \<Rightarrow> Inl e
      | Inr raws \<Rightarrow> Inr (Some (desired_loop env loads [] raws)))"

subsection \<open>The state\<close>

record running =
  rn_thread :: check_thread
  rn_serial :: nat

record monitor =
  m_threads :: "(int \<times> running) list"
  m_next :: nat
  m_status :: status_registry

definition below_one :: "pyval \<Rightarrow> bool result" where
  "below_one v = (case v of
     PInt i \<Rightarrow> Inr (i < 1)
   | PBool b \<Rightarrow> Inr (\<not> b)
   | PFloat m e \<Rightarrow> Inr (if 0 \<le> e then m * 10 ^ nat e < 1 else m < 10 ^ nat (- e))
   | _ \<Rightarrow> Inl (TypeError ''not supported between instances''))"

text \<open>The constructor: the poll interval, the configured check options and the unknown ones, the state.\<close>

definition monitor_init ::
    "(string \<Rightarrow> (int \<times> int) option) \<Rightarrow> environ \<Rightarrow> config_data \<Rightarrow> (string \<times> pyval) list \<Rightarrow> check_options
       \<Rightarrow> status_registry \<Rightarrow> (pyval \<times> (check_options \<times> string list) \<times> monitor) result" where
  "monitor_init py_float environ data monitor_config opts status =
     bind_result (section_pop py_float environ data ''monitor'' ''update_interval'' (PInt 60) monitor_config)
       (\<lambda>(interval, rest).
          bind_result (below_one interval)
            (\<lambda>low. if low then Inl (ValueError ''update_interval must be >= 1'')
                   else bind_result (check_configure py_float rest opts)
                          (\<lambda>configured. Inr (interval, configured,
                             \<lparr>m_threads = [], m_next = 0, m_status = status\<rparr>))))"

subsection \<open>Stopping and starting\<close>

text \<open>\<open>_stop_threads\<close>: the threads signalled, and the shared join budget \<open>2 * timeout\<close>.\<close>

definition stop_threads :: "(nat \<Rightarrow> bool) \<Rightarrow> running list \<Rightarrow> running list \<times> int" where
  "stop_threads alive threads =
     (let alive_threads = filter (\<lambda>r. alive (rn_serial r)) threads
      in (alive_threads,
          2 * foldl (\<lambda>t r. max t (ck_timeout (ct_check (rn_thread r)))) 0 alive_threads))"

definition start_thread :: "int \<Rightarrow> check \<Rightarrow> monitor \<Rightarrow> monitor" where
  "start_thread content_id c m =
     m\<lparr>m_threads := AList.update content_id
          \<lparr>rn_thread = check_thread_init c content_id, rn_serial = m_next m\<rparr> (m_threads m),
       m_next := Suc (m_next m)\<rparr>"

subsection \<open>Reconciliation\<close>

text \<open>What the first loop decides for one running thread: stop it, and start a replacement.\<close>

definition to_stop :: "(nat \<Rightarrow> bool) \<Rightarrow> (int \<times> check) list \<Rightarrow> int \<times> running \<Rightarrow> bool" where
  "to_stop alive desired = (\<lambda>(content_id, r).
     case map_of desired content_id of
       None \<Rightarrow> True
     | Some c \<Rightarrow> \<not> alive (rn_serial r) \<or> ct_check (rn_thread r) \<noteq> c)"

definition replacements ::
    "(nat \<Rightarrow> bool) \<Rightarrow> (int \<times> check) list \<Rightarrow> (int \<times> running) list \<Rightarrow> (int \<times> check) list" where
  "replacements alive desired threads =
     List.map_filter (\<lambda>(content_id, r).
       case map_of desired content_id of
         None \<Rightarrow> None
       | Some c \<Rightarrow> if \<not> alive (rn_serial r) \<or> ct_check (rn_thread r) \<noteq> c then Some (content_id, c) else None) threads"

definition clean_status :: "int set \<Rightarrow> monitor \<Rightarrow> monitor" where
  "clean_status valid_ids m = m\<lparr>m_status := snd (registry_retain valid_ids (m_status m))\<rparr>"

definition reconcile ::
    "(nat \<Rightarrow> bool) \<Rightarrow> (nat \<Rightarrow> bool) \<Rightarrow> (int \<times> check) list \<Rightarrow> monitor \<Rightarrow> monitor \<times> (running list \<times> int)" where
  "reconcile alive alive' desired m =
     (let stops = map snd (filter (to_stop alive desired) (m_threads m));
          starts = replacements alive desired (m_threads m)
                   @ filter (\<lambda>(content_id, c). map_of (m_threads m) content_id = None) desired;
          stopped = stop_threads alive' stops;
          kept = foldl (\<lambda>ts r. AList.delete (ct_content_id (rn_thread r)) ts) (m_threads m) stops;
          m' = foldl (\<lambda>m (content_id, c). start_thread content_id c m) (m\<lparr>m_threads := kept\<rparr>) starts
      in (clean_status (fst ` set desired) m', stopped))"

text \<open>\<open>shutdown\<close> of the monitor signals every thread it holds.\<close>

definition monitor_shutdown :: "monitor \<Rightarrow> nat list" where
  "monitor_shutdown m = map (rn_serial \<circ> snd) (m_threads m)"

text \<open>\<open>task\<close>.\<close>

definition monitor_task ::
    "check_env \<Rightarrow> (string \<Rightarrow> pyval result) \<Rightarrow> (nat \<Rightarrow> bool) \<Rightarrow> (nat \<Rightarrow> bool) \<Rightarrow> raw_check list result
       \<Rightarrow> monitor \<Rightarrow> (monitor \<times> (running list \<times> int)) result" where
  "monitor_task env loads alive alive' rows m =
     bind_result (desired_checks env loads rows)
       (\<lambda>desired. case desired of
          None \<Rightarrow> Inr (m, ([], 0))
        | Some d \<Rightarrow> Inr (reconcile alive alive' d m))"

end
