(* ===== verification/Admin_Handler.thy ===== *)
theory Admin_Handler
  imports W2UI Query_Parser Monitor_Manager Routing View_Rule
begin

section \<open>The admin request handler\<close>

text \<open>
  \<open>server/http/handler/admin.py\<close>: authorization, the w2ui commands over the database and their replies.
  The static assets are in \<open>Admin_Static\<close>. A command is a computation over the database state; its reply is
  a JSON value. \<open>ad_basic\<close> decodes the base64 credentials to text, \<open>ad_decode\<close> the request body.
\<close>

record 's admin_env =
  ad_ex :: "'s executor"
  ad_tx :: "('s, int) db \<Rightarrow> ('s, int) db"
  ad_table :: table_env
  ad_check :: check_env
  ad_loads :: "string \<Rightarrow> pyval result"
  ad_parse_net :: "string \<Rightarrow> ip_network result"
  ad_unquote :: "string \<Rightarrow> string"
  ad_basic :: "string \<Rightarrow> string result"
  ad_decode :: "nat list \<Rightarrow> string result"

subsection \<open>Authorization\<close>

text \<open>\<open>scheme, credentials = header.split(' ', 1)\<close>, then \<open>user, password = text.split(':', 1)\<close>.\<close>

definition split_pair :: "char \<Rightarrow> string \<Rightarrow> (string \<times> string) result" where
  "split_pair c s =
     (case str_partition c s of
        (a, True, b) \<Rightarrow> Inr (a, b)
      | _ \<Rightarrow> Inl (ValueError ''not enough values to unpack (expected 2, got 1)''))"

definition parse_credentials :: "(string \<Rightarrow> string result) \<Rightarrow> string \<Rightarrow> (string \<times> string \<times> string) result" where
  "parse_credentials basic header =
     bind_result (split_pair (CHR '' '') header)
       (\<lambda>(scheme, base64). bind_result (basic base64)
          (\<lambda>text. bind_result (split_pair (CHR '':'') text)
             (\<lambda>(user, password). Inr (scheme, user, password))))"

text \<open>The identity row as the request's \<open>UserContext\<close>.\<close>

definition row_context :: "string \<Rightarrow> row \<Rightarrow> user_context result" where
  "row_context client_ip r =
     bind_result (row_item r ''id'')
       (\<lambda>i. bind_result (row_item r ''user'')
          (\<lambda>u. bind_result (row_item r ''name'')
             (\<lambda>n. Inr \<lparr>uc_id = i, uc_user = str_of u, uc_name = n, uc_client_ip = client_ip\<rparr>)))"

definition is_authorized :: "'s admin_env \<Rightarrow> string option \<Rightarrow> string \<Rightarrow> ('s, user_context option) db" where
  "is_authorized env header client_ip =
     (case header of
        None \<Rightarrow> db_return None
      | Some h \<Rightarrow>
          if h = [] then db_return None
          else (case parse_credentials (ad_basic env) h of
                  Inl _ \<Rightarrow> db_return None
                | Inr (scheme, user, password) \<Rightarrow>
                    db_bind (if str_lower scheme = ''basic'' then w2ui_check_user (ad_ex env) (ad_table env) user password
                             else db_return [])
                      (\<lambda>rows. case rows of
                         [] \<Rightarrow> db_return None
                       | r # _ \<Rightarrow> db_bind (db_lift (row_context client_ip r)) (\<lambda>u. db_return (Some u)))))"

subsection \<open>The query\<close>

definition admin_parse_query ::
    "'s admin_env \<Rightarrow> string \<Rightarrow> nat list option \<Rightarrow> query result" where
  "admin_parse_query env query body =
     (case (if query \<noteq> [] then parse_query (ad_unquote env) query
            else (case body of
                    None \<Rightarrow> Inr (PDict [])
                  | Some b \<Rightarrow> if b = [] then Inr (PDict [])
                               else bind_result (ad_decode env b) (parse_query (ad_unquote env)))) of
        Inr (PDict d) \<Rightarrow> Inr d
      | Inr _ \<Rightarrow> Inl AttributeError
      | Inl QueryParserError \<Rightarrow> Inr []
      | Inl e \<Rightarrow> Inl e)"

text \<open>What is logged of the query.\<close>

definition masked_query :: "query \<Rightarrow> query" where
  "masked_query q =
     (case dict_get q ''record'' of
        Some (PDict r) \<Rightarrow>
          if dict_get r ''password'' \<noteq> None
          then AList.update (KStr ''record'') (PDict (AList.update (KStr ''password'') (PStr mask) r)) q else q
      | _ \<Rightarrow> q)"

text \<open>The data token looked up in the tables: an unhashable one raises, any other that is no string has no table.\<close>

definition token_of :: "'s admin_env \<Rightarrow> pyval \<Rightarrow> string result" where
  "token_of env v =
     (case v of
        PStr s \<Rightarrow> Inr s
      | PList _ \<Rightarrow> Inl (TypeError ''unhashable type'')
      | PDict _ \<Rightarrow> Inl (TypeError ''unhashable type'')
      | _ \<Rightarrow> Inl (ValueError (CHR 0x27 # py_str (ad_table env) v @ CHR 0x27 # '' not implemented'')))"

subsection \<open>Commands\<close>

definition error_reply :: "string \<Rightarrow> pyval" where
  "error_reply message = PDict [(KStr ''status'', PStr ''error''), (KStr ''message'', PStr message)]"

definition success_reply :: "(string \<times> pyval) list \<Rightarrow> pyval" where
  "success_reply items = PDict ((KStr ''status'', PStr ''success'') # map (\<lambda>(k, v). (KStr k, v)) items)"

definition row_json :: "row \<Rightarrow> pyval" where
  "row_json r = PDict (map (\<lambda>(k, v). (KStr k, v)) r)"

definition require_user :: "user_context option \<Rightarrow> user_context result" where
  "require_user user = (case user of None \<Rightarrow> Inl AssertionError | Some u \<Rightarrow> Inr u)"

definition delete_records :: "'s admin_env \<Rightarrow> query \<Rightarrow> user_context option \<Rightarrow> ('s, pyval) db" where
  "delete_records env q user =
     (let selected = (case dict_get_none q ''selected'' of PList xs \<Rightarrow> xs | v \<Rightarrow> [v])
      in db_bind (db_lift (require_user user))
           (\<lambda>u. db_bind (db_lift (token_of env (dict_get_none q ''data'')))
              (\<lambda>data. db_bind (delete_data (ad_ex env) (ad_tx env) (ad_table env) (te_repr (ad_table env)) data selected u)
                 (\<lambda>n. db_return (if n = 0 then error_reply ''records not deleted'' else success_reply [])))))"

definition admin_get_data ::
    "'s admin_env \<Rightarrow> status_registry \<Rightarrow> pyval \<Rightarrow> int \<Rightarrow> page_request option \<Rightarrow> ('s, row list \<times> int) db" where
  "admin_get_data env status data recid page =
     db_bind (db_lift (token_of env data))
       (\<lambda>d. get_data (ad_ex env) (ad_table env) d recid page
              (if d = ''status'' then registry_snapshot status else []))"

text \<open>\<open>record.get(field)\<close>.\<close>

definition row_get :: "row \<Rightarrow> pyval \<Rightarrow> pyval result" where
  "row_get r field =
     (case field of
        PStr f \<Rightarrow> Inr (case map_of r f of None \<Rightarrow> PNone | Some v \<Rightarrow> v)
      | PList _ \<Rightarrow> Inl (TypeError ''unhashable type'')
      | PDict _ \<Rightarrow> Inl (TypeError ''unhashable type'')
      | _ \<Rightarrow> Inr PNone)"

definition get_items :: "'s admin_env \<Rightarrow> status_registry \<Rightarrow> query \<Rightarrow> ('s, pyval) db" where
  "get_items env status q =
     db_bind (db_lift (page_from_query q))
       (\<lambda>page. db_bind (admin_get_data env status (dict_get_none q ''data'') 0 (Some page))
          (\<lambda>(records, _). db_bind (db_lift (mapr (\<lambda>r. row_get r (dict_get_none q ''field'')) records))
             (\<lambda>items. db_return (success_reply [(''items'', PList (filter (\<lambda>v. v \<noteq> PNone) items))]))))"

definition get_record :: "'s admin_env \<Rightarrow> status_registry \<Rightarrow> query \<Rightarrow> ('s, pyval) db" where
  "get_record env status q =
     db_bind (db_lift (py_int (dict_get_none q ''recid'')))
       (\<lambda>recid. db_bind (admin_get_data env status (dict_get_none q ''data'') recid None)
          (\<lambda>(records, _). db_return
             (case records of
                [] \<Rightarrow> error_reply (''get-record '' @ CHR 0x27 # py_str (ad_table env) (dict_get_none q ''data'') @ CHR 0x27
                                   # '' id '' @ str_int recid @ '' not found'')
              | r # _ \<Rightarrow> success_reply [(''record'', row_json r)])))"

definition style_status :: "row list \<Rightarrow> row list result" where
  "style_status records =
     mapr (\<lambda>r. bind_result (row_item r ''status'')
        (\<lambda>v. Inr (AList.update ''style'' (PStr (if v = PStr ''Off'' then ''color: red'' else ''color: green'')) r))) records"

definition get_records :: "'s admin_env \<Rightarrow> status_registry \<Rightarrow> query \<Rightarrow> ('s, pyval) db" where
  "get_records env status q =
     (let data = dict_get_none q ''data''
      in db_bind (db_lift (page_from_query q))
           (\<lambda>page. db_bind (admin_get_data env status data 0 (Some page))
              (\<lambda>(records, cnt). db_bind (if data = PStr ''status'' then db_lift (style_status records) else db_return records)
                 (\<lambda>records. db_return (success_reply
                    [(''total'', PInt cnt), (''records'', PList (map row_json records))])))))"

text \<open>A string argument of a cached or parsing function, \<open>e\<close> what another value raises there.\<close>

definition text_arg :: "py_error \<Rightarrow> pyval \<Rightarrow> string result" where
  "text_arg e v =
     (case v of
        PStr s \<Rightarrow> Inr s
      | PList _ \<Rightarrow> Inl (TypeError ''unhashable type'')
      | PDict _ \<Rightarrow> Inl (TypeError ''unhashable type'')
      | _ \<Rightarrow> Inl e)"

definition not_json :: py_error where
  "not_json = TypeError ''the JSON object must be str, bytes or bytearray''"

definition validate_record :: "'s admin_env \<Rightarrow> pyval \<Rightarrow> pyval \<Rightarrow> unit result" where
  "validate_record env data record =
     (if data = PStr ''monitors'' then
        bind_result (get_item record (KStr ''monitor_json''))
          (\<lambda>v. bind_result (text_arg not_json v)
             (\<lambda>s. bind_result (build_check (ad_check env) (ad_loads env) ''127.0.0.1'' s) (\<lambda>_. Inr ())))
      else if data = PStr ''routings'' then
        bind_result (get_item record (KStr ''policy_json''))
          (\<lambda>v. bind_result (text_arg not_json v)
             (\<lambda>s. bind_result (routing_resolve (ad_loads env) s) (\<lambda>_. Inr ())))
      else if data = PStr ''views'' then
        bind_result (get_item record (KStr ''rule''))
          (\<lambda>v. bind_result (text_arg AttributeError v)
             (\<lambda>s. bind_result (view_resolve (ad_parse_net env) s) (\<lambda>_. Inr ())))
      else Inr ())"

text \<open>\<open>**record\<close>: a mapping with string keys.\<close>

definition as_kwargs :: "pyval \<Rightarrow> row result" where
  "as_kwargs v =
     (case v of
        PDict d \<Rightarrow> if list_all (\<lambda>(k, _). case k of KStr _ \<Rightarrow> True | KInt _ \<Rightarrow> False) d then Inr (str_items d)
                   else Inl (TypeError ''keywords must be strings'')
      | _ \<Rightarrow> Inl (TypeError ''argument after ** must be a mapping''))"

definition save_record :: "'s admin_env \<Rightarrow> query \<Rightarrow> user_context option \<Rightarrow> ('s, pyval) db" where
  "save_record env q user =
     (let data = dict_get_none q ''data''; record = dict_get_none q ''record''
      in db_bind (db_lift (py_int (dict_get_none q ''recid'')))
           (\<lambda>recid. db_bind (db_lift (validate_record env data record))
              (\<lambda>_. db_bind (db_lift (require_user user))
                 (\<lambda>u. db_bind (db_lift (as_kwargs record))
                    (\<lambda>posted. db_bind (db_lift (no_clash [''self'', ''data'', ''save_recid'', ''user_context''] posted))
                       (\<lambda>_. db_bind (db_lift (token_of env data))
                          (\<lambda>d. db_bind (save_data (ad_ex env) (ad_tx env) (ad_table env) (te_repr (ad_table env)) d recid u posted)
                             (\<lambda>n. db_return (if n = 0 then error_reply ''record not changed'' else success_reply [])))))))))"

subsection \<open>Dispatch\<close>

definition admin_command :: "'s admin_env \<Rightarrow> status_registry \<Rightarrow> query \<Rightarrow> user_context option \<Rightarrow> ('s, pyval) db option" where
  "admin_command env status q user =
     (case dict_get_none q ''cmd'' of
        PStr c \<Rightarrow>
          if c = ''delete-records'' then Some (delete_records env q user)
          else if c = ''get-items'' then Some (get_items env status q)
          else if c = ''get-record'' then Some (get_record env status q)
          else if c = ''get-records'' then Some (get_records env status q)
          else if c = ''save-record'' then Some (save_record env q user)
          else None
      | _ \<Rightarrow> None)"

text \<open>The \<open>try\<close> of \<open>content\<close>.\<close>

definition reply_errors :: "('s, pyval) db \<Rightarrow> ('s, pyval) db" where
  "reply_errors m = (\<lambda>s. case m s of
     (Inl (ValueError e), s') \<Rightarrow> (Inr (error_reply e), s')
   | (Inl _, s') \<Rightarrow> (Inr (error_reply ''internal error''), s')
   | r \<Rightarrow> r)"

definition admin_reply :: "'s admin_env \<Rightarrow> status_registry \<Rightarrow> query \<Rightarrow> user_context option \<Rightarrow> ('s, pyval) db" where
  "admin_reply env status q user =
     (case admin_command env status q user of
        None \<Rightarrow> db_return (error_reply (''command '' @ CHR 0x27 # py_str (ad_table env) (dict_get_none q ''cmd'')
                                        @ CHR 0x27 # '' not implemented''))
      | Some m \<Rightarrow> reply_errors m)"

definition admin_content ::
    "'s admin_env \<Rightarrow> status_registry \<Rightarrow> string \<Rightarrow> nat list option \<Rightarrow> user_context option \<Rightarrow> ('s, string) db" where
  "admin_content env status query body user =
     db_bind (db_lift (admin_parse_query env query body))
       (\<lambda>q. db_bind (admin_reply env status q user)
          (\<lambda>reply. db_return (json_dumps '','' '':'' (te_repr (ad_table env)) reply)))"

subsection \<open>Routing a request\<close>

record admin_request =
  rq_command :: string
  rq_dirs :: "string list"
  rq_query :: string
  rq_body :: "nat list option"
  rq_authorization :: "string option"
  rq_client_ip :: string

text \<open>\<open>ServeGet\<close> and \<open>ServeHead\<close> go to the standard library, which calls \<open>send_head\<close>.\<close>

datatype admin_response = Challenge | Content string bool | ServeGet | ServeHead | NotFound

definition admin_route :: "'s admin_env \<Rightarrow> status_registry \<Rightarrow> admin_request \<Rightarrow> ('s, admin_response) db" where
  "admin_route env status rq =
     db_bind (is_authorized env (rq_authorization rq) (rq_client_ip rq))
       (\<lambda>user.
          if user = None then db_return Challenge
          else if length (rq_dirs rq) = 2 \<and> rq_dirs rq ! 1 = ''w2ui'' then
            (if rq_command rq = ''GET'' \<or> rq_command rq = ''POST''
             then db_bind (admin_content env status (rq_query rq) (rq_body rq) user)
                    (\<lambda>c. db_return (Content c (rq_command rq = ''GET'')))
             else db_return NotFound)
          else if rq_command rq = ''GET'' then db_return ServeGet
          else if rq_command rq = ''HEAD'' then db_return ServeHead
          else db_return NotFound)"

end
