(* ===== verification/Server_Roles.thy ===== *)
theory Server_Roles
  imports Request_Handler PowerDNS_Handler Admin_Handler
begin

section \<open>The two roles of the server\<close>

text \<open>
  What \<open>_handle_request\<close> dispatches to on each port: the DNS handler, whose \<open>lookup\<close> and \<open>domains\<close> are
  \<open>_get_lookup\<close> and \<open>_get_all_domains\<close> (of the query string) of the request, and the admin handler, whose
  answer is a computation over the database state.
\<close>

datatype dns_response = Dns_Content string | Dns_Not_Found

definition dns_json :: "(pyval \<Rightarrow> string) \<Rightarrow> dns_reply \<Rightarrow> string" where
  "dns_json rep reply = json_dumps '','' '':'' rep (reply_json reply)"

definition dns_route ::
    "(pyval \<Rightarrow> string) \<Rightarrow> (string \<Rightarrow> string \<Rightarrow> dns_answer list result) \<Rightarrow> (string \<Rightarrow> zone_entry list result)
       \<Rightarrow> string \<Rightarrow> string list \<Rightarrow> string \<Rightarrow> dns_response result" where
  "dns_route rep lookup domains command dirs query =
     (if command = ''GET''
      then bind_result (dns_content lookup (domains query) dirs) (\<lambda>reply. Inr (Dns_Content (dns_json rep reply)))
      else Inr Dns_Not_Found)"

definition dns_role ::
    "(string \<Rightarrow> (string \<times> string) result) \<Rightarrow> (string \<Rightarrow> string) \<Rightarrow> unit result \<Rightarrow> (pyval \<Rightarrow> string)
       \<Rightarrow> (string \<Rightarrow> string \<Rightarrow> dns_answer list result) \<Rightarrow> (string \<Rightarrow> zone_entry list result) \<Rightarrow> dns_response role" where
  "dns_role split unq remote rep lookup domains =
     \<lparr>ro_route = ''dns'', ro_urlsplit = split, ro_unquote = unq, ro_set_remote_ip = remote,
      ro_handle = (\<lambda>command dirs query body. dns_route rep lookup domains command dirs query)\<rparr>"

definition admin_role ::
    "(string \<Rightarrow> (string \<times> string) result) \<Rightarrow> (string \<Rightarrow> string) \<Rightarrow> unit result \<Rightarrow> 's admin_env \<Rightarrow> status_registry
       \<Rightarrow> string option \<Rightarrow> string \<Rightarrow> ('s, admin_response) db role" where
  "admin_role split unq remote env status authorization ip =
     \<lparr>ro_route = ''admin'', ro_urlsplit = split, ro_unquote = unq, ro_set_remote_ip = remote,
      ro_handle = (\<lambda>command dirs query body. Inr (admin_route env status
         \<lparr>rq_command = command, rq_dirs = dirs, rq_query = query, rq_body = body,
          rq_authorization = authorization, rq_client_ip = ip\<rparr>))\<rparr>"

text \<open>A request of any of the methods the handler has.\<close>

definition serve :: "'r role \<Rightarrow> string \<Rightarrow> string \<Rightarrow> string option \<Rightarrow> nat list \<Rightarrow> 'r response result \<times> nat list" where
  "serve role command path content_length stream =
     (if command = ''POST'' then do_post role path content_length stream
      else do_get_or_head role command path stream)"

end
