(* ===== verification/PowerDNS_Queries.thy ===== *)
theory PowerDNS_Queries
  imports Sql
begin

section \<open>The queries of the DNS path\<close>

text \<open>
  \<open>database/mysql/powerdns.py\<close>: the statements that read the records of a name, the zones and the checks.
\<close>

definition rstrip_dots :: "string \<Rightarrow> string" where
  "rstrip_dots s = rev (dropWhile (\<lambda>c. c = CHR ''.'') (rev s))"

definition gslb_checks_sql :: string where
  "gslb_checks_sql = sql_block
     [''SELECT `records`.`id`,'',
      ''`records`.`content`,'',
      ''`monitors`.`monitor_json`'',
      ''FROM `records`'',
      ''JOIN `monitors` ON `records`.`monitor_id` = `monitors`.`id`'']"

definition gslb_checks :: "'s executor \<Rightarrow> ('s, row list) db" where
  "gslb_checks ex = ex_select ex gslb_checks_sql []"

definition gslb_domains_sql :: "bool \<Rightarrow> string" where
  "gslb_domains_sql include_disabled =
     sql_block
       [''SELECT `domains`.`id`,'',
        ''`domains`.`domain`,'',
        ''`records`.`content` AS `soa_content`'',
        ''FROM `domains`'',
        ''JOIN `rrsets` ON `rrsets`.`domain_id` = `domains`.`id` AND `rrsets`.`name` = '' @ [CHR 0x27] @ ''@'' @ [CHR 0x27],
        ''JOIN `types` ON `rrsets`.`type_value` = `types`.`value` AND `types`.`type` = '' @ [CHR 0x27] @ ''SOA'' @ [CHR 0x27],
        ''JOIN `records` ON `records`.`rrset_id` = `rrsets`.`id`'']
     @ (if include_disabled then [] else sql_block [''WHERE `records`.`disabled` = 0''])"

definition gslb_domains :: "'s executor \<Rightarrow> bool \<Rightarrow> ('s, row list) db" where
  "gslb_domains ex include_disabled = ex_select ex (gslb_domains_sql include_disabled) []"

text \<open>\<open>'.'.join(labels[index:])\<close> for every index.\<close>

definition zone_suffixes :: "string \<Rightarrow> string list" where
  "zone_suffixes qname =
     (let labels = split_on (CHR ''.'') qname
      in map (\<lambda>index. join ''.'' (drop index labels)) [0..<length labels])"

definition gslb_records_sql :: "nat \<Rightarrow> bool \<Rightarrow> string" where
  "gslb_records_sql cnt any =
     sql_block
       [''SELECT'',
        ''CASE WHEN `rrsets`.`name` = '' @ [CHR 0x27] @ ''@'' @ [CHR 0x27] @ '' THEN `domains`.`domain`'',
        ''ELSE CONCAT(`rrsets`.`name`, '' @ [CHR 0x27] @ ''.'' @ [CHR 0x27] @ '', `domains`.`domain`) END AS `qname`,'',
        ''`types`.`type` AS `qtype`,'',
        ''`rrsets`.`ttl`,'',
        ''`routings`.`policy_json`,'',
        ''`records`.`weight`,'',
        ''`records`.`id`,'',
        ''`records`.`content`,'',
        ''`views`.`rule`'',
        ''FROM `domains`'',
        ''JOIN `rrsets` ON `rrsets`.`domain_id` = `domains`.`id`'',
        ''JOIN `types` ON `rrsets`.`type_value` = `types`.`value`'',
        ''JOIN `routings` ON `rrsets`.`routing_id` = `routings`.`id`'',
        ''JOIN `records` ON `records`.`rrset_id` = `rrsets`.`id`'',
        ''JOIN `views` ON `records`.`view_id` = `views`.`id`'',
        ''WHERE `domains`.`domain` = ('',
        ''SELECT `d`.`domain` FROM `domains` `d`'',
        ''WHERE `d`.`domain` IN ('' @ marks cnt @ '')'',
        ''ORDER BY CHAR_LENGTH(`d`.`domain`) DESC LIMIT 1'',
        '')'',
        ''AND `rrsets`.`name` = ('',
        ''CASE WHEN %s = `domains`.`domain` THEN '' @ [CHR 0x27] @ ''@'' @ [CHR 0x27],
        ''ELSE SUBSTRING(%s, 1, CHAR_LENGTH(%s) - CHAR_LENGTH(`domains`.`domain`) - 1) END'',
        '')'']
     @ (if any then sql_block [''AND `records`.`disabled` = 0'']
        else sql_block [''AND `types`.`type` = %s'', ''AND `records`.`disabled` = 0''])"

definition gslb_records :: "'s executor \<Rightarrow> string \<Rightarrow> string \<Rightarrow> ('s, row list) db" where
  "gslb_records ex qname qtype =
     (let qname = rstrip_dots qname;
          suffixes = zone_suffixes qname;
          params = suffixes @ [qname, qname, qname] @ (if qtype = ''ANY'' then [] else [qtype])
      in ex_select ex (gslb_records_sql (length suffixes) (qtype = ''ANY'')) (map (\<lambda>s. SqlValue (PStr s)) params))"

end
