(* ===== verification/PowerDNS_Database.thy ===== *)
theory PowerDNS_Database
  imports Server_Roles PowerDNS_Queries
begin

section \<open>The DNS handler over its database\<close>

text \<open>
  \<open>server/http/handler/powerdns.py\<close> from the request to the statement and back: \<open>_get_lookup\<close> reads its records with
  \<open>gslb_records\<close>, \<open>_get_all_domains\<close> its domains with \<open>gslb_domains\<close>, and \<open>content\<close> chooses
  between them. The columns of the two result sets are \<open>NOT NULL\<close> columns of the schema, so a row has each of
  them with its type; a row is read once, where the code reads the dict item by item.
\<close>

definition row_str :: "row \<Rightarrow> string \<Rightarrow> string" where
  "row_str r key = (case map_of r key of None \<Rightarrow> [] | Some v \<Rightarrow> str_of v)"

definition row_int :: "row \<Rightarrow> string \<Rightarrow> int" where
  "row_int r key = (case map_of r key of None \<Rightarrow> 0 | Some v \<Rightarrow> int_of v)"

definition record_of_row :: "row \<Rightarrow> dns_record" where
  "record_of_row r =
     \<lparr>r_qname = row_str r ''qname'', r_qtype = row_str r ''qtype'', r_ttl = row_int r ''ttl'',
      r_policy_json = row_str r ''policy_json'', r_weight = row_int r ''weight'', r_id = row_int r ''id'',
      r_content = row_str r ''content'', r_rule = row_str r ''rule''\<rparr>"

definition domain_of_row :: "row \<Rightarrow> domain_row" where
  "domain_of_row r =
     \<lparr>d_id = row_int r ''id'', d_domain = row_str r ''domain'', d_soa_content = row_str r ''soa_content''\<rparr>"

definition db_get_lookup ::
    "'s executor \<Rightarrow> dns_env \<Rightarrow> status_registry \<Rightarrow> client_context \<Rightarrow> rng \<Rightarrow> string \<Rightarrow> string
       \<Rightarrow> ('s, dns_answer list) db" where
  "db_get_lookup ex env status ctx r qname qtype =
     db_bind (gslb_records ex qname qtype)
       (\<lambda>rows. db_lift (get_lookup env status (map record_of_row rows) ctx r))"

definition include_disabled_param :: "(string \<Rightarrow> string) \<Rightarrow> string \<Rightarrow> bool" where
  "include_disabled_param unquote query \<longleftrightarrow> map_of (parse_qs unquote query) ''includeDisabled'' = Some [''true'']"

definition db_get_all_domains ::
    "'s executor \<Rightarrow> (string \<Rightarrow> string) \<Rightarrow> (nat \<Rightarrow> int) \<Rightarrow> string \<Rightarrow> ('s, zone_entry list) db" where
  "db_get_all_domains ex unquote now query =
     db_bind (gslb_domains ex (include_disabled_param unquote query))
       (\<lambda>rows. db_lift (zone_entries now (map domain_of_row rows)))"

definition db_dns_content ::
    "(string \<Rightarrow> string \<Rightarrow> ('s, dns_answer list) db) \<Rightarrow> ('s, zone_entry list) db \<Rightarrow> string list \<Rightarrow> ('s, dns_reply) db" where
  "db_dns_content lookup domains dirs =
     (if length dirs = 4 \<and> dirs ! 1 = ''lookup''
      then db_bind (lookup (dirs ! 2) (dirs ! 3)) (\<lambda>xs. db_return (LookupReply xs))
      else if length dirs = 2 \<and> dirs ! 1 = ''getAllDomains''
      then db_bind domains (\<lambda>zs. db_return (DomainsReply zs))
      else db_return FalseReply)"

text \<open>A handler's parameters: the database, the environment of the selection, the clock and the draws.\<close>

record 's dns_handler =
  dh_ex :: "'s executor"
  dh_env :: dns_env
  dh_unquote :: "string \<Rightarrow> string"
  dh_repr :: "pyval \<Rightarrow> string"
  dh_now :: "nat \<Rightarrow> int"
  dh_rng :: rng

definition db_dns_route ::
    "'s dns_handler \<Rightarrow> status_registry \<Rightarrow> client_context \<Rightarrow> string \<Rightarrow> string list \<Rightarrow> string \<Rightarrow> ('s, dns_response) db" where
  "db_dns_route h status ctx command dirs query =
     (if command = ''GET''
      then db_bind (db_dns_content (db_get_lookup (dh_ex h) (dh_env h) status ctx (dh_rng h))
                      (db_get_all_domains (dh_ex h) (dh_unquote h) (dh_now h) query) dirs)
             (\<lambda>reply. db_return (Dns_Content (dns_json (dh_repr h) reply)))
      else db_return Dns_Not_Found)"

text \<open>
  The DNS port, for one request: \<open>remote\<close> is what \<open>dns_set_remote_ip\<close> makes of its headers. The request is only
  handled when that succeeded, with the context it built.
\<close>

definition db_dns_role ::
    "'s dns_handler \<Rightarrow> status_registry \<Rightarrow> (string \<Rightarrow> (string \<times> string) result)
       \<Rightarrow> (ip_address \<times> client_context) result \<Rightarrow> ('s, dns_response) db role" where
  "db_dns_role h status split remote =
     \<lparr>ro_route = ''dns'', ro_urlsplit = split, ro_unquote = dh_unquote h,
      ro_set_remote_ip = bind_result remote (\<lambda>_. Inr ()),
      ro_handle = (\<lambda>command dirs query body.
        bind_result remote (\<lambda>(ip, ctx). Inr (db_dns_route h status ctx command dirs query)))\<rparr>"

subsection \<open>Agreement with the model without a database\<close>

text \<open>Given what the database answers, the handlers are the ones of \<open>PowerDNS_Handler\<close>.\<close>

lemma db_get_all_domains_eq:
  "db_get_all_domains ex unquote now query s =
     (case gslb_domains ex (include_disabled_param unquote query) s of
        (rows, s') \<Rightarrow> (get_all_domains unquote now (\<lambda>_. bind_result rows (\<lambda>rs. Inr (map domain_of_row rs))) query, s'))"
  by (auto simp: db_get_all_domains_def get_all_domains_def db_bind_def Let_def split: prod.split sum.split)

lemma db_dns_content_eq:
  assumes "length dirs = 4 \<and> dirs ! 1 = ''lookup'' \<Longrightarrow> lookup (dirs ! 2) (dirs ! 3) s = (answers, s')"
    and "length dirs = 2 \<and> dirs ! 1 = ''getAllDomains'' \<Longrightarrow> domains s = (zones, s')"
    and "\<not> (length dirs = 4 \<and> dirs ! 1 = ''lookup'') \<and> \<not> (length dirs = 2 \<and> dirs ! 1 = ''getAllDomains'') \<Longrightarrow> s' = s"
  shows "db_dns_content lookup domains dirs s = (dns_content (\<lambda>_ _. answers) zones dirs, s')"
  using assms by (auto simp: db_dns_content_def dns_content_def db_bind_def split: sum.split)

end
