(* ===== verification/Table_Properties.thy ===== *)
theory Table_Properties
  imports Table_Operations
begin

section \<open>Properties of the admin tables\<close>

text \<open>
  Every statement of the tables binds its placeholders and splices only declared identifiers; search
  values match as the operators say; totals are exact; passwords stay on the server. The first part
  counts placeholders; \<open>binding\<close> specialises \<open>guarded\<close> to statements that bind what they mark.
\<close>

subsection \<open>Counting placeholders\<close>

lemma placeholders_append_hd:
  "b = [] \<or> hd b \<noteq> CHR ''s'' \<Longrightarrow> placeholders (a @ b) = placeholders a + placeholders b"
proof (induction a rule: placeholders.induct)
  case (2 c)
  then show ?case by (cases b) auto
qed auto

lemma placeholders_join:
  "no_percent sep \<Longrightarrow> sep \<noteq> [] \<Longrightarrow> hd sep \<noteq> CHR ''s'' \<Longrightarrow>
     placeholders (join sep ws) = sum_list (map placeholders ws)"
proof (induction sep ws rule: join.induct)
  case (3 sep w v ws)
  have "placeholders (w @ sep @ join sep (v # ws)) = placeholders w + placeholders (sep @ join sep (v # ws))"
    using 3 by (intro placeholders_append_hd) auto
  with 3 show ?case by (simp add: placeholders_no_percent)
qed simp_all

definition bound :: "string \<Rightarrow> sql_param list \<Rightarrow> bool" where
  "bound sql ps \<longleftrightarrow> placeholders sql = length ps"

definition table_names_ok :: "sql_table \<Rightarrow> bool" where
  "table_names_ok t \<longleftrightarrow> no_percent (t_name t) \<and> no_percent (t_key t) \<and> list_all no_percent (t_fields t)
     \<and> list_all no_percent (t_columns t) \<and> list_all (no_percent \<circ> snd) (t_aliases t)
     \<and> (t_class t = AuditTable \<longrightarrow> length (t_columns t) = 7) \<and> (t_class t = UsersTable \<longrightarrow> length (t_columns t) = 3)"

lemma tables_names_ok: "list_all (table_names_ok \<circ> snd) TABLES"
  by code_simp

lemma table_names_okI: "(data, t) \<in> set TABLES \<Longrightarrow> table_names_ok t"
  using tables_names_ok by (auto simp: list_all_iff)

lemma no_percent_quoted [simp]: "no_percent (quoted s) \<longleftrightarrow> no_percent s"
  by (simp add: quoted_def)

lemma no_percent_column: "table_names_ok t \<Longrightarrow> no_percent n \<Longrightarrow> no_percent (column_of t n)"
  by (auto simp: column_of_def table_names_ok_def list_all_iff split: option.split dest!: map_of_SomeD)

lemma no_percent_projection: "table_names_ok t \<Longrightarrow> no_percent n \<Longrightarrow> no_percent (projection t n)"
  using no_percent_column [of t n] by (simp add: projection_def base_projection_def Let_def mask_def)

lemma no_percent_records_select: "no_percent records_select"
  by code_simp

lemma no_percent_select: "table_names_ok t \<Longrightarrow> no_percent (select_sql t)"
  by (auto simp: select_sql_def no_percent_records_select table_names_ok_def list_all_iff
      intro!: no_percent_join no_percent_projection)

lemma placeholders_select_one: "table_names_ok t \<Longrightarrow> placeholders (select_one t) = 1"
  using no_percent_select [of t]
  by (simp add: select_one_def placeholders_no_percent placeholders_Cons table_names_ok_def)

lemma placeholders_insert: "table_names_ok t \<Longrightarrow> placeholders (insert_of t n) = n * length (t_columns t)"
proof -
  assume t: "table_names_ok t"
  have "no_percent (join '', '' (map (\<lambda>n. quoted (column_of t n)) (t_columns t)))"
    using t by (auto simp: list_all_iff table_names_ok_def intro!: no_percent_join no_percent_column)
  then show ?thesis using t
    by (simp add: insert_of_def Let_def placeholders_no_percent placeholders_Cons table_names_ok_def
        placeholders_join sum_list_replicate)
qed

lemma sum_list_ones: "\<forall>x \<in> set xs. f x = Suc 0 \<Longrightarrow> sum_list (map f xs) = length xs"
  by (induction xs) auto

lemma placeholders_update:
  "table_names_ok t \<Longrightarrow> list_all no_percent columns \<Longrightarrow> placeholders (update_of t columns) = Suc (length columns)"
proof -
  assume t: "table_names_ok t" and c: "list_all no_percent columns"
  have "placeholders (quoted (column_of t n) @ '' = %s'') = 1" if "n \<in> set columns" for n
    using no_percent_column [OF t, of n] c that by (simp add: placeholders_no_percent list_all_iff)
  then have "map (\<lambda>n. placeholders (quoted (column_of t n) @ '' = %s'')) columns = map (\<lambda>_. 1) columns"
    by simp
  then have "placeholders (join '', '' (map (\<lambda>n. quoted (column_of t n) @ '' = %s'') columns)) = length columns"
    by (simp add: placeholders_join comp_def sum_list_ones del: placeholders.simps)
  then show ?thesis using t
    by (simp add: update_of_def placeholders_no_percent placeholders_Cons table_names_ok_def placeholders_append_hd)
qed

lemma placeholders_delete: "table_names_ok t \<Longrightarrow> placeholders (delete_of t n) = n"
  by (simp add: delete_of_def placeholders_no_percent placeholders_Cons table_names_ok_def)

subsection \<open>Clauses\<close>

definition clause_bound :: "clause \<Rightarrow> bool" where
  "clause_bound c \<longleftrightarrow> placeholders (fst c) = length (snd c)"

lemma no_match_bound [simp]: "clause_bound no_match"
  by (simp add: clause_bound_def no_match_def)

lemma text_clause_bound: "no_percent column \<Longrightarrow> clause_bound (text_clause env column op v)"
  by (simp add: clause_bound_def text_clause_def placeholders_no_percent placeholders_Cons)

lemma int_clause_try_bound: "no_percent column \<Longrightarrow> int_clause_try column op v = Inr c \<Longrightarrow> clause_bound c"
  by (auto simp: clause_bound_def int_clause_try_def placeholders_no_percent placeholders_Cons bind_result_Inr_iff Let_def no_match_def
      mapr_length split: if_splits pyval.splits list.splits)

lemma int_clause_bound: "no_percent column \<Longrightarrow> int_clause column op v = Inr c \<Longrightarrow> clause_bound c"
  by (auto simp: int_clause_def dest: int_clause_try_bound split: sum.splits py_error.splits)

lemma date_clause_bound: "no_percent column \<Longrightarrow> clause_bound (date_clause env column op v)"
  by (auto simp: date_clause_def date_range_def clause_bound_def placeholders_no_percent placeholders_Cons Let_def no_match_def
      split: option.split pyval.split list.split)

lemma search_clause_bound:
  assumes "table_names_ok t" "search_clause_sql env t s = Inr (Some c)"
  shows "clause_bound c"
proof (cases "sc_field s \<in> set (t_fields t)")
  case True
  then have "no_percent (quoted (sc_field s))" using assms(1) by (auto simp: table_names_ok_def list_all_iff)
  then show ?thesis using assms(2)
    by (auto simp: search_clause_sql_def Let_def bind_result_Inr_iff text_clause_bound date_clause_bound
        simp del: no_percent_quoted split: if_splits)
       (metis int_clause_bound)
qed (use assms(2) in \<open>auto simp: search_clause_sql_def split: if_splits\<close>)

lemma mapr_set: "mapr f xs = Inr ys \<Longrightarrow> y \<in> set ys \<Longrightarrow> \<exists>x \<in> set xs. f x = Inr y"
  by (induction xs arbitrary: ys) (auto simp: bind_result_Inr_iff)

lemma search_sql_bound:
  assumes "table_names_ok t" "search_sql env t page = Inr (w, ps)"
  shows "placeholders w = length ps"
proof -
  obtain found where f: "mapr (search_clause_sql env t) (p_searches page) = Inr found"
    using assms(2) by (auto simp: search_sql_def bind_result_Inr_iff)
  have b: "\<forall>c \<in> set (List.map_filter id found). clause_bound c"
  proof
    fix c assume "c \<in> set (List.map_filter id found)"
    then have "Some c \<in> set found" by (auto simp: List.map_filter_def)
    moreover have "\<forall>y \<in> set found. \<exists>x. search_clause_sql env t x = Inr y"
      using mapr_set [OF f] by blast
    ultimately show "clause_bound c" using search_clause_bound [OF assms(1)] by blast
  qed
  have s: "sum_list (map placeholders (map fst cs)) = length (concat (map snd cs))"
    if "\<forall>c \<in> set cs. clause_bound c" for cs
    using that by (induction cs) (auto simp: clause_bound_def)
  show ?thesis
    using assms(2) s [OF b]
    by (auto simp: search_sql_def f Let_def no_match_def placeholders_join placeholders_Cons length_concat split: if_splits)
qed

lemma limit_bound: "placeholders (fst (limit_sql page)) = length (snd (limit_sql page))"
  "fst (limit_sql page) = [] \<or> hd (fst (limit_sql page)) = CHR '' ''"
  by (auto simp: limit_sql_def split: option.split)

lemma order_no_percent: "table_names_ok t \<Longrightarrow> no_percent (order_sql t page)"
  by (auto simp: order_sql_def Let_def table_names_ok_def list_all_iff intro!: no_percent_join)

lemma order_hd: "order_sql t page = [] \<or> hd (order_sql t page) = CHR '' ''"
  by (simp add: order_sql_def Let_def)


subsection \<open>Statements of the reads\<close>

lemma placeholders_sql_block: "placeholders (sql_block lines) = sum_list (map placeholders lines)"
  by (simp add: sql_block_def newline_def placeholders_Cons placeholders_append_hd placeholders_join)

lemma placeholders_marks_paren: "placeholders (marks n @ '')'' @ s) = n + placeholders s"
  by (simp add: placeholders_Cons)

lemma placeholders_status_case:
  "no_percent d \<Longrightarrow> no_percent c \<Longrightarrow> placeholders (status_case d c ids) = length ids"
  by (simp add: status_case_def down_condition_def placeholders_Cons placeholders_no_percent)

lemma local_select_bound: "bound (fst (local_select t ids)) (snd (local_select t ids))"
  by (simp add: bound_def local_select_def placeholders_sql_block placeholders_Cons placeholders_status_case
      id_params_def)

text \<open>A statement that ends in a closing quotation or a mark can be wrapped and extended.\<close>

lemma placeholders_counted:
  shows "placeholders (''SELECT COUNT(*) AS `total` FROM ('' @ sql @ '') AS `t`'' @ w) = placeholders sql + placeholders w"
  by (simp add: placeholders_append_hd placeholders_Cons)

lemma placeholders_wrapped:
  assumes "no_percent d" "d = [] \<or> hd d = CHR '' ''" "l = [] \<or> hd l = CHR '' ''"
  shows "placeholders (''SELECT * FROM ('' @ sql @ '') AS `t`'' @ w @ d @ l) = placeholders sql + placeholders w + placeholders l"
proof -
  have "placeholders (w @ d @ l) = placeholders w + placeholders (d @ l)"
    using assms(2,3) by (intro placeholders_append_hd) (cases d; auto)
  then show ?thesis
    using assms(1) by (simp add: placeholders_append_hd placeholders_Cons placeholders_no_percent)
qed

lemma bound_wrapped:
  assumes t: "table_names_ok t" and s: "search_sql env t p = Inr (w, ps)" and l: "limit_sql p = (l, pp)"
    and b: "bound sql params"
  shows "bound (''SELECT * FROM ('' @ sql @ '') AS `t`'' @ w @ order_sql t p @ l) (params @ ps @ pp)"
    and "bound (''SELECT COUNT(*) AS `total` FROM ('' @ sql @ '') AS `t`'' @ w) (params @ ps)"
  unfolding bound_def
  using placeholders_wrapped [OF order_no_percent [OF t, of p] order_hd, of l sql w]
    placeholders_counted [of sql w] limit_bound [of p]
    search_sql_bound [OF t s] b
  by (simp_all only: bound_def l fst_conv snd_conv length_append add.assoc simp_thms)

subsection \<open>Every statement binds its placeholders\<close>

lemma record_placeholders:
  "placeholders rrset_upsert = 7" "placeholders record_insert = 5" "placeholders record_update = 6"
  by code_simp+

locale binding = guarded ex bound inv for ex :: "'s executor" and inv
begin

lemma safe_lift_bind: "(\<And>x. r = Inr x \<Longrightarrow> safe (f x)) \<Longrightarrow> safe (db_bind (db_lift r) f)"
  by (cases r) (auto simp: safe_def db_bind_def)

lemma safe_table_read:
  assumes t: "table_names_ok t" and b: "bound operation params"
  shows "safe (table_read ex env t operation params page)"
proof (cases page)
  case None
  then show ?thesis using b by (auto simp: table_read_def)
next
  case (Some p)
  obtain paging pp where l: "limit_sql p = (paging, pp)" by fastforce
  show ?thesis
    unfolding table_read_def Some option.case Let_def l prod.case
    by (rule safe_lift_bind, simp only: split: prod.split option.split if_split)
       (auto intro!: safe_bind safe_select bound_wrapped [OF t _ l b] simp del: append_Cons append.simps split: option.split)
qed

lemma select_bound:
  "table_names_ok t \<Longrightarrow> bound (if recid \<noteq> 0 then select_one t else select_sql t)
     (if recid \<noteq> 0 then [SqlValue (PInt recid)] else [])"
  by (simp add: bound_def placeholders_select_one placeholders_nil no_percent_select)

lemma safe_base_get: "table_names_ok t \<Longrightarrow> safe (base_get ex env t recid page)"
  unfolding base_get_def by (intro safe_table_read select_bound)

lemma safe_join_page:
  assumes "table_names_ok t" shows "safe (join_page ex t id_rows)"
proof -
  have "bound (select_sql t @ '' WHERE `records`.`id` IN ('' @ marks (length ids) @ '')'') (map SqlValue ids)" for ids
    using no_percent_select [OF assms] by (simp add: bound_def placeholders_no_percent placeholders_Cons)
  then have "safe (records_join_page ex t id_rows)"
    by (auto simp: records_join_page_def simp del: append_Cons append.simps intro!: safe_bind safe_select)
  then show ?thesis
    by (auto simp: join_page_def status_join_page_def intro!: safe_bind)
qed

lemma safe_full_read:
  assumes "table_names_ok t" shows "safe (full_read ex env t recid page ids)"
proof -
  have "bound (sql_block [''SELECT `r`.*,'', status_case ''`r`.`disabled`'' ''`r`.`recid`'' ids,
           ''FROM ('' @ (if recid \<noteq> 0 then select_one t else select_sql t) @ '') AS `r`''])
       (id_params ids @ (if recid \<noteq> 0 then [SqlValue (PInt recid)] else []))"
    using select_bound [OF assms, of recid]
    by (simp add: bound_def placeholders_sql_block placeholders_Cons placeholders_status_case id_params_def
        placeholders_append_hd)
  then show ?thesis
    unfolding full_read_def status_full_read_def
    using safe_table_read [OF assms] safe_base_get [OF assms] by simp
qed

lemma safe_table_get:
  assumes "table_names_ok t" shows "safe (table_get ex env t recid page ids)"
proof -
  obtain source params where l: "local_select t ids = (source, params)" by fastforce
  have "safe (table_read ex env t source params page)" for page
    using safe_table_read [OF assms] local_select_bound [of t ids] by (simp add: l)
  then show ?thesis
    using safe_join_page [OF assms] safe_full_read [OF assms] safe_base_get [OF assms]
    by (auto simp: table_get_def records_get_def l split: option.split intro!: safe_bind)
qed

lemma safe_base_save: "table_names_ok t \<Longrightarrow> safe (base_save ex t recid posted)"
  unfolding base_save_def
  by (rule safe_lift_bind)
     (auto simp: bound_def placeholders_insert placeholders_update list_all_iff table_names_ok_def mapr_length
        intro!: safe_modify)

lemma safe_records_save: "safe (records_save ex env recid posted)"
  unfolding records_save_def
  by (intro safe_lift_bind, drule mapr_length)
     (auto simp: bound_def Let_def record_placeholders intro!: safe_bind safe_modify)

lemma safe_users_save:
  "table_names_ok t \<Longrightarrow> t_class t = UsersTable \<Longrightarrow> safe (users_save ex env t recid posted)"
  unfolding users_save_def
  by (intro safe_lift_bind)
     (auto simp: bound_def Let_def placeholders_insert placeholders_update table_names_ok_def list_all_iff
        intro!: safe_bind safe_modify safe_lift_bind)

lemma safe_table_save: "table_names_ok t \<Longrightarrow> safe (table_save ex env t recid posted)"
  by (auto simp: table_save_def safe_records_save safe_users_save safe_base_save split: table_class.split)

lemma safe_table_remove: "table_names_ok t \<Longrightarrow> safe (table_remove ex t ids)"
  by (auto simp: table_remove_def base_remove_def bound_def placeholders_delete split: table_class.split
      intro!: safe_modify)

lemma safe_written_recid: "safe (written_recid ex t recid posted)"
  by (auto simp: written_recid_def safe_def Let_def)

lemma safe_audit_record:
  "table_names_ok t \<Longrightarrow> t_class t = AuditTable \<Longrightarrow> safe (audit_record ex t rows)"
  by (auto simp: audit_record_def bound_def placeholders_insert table_names_ok_def length_concat comp_def
      audit_values_def sum_list_triv intro!: safe_modify)

lemma safe_check_user: "table_names_ok t \<Longrightarrow> safe (check_user ex env t user password)"
  unfolding check_user_def
  by (intro safe_bind safe_select) (auto simp: bound_def placeholders_no_percent placeholders_Cons table_names_ok_def)

end

interpretation bound_log: binding "recorder sv" "all_allowed bound" for sv ..

subsection \<open>Concrete inputs\<close>

definition demo_table_env :: table_env where
  "demo_table_env =
     \<lparr>te_repr = (\<lambda>_. []), te_fromiso = (\<lambda>_. None), te_crypt = (\<lambda>p s. Inr (Some (s @ p))), te_salt = ''$'', te_dummy = ''x''\<rparr>"

definition demo_page :: page_request where
  "demo_page =
     \<lparr>p_searches = [\<lparr>sc_field = ''user'', sc_type = ''text'', sc_operator = ''contains'', sc_value = PStr ''x%''\<rparr>],
      p_or_logic = False, p_sorts = [\<lparr>so_field = ''name; --'', so_direction = ''asc''\<rparr>],
      p_limit = Some 2, p_offset = Some 0\<rparr>"

definition demo_server :: server where
  "demo_server = \<lparr>sv_rows = \<lambda>_. Inr [], sv_count = \<lambda>_. Inr 1, sv_last_id = \<lambda>_. 7\<rparr>"

lemma demo_search:
  "search_sql demo_table_env USERS demo_page =
     Inr ('' WHERE `user` LIKE %s'', [SqlValue (PStr [CHR ''%'', CHR ''x'', CHR 0x5C, CHR ''%'', CHR ''%''])])"
  by code_simp

subsection \<open>Bound statements\<close>

text \<open>
  C13: every statement the admin tables issue has one bound value per placeholder, for every table,
  request and posted record, whatever the database answers.
\<close>

theorem table_statements_bound:
  assumes "(data, t) \<in> set TABLES"
  shows "all_allowed bound (snd (table_get (recorder sv) env t recid page down_ids []))
    \<and> all_allowed bound (snd (table_save (recorder sv) env t recid posted []))
    \<and> all_allowed bound (snd (table_remove (recorder sv) t ids []))
    \<and> all_allowed bound (snd (audit_record (recorder sv) AUDIT rows []))
    \<and> all_allowed bound (snd (check_user (recorder sv) env USERS user password []))"
proof -
  have "table_names_ok AUDIT" "table_names_ok USERS" "t_class AUDIT = AuditTable"
    using tables_names_ok by (simp_all add: TABLES_def AUDIT_def)
  then show ?thesis
    using bound_log.safe_table_get [OF table_names_okI [OF assms]] bound_log.safe_table_save [OF table_names_okI [OF assms]]
      bound_log.safe_table_remove [OF table_names_okI [OF assms]] bound_log.safe_audit_record bound_log.safe_check_user
    by (fastforce simp: recorded.safe_def all_allowed_def)
qed

theorem table_statements_bound_witness:
  "all_allowed bound (snd (table_get (recorder demo_server) demo_table_env USERS 3 None [] []))"
  using table_statements_bound [of "''users''" USERS] by (simp add: TABLES_def)

subsection \<open>Search text\<close>

text \<open>The conditions a search can splice, given its column and the number of values it binds.\<close>

definition templates :: "string \<Rightarrow> nat \<Rightarrow> string list" where
  "templates column n =
     [column @ '' = %s'', column @ '' LIKE %s'', column @ '' IN ('' @ marks n @ '')'',
      column @ '' NOT IN ('' @ marks n @ '')'', column @ '' BETWEEN %s AND %s'',
      column @ '' >= %s AND '' @ column @ '' < %s'']"

definition declared_condition :: "sql_table \<Rightarrow> clause \<Rightarrow> bool" where
  "declared_condition t c \<longleftrightarrow>
     c = no_match \<or> list_ex (\<lambda>f. fst c \<in> set (templates (quoted f) (length (snd c)))) (t_fields t)"

definition declared_term :: "sql_table \<Rightarrow> string \<Rightarrow> bool" where
  "declared_term t s \<longleftrightarrow>
     s = quoted ''recid'' \<or> list_ex (\<lambda>f. s = quoted f \<or> s = quoted f @ '' DESC'') (t_fields t)"

lemma int_clause_template:
  assumes "int_clause column op v = Inr c"
  shows "c = no_match \<or> fst c \<in> set (templates column (length (snd c)))"
proof -
  have "c = no_match \<or> fst c \<in> set (templates column (length (snd c)))"
    if "int_clause_try column op v = Inr c"
    using that
    by (auto simp: int_clause_try_def templates_def bind_result_Inr_iff Let_def mapr_length
        split: if_splits pyval.splits list.splits)
  with assms show ?thesis by (auto simp: int_clause_def split: sum.splits py_error.splits)
qed

lemma text_clause_template: "fst (text_clause env column op v) \<in> set (templates column (length (snd (text_clause env column op v))))"
  by (simp add: text_clause_def templates_def)

lemma date_clause_template:
  "date_clause env column op v = no_match
   \<or> fst (date_clause env column op v) \<in> set (templates column (length (snd (date_clause env column op v))))"
  by (auto simp: date_clause_def date_range_def templates_def Let_def split: option.split pyval.split list.split)

lemma search_clause_declared:
  assumes "search_clause_sql env t s = Inr (Some c)" shows "declared_condition t c"
proof (cases "sc_field s \<in> set (t_fields t)")
  case True
  have "c = no_match \<or> fst c \<in> set (templates (quoted (sc_field s)) (length (snd c)))"
    using assms True text_clause_template date_clause_template int_clause_template
    unfolding search_clause_sql_def Let_def by (fastforce simp: bind_result_Inr_iff split: if_splits)
  with True show ?thesis by (auto simp: declared_condition_def list_ex_iff)
qed (use assms in \<open>auto simp: search_clause_sql_def declared_condition_def split: if_splits\<close>)

lemma declared_sort:
  "f \<in> set (t_fields t) \<Longrightarrow> declared_term t (quoted f)"
  "f \<in> set (t_fields t) \<Longrightarrow> declared_term t (quoted f @ '' DESC'')"
  by (auto simp: declared_term_def list_ex_iff)

lemma list_all_terms:
  "(\<And>x. x \<in> set xs \<Longrightarrow> P (f x)) \<Longrightarrow> P r \<Longrightarrow> list_all P (map f xs @ (if b then [r] else []))"
  by (auto simp: list_all_iff)

lemma declared_choice:
  "list_all P ts \<Longrightarrow> x = (if ts = [] then [] else f ts) \<Longrightarrow> x = [] \<or> (\<exists>ts. list_all P ts \<and> x = f ts)"
  by auto

lemma declared_recid: "declared_term t (quoted ''recid'')"
  by (simp add: declared_term_def)

text \<open>
  A search splices only fixed condition templates over declared columns of the table, joined by
  one connective, and a sort only declared columns; no character of a value, an operator or an
  unknown field name reaches the statement text.
\<close>

theorem search_text_declared:
  assumes "search_sql env t page = Inr (w, ps)"
  shows "(w = [] \<or> (\<exists>cs. list_all (declared_condition t) cs \<and> ps = concat (map snd cs)
            \<and> w = '' WHERE '' @ join (if p_or_logic page then '' OR '' else '' AND '') (map fst cs)))
    \<and> (order_sql t page = []
       \<or> (\<exists>ts. list_all (declared_term t) ts \<and> order_sql t page = '' ORDER BY '' @ join '', '' ts))"
proof
  obtain found where f: "mapr (search_clause_sql env t) (p_searches page) = Inr found"
    using assms by (auto simp: search_sql_def bind_result_Inr_iff)
  let ?cs = "List.map_filter id found"
  have ok: "list_all (declared_condition t) ?cs"
  proof (unfold list_all_iff, rule ballI)
    fix c assume "c \<in> set ?cs"
    then have "Some c \<in> set found" by (auto simp: List.map_filter_def)
    with mapr_set [OF f] show "declared_condition t c" using search_clause_declared by blast
  qed
  have none: "declared_condition t no_match" by (simp add: declared_condition_def)
  show "w = [] \<or> (\<exists>cs. list_all (declared_condition t) cs \<and> ps = concat (map snd cs)
            \<and> w = '' WHERE '' @ join (if p_or_logic page then '' OR '' else '' AND '') (map fst cs))"
  proof (cases "?cs = []")
    case True
    then show ?thesis using assms none
      by (auto simp: search_sql_def f no_match_def intro!: exI [of _ "[no_match]"] split: if_splits)
  next
    case False
    then show ?thesis using assms ok by (auto simp: search_sql_def f Let_def)
  qed
  show "order_sql t page = []
       \<or> (\<exists>ts. list_all (declared_term t) ts \<and> order_sql t page = '' ORDER BY '' @ join '', '' ts)"
  proof -
    let ?sorts = "filter (\<lambda>s. so_field s \<in> set (t_fields t)) (p_sorts page)"
    let ?ts = "map (\<lambda>s. if so_direction s = ''desc'' then quoted (so_field s) @ '' DESC'' else quoted (so_field s)) ?sorts
      @ (if p_limit page \<noteq> None \<and> \<not> list_ex (\<lambda>s. so_field s = ''recid'') ?sorts then [quoted ''recid''] else [])"
    have "list_all (declared_term t) ?ts"
      by (rule list_all_terms) (simp_all add: declared_sort declared_recid)
    then show ?thesis
      by (intro declared_choice [of _ ?ts]) (simp_all only: order_sql_def Let_def)
  qed
qed

theorem search_text_declared_witness:
  "\<exists>ts. list_all (declared_term USERS) ts \<and> order_sql USERS demo_page = '' ORDER BY '' @ join '', '' ts"
proof -
  have "order_sql USERS demo_page \<noteq> []" by code_simp
  with search_text_declared [OF demo_search] show ?thesis by blast
qed

subsection \<open>LIKE patterns\<close>

text \<open>
  What the search relies on of the server's LIKE with its default escape character: the empty
  pattern, the percent sign, the backslash before a special character and any other character.
  \<open>same\<close> is the equality of the collation.
\<close>

locale sql_like =
  fixes like :: "string \<Rightarrow> string \<Rightarrow> bool" and same :: "char \<Rightarrow> char \<Rightarrow> bool"
  assumes like_nil: "like [] s \<longleftrightarrow> s = []"
    and like_percent: "like (CHR ''%'' # p) s \<longleftrightarrow> (\<exists>k \<le> length s. like p (drop k s))"
    and like_escape: "c \<in> {CHR ''%'', CHR ''_'', CHR 0x5C} \<Longrightarrow>
      like (CHR 0x5C # c # p) s \<longleftrightarrow> (\<exists>d s'. s = d # s' \<and> same c d \<and> like p s')"
    and like_char: "c \<notin> {CHR ''%'', CHR ''_'', CHR 0x5C} \<Longrightarrow>
      like (c # p) s \<longleftrightarrow> (\<exists>d s'. s = d # s' \<and> same c d \<and> like p s')"

definition escaped_char :: "char \<Rightarrow> string" where
  "escaped_char c = (if c \<in> {CHR ''%'', CHR ''_'', CHR 0x5C} then [CHR 0x5C, c] else [c])"

lemma str_replace_char: "str_replace [t] rep s = concat (map (\<lambda>c. if c = t then rep else [c]) s)"
proof (induction s)
  case (Cons c s)
  then show ?case by (auto simp: str_replace.simps [of "[t]" rep "c # s"])
qed (simp add: str_replace.simps)

lemma concat_map_concat: "concat (map f (concat (map g s))) = concat (map (\<lambda>c. concat (map f (g c))) s)"
  by (induction s) simp_all

lemma escape_like_chars: "escape_like s = concat (map escaped_char s)"
  unfolding escape_like_def str_replace_char concat_map_concat
  by (rule arg_cong [where f = concat], rule map_cong) (auto simp: escaped_char_def)

context sql_like
begin

lemma like_escaped_char:
  "like (escaped_char c @ q) s \<longleftrightarrow> (\<exists>d s'. s = d # s' \<and> same c d \<and> like q s')"
proof (cases "c \<in> {CHR ''%'', CHR ''_'', CHR 0x5C}")
  case True
  then have "escaped_char c @ q = CHR 0x5C # c # q" by (simp only: escaped_char_def if_True append.simps)
  then show ?thesis by (simp only: like_escape [OF True])
next
  case False
  then have "escaped_char c @ q = c # q" by (simp only: escaped_char_def if_False append.simps)
  then show ?thesis by (simp only: like_char [OF False])
qed

lemma like_escaped: "like (concat (map escaped_char w) @ p) s \<longleftrightarrow>
    (\<exists>a b. s = a @ b \<and> list_all2 same w a \<and> like p b)"
proof (induction w arbitrary: s)
  case (Cons c w)
  have "like (concat (map escaped_char (c # w)) @ p) s \<longleftrightarrow>
      (\<exists>d a b. s = d # a @ b \<and> same c d \<and> list_all2 same w a \<and> like p b)"
    by (simp only: list.map concat.simps append_assoc like_escaped_char Cons) blast
  also have "\<dots> \<longleftrightarrow> (\<exists>a b. s = a @ b \<and> list_all2 same (c # w) a \<and> like p b)"
    by (simp only: list_all2_Cons1 ex_simps [symmetric] conj_assoc) (metis append_Cons)
  finally show ?case .
qed simp

lemma like_all: "like ''%'' s"
  using like_percent [of "[]" s] like_nil by auto

lemma like_any_prefix: "like (CHR ''%'' # p) s \<longleftrightarrow> (\<exists>a b. s = a @ b \<and> like p b)"
proof
  assume "like (CHR ''%'' # p) s"
  then obtain k where "like p (drop k s)" unfolding like_percent by blast
  then show "\<exists>a b. s = a @ b \<and> like p b" by (intro exI [of _ "take k s"] exI [of _ "drop k s"]) simp
next
  assume "\<exists>a b. s = a @ b \<and> like p b"
  then obtain a b where "s = a @ b" "like p b" by blast
  then show "like (CHR ''%'' # p) s" unfolding like_percent by (intro exI [of _ "length a"]) simp
qed

lemma like_begins: "like (escape_like w @ ''%'') s \<longleftrightarrow> (\<exists>m b. s = m @ b \<and> list_all2 same w m)"
  by (simp only: escape_like_chars like_escaped like_all simp_thms)

lemma like_contains:
  "like (''%'' @ escape_like w @ ''%'') s \<longleftrightarrow> (\<exists>a m b. s = a @ m @ b \<and> list_all2 same w m)"
  by (simp only: append.simps like_any_prefix like_begins) blast

lemma like_ends: "like (''%'' @ escape_like w) s \<longleftrightarrow> (\<exists>a m. s = a @ m \<and> list_all2 same w m)"
  using like_escaped [of w "[]"]
  by (simp add: like_any_prefix escape_like_chars like_nil)

end

text \<open>A matcher with the documented behaviour, case sensitive; a final lone backslash stands for itself.\<close>

fun like_match :: "string \<Rightarrow> string \<Rightarrow> bool" where
  "like_match [] s = (s = [])"
| "like_match (c # p) s =
     (if c = CHR ''%'' then like_match p s \<or> (case s of [] \<Rightarrow> False | x # s' \<Rightarrow> like_match (c # p) s')
      else if c = CHR 0x5C \<and> p \<noteq> [] then
        (case (p, s) of (d # p', x # s') \<Rightarrow> d = x \<and> like_match p' s' | _ \<Rightarrow> False)
      else (case s of [] \<Rightarrow> False | x # s' \<Rightarrow> (c = CHR ''_'' \<or> c = x) \<and> like_match p s'))"

lemma like_match_percent: "like_match (CHR ''%'' # p) s \<longleftrightarrow> (\<exists>k \<le> length s. like_match p (drop k s))"
proof (induction s)
  case (Cons x s)
  have "(\<exists>k \<le> length (x # s). like_match p (drop k (x # s))) \<longleftrightarrow>
      like_match p (x # s) \<or> (\<exists>k \<le> length s. like_match p (drop k s))"
    by (metis (no_types, lifting) drop0 drop_Suc_Cons length_Cons not0_implies_Suc Suc_le_mono le0)
  then show ?case using Cons by simp
qed simp

interpretation matcher: sql_like like_match "(=)"
proof
  show "like_match (CHR ''%'' # p) s \<longleftrightarrow> (\<exists>k \<le> length s. like_match p (drop k s))" for p s
    by (rule like_match_percent)
next
  fix c :: char and p s
  assume "c \<in> {CHR ''%'', CHR ''_'', CHR 0x5C}"
  show "like_match (CHR 0x5C # c # p) s \<longleftrightarrow> (\<exists>d s'. s = d # s' \<and> c = d \<and> like_match p s')"
    by (cases s) auto
next
  fix c :: char and p s
  assume "c \<notin> {CHR ''%'', CHR ''_'', CHR 0x5C}"
  then have "c \<noteq> CHR ''%''" "c \<noteq> CHR ''_''" "c \<noteq> CHR 0x5C" by simp_all
  then show "like_match (c # p) s \<longleftrightarrow> (\<exists>d s'. s = d # s' \<and> c = d \<and> like_match p s')"
    by (cases s) simp_all
qed simp

text \<open>
  C29: a text search matches what its operator says and nothing in the value is a wildcard: the LIKE
  pattern it binds matches exactly the strings that begin with, contain or end with the value, up to
  the collation, for any server whose LIKE obeys the documented laws.
\<close>

theorem text_search_matches:
  assumes "sql_like like same" and "op \<in> {''begins'', ''contains'', ''ends''}"
    and "text_clause env column op v = (sql, [SqlValue (PStr pattern)])"
  shows "sql = column @ '' LIKE %s'' \<and>
    (like pattern s \<longleftrightarrow>
      (\<exists>a m b. s = a @ m @ b \<and> list_all2 same (py_str env v) m
        \<and> (op = ''begins'' \<longrightarrow> a = []) \<and> (op = ''ends'' \<longrightarrow> b = [])))"
proof -
  let ?w = "py_str env v"
  have sql: "sql = column @ '' LIKE %s''" and p: "pattern = like_pattern op (escape_like ?w)"
    using assms(2,3) by (auto simp: text_clause_def)
  consider "op = ''begins''" | "op = ''contains''" | "op = ''ends''" using assms(2) by blast
  then show ?thesis
  proof cases
    case 1
    then have "pattern = escape_like ?w @ ''%''" by (simp add: p like_pattern_def)
    then show ?thesis using sql sql_like.like_begins [OF assms(1), of ?w s] 1 by simp
  next
    case 2
    then have "pattern = ''%'' @ escape_like ?w @ ''%''" by (simp add: p like_pattern_def)
    then show ?thesis using sql sql_like.like_contains [OF assms(1), of ?w s] 2 by simp
  next
    case 3
    then have "pattern = ''%'' @ escape_like ?w" by (simp add: p like_pattern_def)
    then show ?thesis using sql sql_like.like_ends [OF assms(1), of ?w s] 3 by simp
  qed
qed

theorem text_search_matches_witness:
  "like_match [CHR ''%'', CHR 0x5C, CHR ''%'', CHR ''%''] ''100%!''
   \<longleftrightarrow> (\<exists>a m b. ''100%!'' = a @ m @ b \<and> list_all2 (=) ''%'' m)"
proof -
  have "text_clause demo_table_env ''`c`'' ''contains'' (PStr ''%'')
      = (''`c` LIKE %s'', [SqlValue (PStr [CHR ''%'', CHR 0x5C, CHR ''%'', CHR ''%''])])"
    by code_simp
  from text_search_matches [OF matcher.sql_like_axioms _ this, of "''100%!''"]
  show ?thesis by (simp add: demo_table_env_def py_str_def)
qed


subsection \<open>Totals\<close>

text \<open>
  The total a page reports is the number of all matching rows, however the page falls (first,
  last, short, empty or beyond the end) and whether or not a count statement is issued, when the server
  applies LIMIT and OFFSET and counts as documented.
\<close>

theorem table_read_total:
  assumes "0 \<le> limit" "0 \<le> offset" "p_limit page = Some limit" "p_offset page = Some offset"
    and "search_sql env t page = Inr (w, ws)"
    and "ex_select ex (''SELECT * FROM ('' @ sql @ '') AS `t`'' @ w @ order_sql t page @ fst (limit_sql page))
          (ps @ ws @ snd (limit_sql page)) s = (Inr (take (nat limit) (drop (nat offset) matching)), s')"
    and "ex_select ex (''SELECT COUNT(*) AS `total` FROM ('' @ sql @ '') AS `t`'' @ w) (ps @ ws) s'
          = (Inr [[(''total'', PInt (int (length matching)))]], s'')"
  shows "fst (table_read ex env t sql ps (Some page) s)
    = Inr (take (nat limit) (drop (nat offset) matching), int (length matching))"
proof -
  obtain paging pp where l: "limit_sql page = (paging, pp)" by fastforce
  let ?rows = "take (nat limit) (drop (nat offset) matching)"
  have total: "row_total [[(''total'', PInt (int (length matching)))]] = Inr (int (length matching))"
    by (simp add: row_total_def row_item_def)
  have short: "offset + int (length ?rows) = int (length matching)"
    if "int (length ?rows) < limit" "?rows \<noteq> [] \<or> offset = 0"
    using that assms(1,2) by (auto simp: min_def split: if_splits)
  have read: "table_read ex env t sql ps (Some page) s =
      (if int (length ?rows) < limit \<and> (?rows \<noteq> [] \<or> offset = 0)
       then (Inr (?rows, offset + int (length ?rows)), s') else (Inr (?rows, int (length matching)), s''))"
    unfolding table_read_def option.case assms(3-5) l fst_conv snd_conv
      db_bind_def db_lift_def db_return_def Let_def prod.case sum.case assms(6) [unfolded l fst_conv snd_conv]
      if_distrib [of "\<lambda>f. f s'"] assms(7) total
    by (rule refl)
  show ?thesis
  proof (cases "int (length ?rows) < limit \<and> (?rows \<noteq> [] \<or> offset = 0)")
    case True
    then have "offset + int (length ?rows) = int (length matching)" by (intro short) blast+
    then show ?thesis using read by (simp only: True simp_thms if_True fst_conv)
  next
    case False
    then show ?thesis using read by (simp only: if_False fst_conv)
  qed
qed

definition counting_server :: server where
  "counting_server = demo_server\<lparr>sv_rows := \<lambda>log. Inr (if length log = 1 then [] else [[(''total'', PInt 3)]])\<rparr>"

lemma demo_search_beyond: "search_sql demo_table_env USERS (demo_page\<lparr>p_offset := Some 4\<rparr>) =
     Inr ('' WHERE `user` LIKE %s'', [SqlValue (PStr [CHR ''%'', CHR ''x'', CHR 0x5C, CHR ''%'', CHR ''%''])])"
  by code_simp

theorem table_read_total_witness:
  "fst (table_read (recorder counting_server) demo_table_env USERS ''q'' [] (Some (demo_page\<lparr>p_offset := Some 4\<rparr>)) [])
     = Inr ([], 3)"
  using table_read_total [OF _ _ _ _ demo_search_beyond, of 2 4 "recorder counting_server" "''q''" "[]" "[]" "[[], [], []]"]
  by (simp add: recorder_def counting_server_def demo_page_def)

subsection \<open>Passwords\<close>

lemma save_statement: "ex_modify (recorder sv) sql ps log = (sv_count sv (log @ [(sql, ps)]), log @ [(sql, ps)])"
  by (simp add: recorder_def)

text \<open>
  Saving a user issues one statement. A password equal to the mask the reads show leaves the
  stored hash alone; any other password is stored as its hash, bound masked, so neither the
  statement nor its debug log ever holds the clear text or the hash.
\<close>

theorem users_save_statement:
  assumes "map_of posted ''user'' = Some u" "map_of posted ''name'' = Some n" "map_of posted ''password'' = Some (PStr p)"
    and "te_crypt env p (te_salt env) = Inr (Some h)"
  shows "snd (users_save (recorder sv) env USERS recid posted []) =
      [if recid = 0 then (insert_of USERS 1, [SqlValue u, SqlValue n, SqlMasked (PStr h)])
       else if p = mask then (update_of USERS [''user'', ''name''], [SqlValue u, SqlValue n, SqlValue (PInt recid)])
       else (update_of USERS (t_columns USERS), [SqlValue u, SqlValue n, SqlMasked (PStr h), SqlValue (PInt recid)])]
    \<and> param_repr rep (SqlMasked (PStr h)) = rep (SqlValue (PStr mask))"
  using assms
  by (simp add: users_save_def db_bind_def db_lift_def field_item_def row_item_def hashed_def hash_password_def
      save_statement param_repr_def Let_def)

theorem users_save_statement_witness:
  "snd (users_save (recorder demo_server) demo_table_env USERS 3
      [(''user'', PStr ''a''), (''name'', PStr ''A''), (''password'', PStr ''secret'')] [])
   = [(update_of USERS (t_columns USERS),
       [SqlValue (PStr ''a''), SqlValue (PStr ''A''), SqlMasked (PStr ''$secret''), SqlValue (PInt 3)])]"
proof -
  have "te_crypt demo_table_env ''secret'' (te_salt demo_table_env) = Inr (Some ''$secret'')"
    by (simp add: demo_table_env_def)
  from users_save_statement [OF _ _ _ this, of "[(''user'', PStr ''a''), (''name'', PStr ''A''), (''password'', PStr ''secret'')]"]
  show ?thesis by (simp add: mask_def)
qed

end
