(* ===== verification/PowerDNS_Queries_Properties.thy ===== *)
theory PowerDNS_Queries_Properties
  imports PowerDNS_Queries Table_Properties
begin

section \<open>Properties of the DNS queries\<close>

text \<open>The zone candidates of a name, and the placeholders of the lookup.\<close>

lemma map_upt_Cons: "map (\<lambda>i. f (drop i (x # xs))) [0..<length (x # xs)] = f (x # xs) # map (\<lambda>i. f (drop i xs)) [0..<length xs]"
  by (simp add: upt_conv_Cons del: upt_Suc) (simp add: map_Suc_upt [symmetric] comp_def del: upt_Suc)

lemma dot_split:
  assumes "CHR ''.'' \<notin> set l"
  shows "l @ CHR ''.'' # j = p @ CHR ''.'' # s \<longleftrightarrow> (p = l \<and> s = j) \<or> (\<exists>q. p = l @ CHR ''.'' # q \<and> j = q @ CHR ''.'' # s)"
  using assms by (auto simp: append_eq_append_conv2 Cons_eq_append_conv append_eq_Cons_conv)

lemma suffix_joins:
  "ls \<noteq> [] \<Longrightarrow> \<forall>l \<in> set ls. CHR ''.'' \<notin> set l \<Longrightarrow>
     s \<in> set (map (\<lambda>i. join ''.'' (drop i ls)) [0..<length ls])
       \<longleftrightarrow> s = join ''.'' ls \<or> (\<exists>p. join ''.'' ls = p @ CHR ''.'' # s)"
proof (induction ls)
  case (Cons l ls)
  show ?case
  proof (cases ls)
    case Nil
    with Cons.prems show ?thesis by auto
  next
    case (Cons m ms)
    then have j: "join ''.'' (l # ls) = l @ CHR ''.'' # join ''.'' ls" by simp
    have "CHR ''.'' \<notin> set l" using Cons.prems by simp
    then show ?thesis
      using Cons.IH Cons.prems \<open>ls = m # ms\<close>
      unfolding map_upt_Cons j dot_split [OF \<open>CHR ''.'' \<notin> set l\<close>] by auto
  qed
qed simp

lemma zone_suffixes_iff: "s \<in> set (zone_suffixes q) \<longleftrightarrow> s = q \<or> (\<exists>p. q = p @ CHR ''.'' # s)"
  using suffix_joins [of "split_on (CHR ''.'') q" s] split_on_no_sep [of _ "CHR ''.''" q]
  by (simp add: zone_suffixes_def join_split_on Let_def)

lemma gslb_records_placeholders: "placeholders (gslb_records_sql n any) = n + (if any then 3 else 4)"
proof -
  have "placeholders (a @ sql_block b) = placeholders a + placeholders (sql_block b)" for a b
    by (rule placeholders_append_hd) (simp add: sql_block_def newline_def)
  then show ?thesis
    by (simp add: gslb_records_sql_def placeholders_sql_block placeholders_Cons placeholders_marks_paren [of _ "[]", simplified])
qed

text \<open>
  A lookup runs one statement that binds what it marks; its zone candidates are the queried name,
  without trailing dots, and what follows each of its dots, and nothing else, so the owning zone is
  matched at label boundaries only.
\<close>

theorem gslb_records_statement:
  "\<exists>sql zones.
     snd (gslb_records (recorder sv) qname qtype []) =
       [(sql, map (\<lambda>s. SqlValue (PStr s))
          (zones @ replicate 3 (rstrip_dots qname) @ (if qtype = ''ANY'' then [] else [qtype])))]
     \<and> placeholders sql = length zones + (if qtype = ''ANY'' then 3 else 4)
     \<and> set zones = {s. s = rstrip_dots qname \<or> (\<exists>p. rstrip_dots qname = p @ CHR ''.'' # s)}"
  by (intro exI [of _ "gslb_records_sql (length (zone_suffixes (rstrip_dots qname))) (qtype = ''ANY'')"]
      exI [of _ "zone_suffixes (rstrip_dots qname)"])
    (simp add: gslb_records_def Let_def recorder_def gslb_records_placeholders numeral_3_eq_3 set_eq_iff zone_suffixes_iff)

end
