(* ===== verification/Mysql_Database.thy ===== *)
theory Mysql_Database
  imports Sql
begin

section \<open>The database connection\<close>

text \<open>
  \<open>database/mysql/database.py\<close>: one connection of \<open>mysql.connector\<close>, reconnected when it died while
  idle, and the transactions over it. The connector is a \<open>driver\<close> over an abstract world: connections
  and cursors are handles, every call may change the world and may raise, and what a buffered cursor
  holds after \<open>execute\<close> is its \<open>cursor_result\<close>. The exceptions of the model are all
  \<open>Exception\<close>s; \<open>mysql.connector.Error\<close> is \<open>mysql_error\<close>.
\<close>

record cursor_result =
  cr_lastrowid :: "int option"
  cr_rowcount :: int
  cr_description :: "string list option"
  cr_rows :: "pyval list list"

record 'w driver =
  dr_connect :: "('w, nat) db"
  dr_close :: "nat \<Rightarrow> ('w, unit) db"
  dr_is_connected :: "nat \<Rightarrow> ('w, bool) db"
  dr_cursor :: "nat \<Rightarrow> ('w, nat) db"
  dr_execute :: "nat \<Rightarrow> string \<Rightarrow> sql_param list \<Rightarrow> ('w, cursor_result) db"
  dr_close_cursor :: "nat \<Rightarrow> ('w, unit) db"
  dr_autocommit :: "nat \<Rightarrow> bool \<Rightarrow> ('w, unit) db"
  dr_commit :: "nat \<Rightarrow> ('w, unit) db"
  dr_rollback :: "nat \<Rightarrow> ('w, unit) db"

record 'w mysql =
  my_world :: 'w
  my_conn :: nat
  my_last_id :: int
  my_in_tx :: bool

definition mysql_error :: py_error where
  "mysql_error = DatabaseError"

subsection \<open>Exception handling\<close>

definition db_suppress :: "(py_error \<Rightarrow> bool) \<Rightarrow> ('s, unit) db \<Rightarrow> ('s, unit) db" where
  "db_suppress p m = (\<lambda>s. case m s of (Inl e, s') \<Rightarrow> (if p e then Inr () else Inl e, s') | r \<Rightarrow> r)"

definition db_catch :: "(py_error \<Rightarrow> bool) \<Rightarrow> ('s, 'a) db \<Rightarrow> (py_error \<Rightarrow> ('s, 'a) db) \<Rightarrow> ('s, 'a) db" where
  "db_catch p m h = (\<lambda>s. case m s of (Inl e, s') \<Rightarrow> if p e then h e s' else (Inl e, s') | r \<Rightarrow> r)"

text \<open>\<open>try: m finally: f\<close>: an exception of \<open>f\<close> replaces that of \<open>m\<close>.\<close>

definition db_finally :: "('s, 'a) db \<Rightarrow> ('s, unit) db \<Rightarrow> ('s, 'a) db" where
  "db_finally m f = (\<lambda>s. case m s of (r, s') \<Rightarrow> (case f s' of (Inl e, s'') \<Rightarrow> (Inl e, s'') | (Inr _, s'') \<Rightarrow> (r, s'')))"

definition on_world :: "('w, 'a) db \<Rightarrow> ('w mysql, 'a) db" where
  "on_world m = (\<lambda>s. case m (my_world s) of (r, w) \<Rightarrow> (r, s\<lparr>my_world := w\<rparr>))"

definition on_conn :: "(nat \<Rightarrow> ('w, 'a) db) \<Rightarrow> ('w mysql, 'a) db" where
  "on_conn m = (\<lambda>s. on_world (m (my_conn s)) s)"

definition db_update :: "('s \<Rightarrow> 's) \<Rightarrow> ('s, unit) db" where
  "db_update f = (\<lambda>s. (Inr (), f s))"

definition db_gets :: "('s \<Rightarrow> 'a) \<Rightarrow> ('s, 'a) db" where
  "db_gets f = (\<lambda>s. (Inr (f s), s))"

subsection \<open>Connecting\<close>

definition mysql_init :: "'w driver \<Rightarrow> 'w \<Rightarrow> 'w mysql result \<times> 'w" where
  "mysql_init d w =
     (case dr_connect d w of
        (Inl e, w') \<Rightarrow> (Inl e, w')
      | (Inr c, w') \<Rightarrow> (Inr \<lparr>my_world = w', my_conn = c, my_last_id = 0, my_in_tx = False\<rparr>, w'))"

definition mysql_reconnect :: "'w driver \<Rightarrow> ('w mysql, unit) db" where
  "mysql_reconnect d =
     db_bind (db_suppress (\<lambda>e. e = mysql_error) (on_conn (dr_close d)))
       (\<lambda>_. db_bind (on_world (dr_connect d)) (\<lambda>c. db_update (\<lambda>s. s\<lparr>my_conn := c\<rparr>)))"

definition mysql_exit :: "'w driver \<Rightarrow> ('w mysql, unit) db" where
  "mysql_exit d = db_suppress (\<lambda>e. e = mysql_error) (on_conn (dr_close d))"

definition open_cursor :: "'w driver \<Rightarrow> ('w mysql, nat) db" where
  "open_cursor d =
     db_catch (\<lambda>e. e = mysql_error) (on_conn (dr_cursor d))
       (\<lambda>e. db_bind (db_gets my_in_tx)
          (\<lambda>in_tx. db_bind (if in_tx then db_return True else on_conn (dr_is_connected d))
             (\<lambda>raises. if raises then db_raise e
                       else db_bind (mysql_reconnect d) (\<lambda>_. on_conn (dr_cursor d)))))"

subsection \<open>Statements\<close>

text \<open>\<open>_cursor\<close> around its block, which reads the executed cursor.\<close>

definition with_cursor ::
    "'w driver \<Rightarrow> string \<Rightarrow> sql_param list \<Rightarrow> (cursor_result \<Rightarrow> ('w mysql, 'a) db) \<Rightarrow> ('w mysql, 'a) db" where
  "with_cursor d operation params block =
     db_bind (open_cursor d)
       (\<lambda>cursor. db_finally
          (db_bind (on_world (dr_execute d cursor (join_operation operation) (unwrap_params params)))
             (\<lambda>res. db_bind (db_update (\<lambda>s. s\<lparr>my_last_id := (case cr_lastrowid res of None \<Rightarrow> 0 | Some i \<Rightarrow> i)\<rparr>))
                (\<lambda>_. block res)))
          (on_world (dr_close_cursor d cursor)))"

text \<open>\<open>dict(zip(column_names, row))\<close>: the last of equal names wins, at the place of the first.\<close>

definition row_dict :: "string list \<Rightarrow> pyval list \<Rightarrow> row" where
  "row_dict names vals = foldl (\<lambda>r (k, v). AList.update k v r) [] (zip names vals)"

definition mysql_select :: "'w driver \<Rightarrow> string \<Rightarrow> sql_param list \<Rightarrow> ('w mysql, row list) db" where
  "mysql_select d operation params =
     with_cursor d operation params
       (\<lambda>res. case cr_description res of
          None \<Rightarrow> db_raise (TypeError (CHR 0x27 # ''NoneType'' @ CHR 0x27 # '' object is not iterable''))
        | Some names \<Rightarrow> db_return (map (row_dict names) (cr_rows res)))"

definition mysql_modify :: "'w driver \<Rightarrow> string \<Rightarrow> sql_param list \<Rightarrow> ('w mysql, int) db" where
  "mysql_modify d operation params = with_cursor d operation params (\<lambda>res. db_return (cr_rowcount res))"

definition mysql_executor :: "'w driver \<Rightarrow> 'w mysql executor" where
  "mysql_executor d =
     \<lparr>ex_select = mysql_select d, ex_modify = mysql_modify d, ex_last_insert_id = my_last_id\<rparr>"

subsection \<open>Transactions\<close>

text \<open>The \<open>try\<close> of \<open>transaction\<close>, with the block at its \<open>yield\<close>.\<close>

definition protected_block :: "'w driver \<Rightarrow> ('w mysql, 'a) db \<Rightarrow> ('w mysql, 'a) db" where
  "protected_block d block =
     db_finally
       (db_catch (\<lambda>_. True)
          (db_bind block (\<lambda>x. db_bind (on_conn (dr_commit d)) (\<lambda>_. db_return x)))
          (\<lambda>e. db_bind (db_suppress (\<lambda>_. True) (on_conn (dr_rollback d))) (\<lambda>_. db_raise e)))
       (db_bind (db_update (\<lambda>s. s\<lparr>my_in_tx := False\<rparr>)) (\<lambda>_. on_conn (\<lambda>c. dr_autocommit d c True)))"

definition mysql_transaction :: "'w driver \<Rightarrow> ('w mysql, 'a) db \<Rightarrow> ('w mysql, 'a) db" where
  "mysql_transaction d block =
     db_bind (on_conn (dr_is_connected d))
       (\<lambda>connected. db_bind (if connected then db_return () else mysql_reconnect d)
          (\<lambda>_. db_bind (on_conn (\<lambda>c. dr_autocommit d c False))
             (\<lambda>_. db_bind (db_update (\<lambda>s. s\<lparr>my_in_tx := True\<rparr>)) (\<lambda>_. protected_block d block))))"

end
