(* ===== verification/Transactions.thy ===== *)
theory Transactions
  imports Mysql_Database Table_Properties
begin

section \<open>Transactions publish all or nothing\<close>

text \<open>
  \<open>transactional\<close> is the contract of a driver over a transactional server; inside it, a transaction
  of \<open>Mysql_Database\<close> publishes the whole of its block or nothing. A transactional driver is a \<open>binding\<close>
  executor whose invariant is the open transaction.
\<close>

subsection \<open>What the driver promises\<close>

text \<open>
  \<open>committed\<close> is what every session sees, \<open>pending\<close> what the session of a connection sees, \<open>auto\<close> whether
  the connection commits every statement on its own, \<open>conn_of\<close> the connection of a cursor. With
  autocommit off nothing but \<open>commit\<close> publishes; turning it on publishes what is pending; a rollback, or
  the loss of the session that makes it fail, leaves nothing pending.
\<close>

locale transactional =
  fixes d :: "'w driver" and committed :: "'w \<Rightarrow> 'd" and pending :: "'w \<Rightarrow> nat \<Rightarrow> 'd"
    and auto :: "'w \<Rightarrow> nat \<Rightarrow> bool" and conn_of :: "nat \<Rightarrow> nat"
  assumes is_connected: "committed (snd (dr_is_connected d c w)) = committed w"
    and is_connected_auto: "\<not> auto w c \<Longrightarrow> \<not> auto (snd (dr_is_connected d c w)) c"
    and reconnecting: "committed (snd (dr_connect d w)) = committed w" "committed (snd (dr_close d c w)) = committed w"
    and cursor: "committed (snd (dr_cursor d c w)) = committed w" "\<not> auto w c \<Longrightarrow> \<not> auto (snd (dr_cursor d c w)) c"
      "dr_cursor d c w = (Inr k, w') \<Longrightarrow> conn_of k = c"
    and execute: "\<not> auto w (conn_of k) \<Longrightarrow> committed (snd (dr_execute d k sql ps w)) = committed w"
      "\<not> auto w (conn_of k) \<Longrightarrow> \<not> auto (snd (dr_execute d k sql ps w)) (conn_of k)"
    and close_cursor: "committed (snd (dr_close_cursor d k w)) = committed w"
      "\<not> auto w c \<Longrightarrow> \<not> auto (snd (dr_close_cursor d k w)) c"
    and autocommit_off: "committed (snd (dr_autocommit d c False w)) = committed w"
      "dr_autocommit d c False w = (Inr (), w') \<Longrightarrow> \<not> auto w' c"
    and commit: "dr_commit d c w = (Inr (), w') \<Longrightarrow> committed w' = pending w c \<and> pending w' c = committed w'"
      "dr_commit d c w = (Inl e, w') \<Longrightarrow> committed w' \<in> {committed w, pending w c}"
    and rollback: "committed (snd (dr_rollback d c w)) = committed w"
      "pending (snd (dr_rollback d c w)) c = committed w"
    and autocommit_on: "committed (snd (dr_autocommit d c True w)) \<in> {committed w, pending w c}"
begin

text \<open>The state inside a transaction on connection \<open>c\<close> that has published nothing beyond \<open>D\<close>.\<close>

definition in_block :: "nat \<Rightarrow> 'd \<Rightarrow> 'w mysql \<Rightarrow> bool" where
  "in_block c D s \<longleftrightarrow> my_in_tx s \<and> my_conn s = c \<and> \<not> auto (my_world s) c \<and> committed (my_world s) = D"

lemma open_cursor_block:
  assumes "in_block c D s"
  shows "in_block c D (snd (open_cursor d s))" and "fst (open_cursor d s) = Inr k \<Longrightarrow> conn_of k = c"
  using assms cursor(1,2) [where c = c and w = "my_world s"] cursor(3) [where c = c and w = "my_world s"]
  by (auto simp: in_block_def open_cursor_def db_catch_def on_conn_def on_world_def db_bind_def db_gets_def
      split: prod.splits sum.splits if_splits)

lemma with_cursor_block:
  assumes "in_block c D s" and "\<And>res s. in_block c D s \<Longrightarrow> in_block c D (snd (block res s))"
  shows "in_block c D (snd (with_cursor d sql ps block s))"
proof (cases "open_cursor d s")
  case (Pair r s1)
  show ?thesis
  proof (cases r)
    case (Inl e)
    then show ?thesis using open_cursor_block(1) [OF assms(1)] Pair by (simp add: with_cursor_def db_bind_def)
  next
    case (Inr k)
    have s1: "in_block c D s1" "conn_of k = c" using open_cursor_block [OF assms(1)] Pair Inr by auto
    obtain q w where x: "dr_execute d k (join_operation sql) (unwrap_params ps) (my_world s1) = (q, w)" by fastforce
    have s2: "in_block c D (s1\<lparr>my_world := w\<rparr>)"
      using s1 execute [where k = k and w = "my_world s1" and sql = "join_operation sql" and ps = "unwrap_params ps"] by (simp add: in_block_def x)
    have close: "in_block c D (snd (on_world (dr_close_cursor d k) t))" if "in_block c D t" for t
      using that close_cursor [where k = k and w = "my_world t"] by (auto simp: in_block_def on_world_def split: prod.split)
    have fin: "in_block c D (snd (db_finally m (on_world (dr_close_cursor d k)) t))" if "in_block c D (snd (m t))" for m :: "('w mysql, 'x) db" and t
      using close [OF that] by (auto simp: db_finally_def split: prod.splits sum.splits)
    have upd: "in_block c D (t\<lparr>my_last_id := i\<rparr>) = in_block c D t" for t i by (simp add: in_block_def)
    show ?thesis
      unfolding with_cursor_def db_bind_def Pair Inr prod.case sum.case
      by (rule fin) (auto simp: on_world_def x db_update_def upd s2 intro!: assms(2) split: sum.split)
  qed
qed

lemma select_block: "in_block c D s \<Longrightarrow> in_block c D (snd (mysql_select d sql ps s))"
  unfolding mysql_select_def
  by (rule with_cursor_block) (auto split: option.split)

lemma modify_block: "in_block c D s \<Longrightarrow> in_block c D (snd (mysql_modify d sql ps s))"
  unfolding mysql_modify_def by (rule with_cursor_block) simp_all

end

text \<open>Inside a transaction every statement is allowed, so every table operation keeps the block.\<close>

sublocale transactional \<subseteq> session: binding "mysql_executor d" "in_block c D" for c D
  by unfold_locales (simp_all add: mysql_executor_def select_block modify_block)

context transactional
begin

definition publishes :: "('w mysql, 'a) db \<Rightarrow> 'w mysql \<Rightarrow> 'a \<Rightarrow> 'w mysql \<Rightarrow> bool" where
  "publishes block s x s' \<longleftrightarrow>
     (\<exists>t u. in_block (my_conn t) (committed (my_world s)) t \<and> block t = (Inr x, u)
        \<and> committed (my_world s') = pending (my_world u) (my_conn u))"

text \<open>The end of a transaction, from a state with nothing pending.\<close>

lemma autocommit_clean:
  "pending w c = committed w \<Longrightarrow> committed (snd (dr_autocommit d c True w)) = committed w"
  using autocommit_on [of c w] by simp

lemma committed_block:
  assumes "in_block c D t" and "\<And>t. in_block c D t \<Longrightarrow> in_block c D (snd (block t))"
    and "protected_block d block t = (r, s')"
  shows "\<not> my_in_tx s'"
    and "committed (my_world s') = D \<or> (\<exists>x u. block t = (Inr x, u) \<and> committed (my_world s') = pending (my_world u) c)"
    and "r = Inr x \<Longrightarrow> \<exists>u. block t = (Inr x, u) \<and> committed (my_world s') = pending (my_world u) c"
proof -
  obtain q u where b: "block t = (q, u)" by fastforce
  have u: "my_conn u = c" "committed (my_world u) = D"
    using assms(2) [OF assms(1)] b by (simp_all add: in_block_def)
  obtain q1 w1 where com: "dr_commit d c (my_world u) = (q1, w1)" by fastforce
  obtain q2 w2 where rol: "dr_rollback d c (my_world u) = (q2, w2)" by fastforce
  obtain q3 w3 where rol1: "dr_rollback d c w1 = (q3, w3)" by fastforce
  obtain a1 v1 where at1: "dr_autocommit d c True w1 = (a1, v1)" by fastforce
  obtain a2 v2 where at2: "dr_autocommit d c True w2 = (a2, v2)" by fastforce
  obtain a3 v3 where at3: "dr_autocommit d c True w3 = (a3, v3)" by fastforce
  note defs = protected_block_def db_finally_def db_catch_def db_bind_def db_suppress_def on_conn_def on_world_def
    db_update_def
  have f2: "committed v2 = D"
    using rollback [of c "my_world u"] autocommit_clean [of w2 c] at2 rol u by simp
  have f3: "committed v3 = committed w1"
    using rollback [of c w1] autocommit_clean [of w3 c] at3 rol1 by simp
  have c_ok: "committed w1 = pending (my_world u) c" "committed v1 = committed w1" if "q1 = Inr ()"
    using commit(1) [of c "my_world u" w1] autocommit_clean [of w1 c] com at1 that by simp_all
  have c_err: "committed w1 \<in> {D, pending (my_world u) c}" if "q1 = Inl e" for e
    using commit(2) [of c "my_world u" e w1] com that u by simp
  consider e where "q = Inl e" | x e where "q = Inr x" "q1 = Inl e" | x where "q = Inr x" "q1 = Inr ()"
    by (cases q; cases q1) auto
  then have "\<not> my_in_tx s' \<and>
      (committed (my_world s') = D \<or> (\<exists>x u. block t = (Inr x, u) \<and> committed (my_world s') = pending (my_world u) c)) \<and>
      (\<forall>x. r = Inr x \<longrightarrow> (\<exists>u. block t = (Inr x, u) \<and> committed (my_world s') = pending (my_world u) c))"
  proof cases
    case 1
    with assms(3) b rol at2 u f2 show ?thesis
      by (cases q2; cases a2) (auto simp: defs)
  next
    case 2
    with assms(3) b com rol1 at3 u f3 c_err show ?thesis
      by (cases q3; cases a3) (auto simp: defs)
  next
    case 3
    with assms(3) b com at1 u c_ok show ?thesis
      by (cases a1) (auto simp: defs)
  qed
  then show "\<not> my_in_tx s'"
    and "committed (my_world s') = D \<or> (\<exists>x u. block t = (Inr x, u) \<and> committed (my_world s') = pending (my_world u) c)"
    and "r = Inr x \<Longrightarrow> \<exists>u. block t = (Inr x, u) \<and> committed (my_world s') = pending (my_world u) c"
    by blast+
qed

lemma reconnect_committed: "committed (my_world (snd (mysql_reconnect d s))) = committed (my_world s)"
    "my_in_tx (snd (mysql_reconnect d s)) = my_in_tx s"
  using reconnecting(2) [of "my_conn s" "my_world s"] reconnecting(1)
  by (auto simp: mysql_reconnect_def db_bind_def db_suppress_def on_conn_def on_world_def db_update_def
      split: prod.splits sum.splits if_splits) (metis snd_conv)+

text \<open>
  A transaction publishes all of its block or nothing, everything when it returns, and always leaves
  transaction mode.
\<close>

lemma transaction_atomic:
  assumes "\<And>c D t. in_block c D t \<Longrightarrow> in_block c D (snd (block t))"
    and "mysql_transaction d block s = (r, s')" and "\<not> my_in_tx s"
  shows "\<not> my_in_tx s'"
    and "committed (my_world s') = committed (my_world s) \<or> (\<exists>x. publishes block s x s')"
    and "r = Inr x \<Longrightarrow> publishes block s x s'"
proof -
  let ?D = "committed (my_world s)"
  obtain q1 w1 where ping: "dr_is_connected d (my_conn s) (my_world s) = (q1, w1)" by fastforce
  let ?s1 = "s\<lparr>my_world := w1\<rparr>"
  have d1: "committed w1 = ?D" using is_connected [of "my_conn s" "my_world s"] ping by simp
  obtain q2 s2 where re: "(if q1 = Inr True then db_return () else mysql_reconnect d) ?s1 = (q2, s2)" by fastforce
  have d2: "committed (my_world s2) = ?D" "\<not> my_in_tx s2"
    using reconnect_committed [of ?s1] re d1 assms(3) by (auto split: if_splits)
  obtain q3 w3 where off: "dr_autocommit d (my_conn s2) False (my_world s2) = (q3, w3)" by fastforce
  let ?t = "s2\<lparr>my_world := w3, my_in_tx := True\<rparr>"
  have d3: "committed w3 = ?D" "q3 = Inr () \<Longrightarrow> \<not> auto w3 (my_conn s2)"
    using autocommit_off(1) [of "my_conn s2" "my_world s2"] autocommit_off(2) [of "my_conn s2" "my_world s2" w3] off d2
    by auto
  note defs = mysql_transaction_def db_bind_def on_conn_def on_world_def db_update_def
  have "\<not> my_in_tx s' \<and> (committed (my_world s') = ?D \<or> (\<exists>x. publishes block s x s')) \<and> (\<forall>x. r = Inr x \<longrightarrow> publishes block s x s')"
  proof (cases "\<exists>b. q1 = Inr b \<and> q2 = Inr () \<and> q3 = Inr ()")
    case False
    then have "committed (my_world s') = ?D \<and> \<not> my_in_tx s' \<and> (\<exists>e. r = Inl e)"
      using assms(2,3) ping re off d1 d2 d3(1) by (cases q1; cases q2; cases q3) (auto simp: defs)
    then show ?thesis by auto
  next
    case True
    then obtain b where ok: "q1 = Inr b" "q2 = Inr ()" "q3 = Inr ()" by blast
    have t: "in_block (my_conn ?t) ?D ?t" using d3 ok by (simp add: in_block_def)
    have run: "protected_block d block ?t = (r, s')"
      using assms(2) ping re off ok by (auto simp: defs)
    note c = committed_block [OF t assms(1) run]
    have kept: "my_conn u = my_conn ?t" if "block ?t = (Inr x, u)" for x u
      using assms(1) [OF t] that by (simp add: in_block_def)
    show ?thesis using c t kept unfolding publishes_def by metis
  qed
  then show "\<not> my_in_tx s'" "committed (my_world s') = ?D \<or> (\<exists>x. publishes block s x s')"
    "r = Inr x \<Longrightarrow> publishes block s x s'"
    by blast+
qed

end

end
