(* ===== verification/W2UI_Properties.thy ===== *)
theory W2UI_Properties
  imports W2UI Transactions
begin

section \<open>Properties of the audited admin operations\<close>

text \<open>
  Deletions and saves publish all or nothing over any \<open>transactional\<close> driver, and the audited records are
  the deleted ones. \<open>sim_driver\<close> is a server that satisfies the contract, failures included.
\<close>

subsection \<open>The blocks issue bound statements\<close>

context binding
begin

lemma safe_read_row: "table_names_ok t \<Longrightarrow> safe (read_row ex env t recid)"
  unfolding read_row_def by (intro safe_bind safe_table_get) (auto split: prod.split list.split)

lemma AUDIT_ok: "table_names_ok AUDIT" "t_class AUDIT = AuditTable"
  using tables_names_ok by (simp_all add: TABLES_def AUDIT_def)

lemma safe_delete_block: "table_names_ok t \<Longrightarrow> safe (delete_block ex env rep data t ids user)"
  unfolding delete_block_def
  by (intro safe_bind safe_table_get)
     (auto split: prod.split intro!: safe_bind safe_table_remove safe_audit_record AUDIT_ok)

lemma safe_save_block: "table_names_ok t \<Longrightarrow> safe (save_block ex env rep data t recid user posted)"
  unfolding save_block_def
  by (auto split: option.split
      intro!: safe_bind safe_table_save safe_written_recid safe_read_row safe_audit_record AUDIT_ok)

end

lemma w2ui_table_ok: "w2ui_table data = Inr t \<Longrightarrow> table_names_ok t"
  by (auto simp: w2ui_table_def split: option.splits dest!: map_of_SomeD intro: table_names_okI)


subsection \<open>Writes are atomic\<close>

lemma db_bind_lift: "db_bind (db_lift (Inr x)) f = f x"
  by (simp add: db_bind_def fun_eq_iff)

text \<open>The block ran inside a transaction begun on what \<open>s\<close> had published, and \<open>s'\<close> has published its end.\<close>

definition commits_block :: "('w \<Rightarrow> 'd) \<Rightarrow> ('w \<Rightarrow> nat \<Rightarrow> 'd) \<Rightarrow> ('w mysql, 'a) db \<Rightarrow> 'w mysql \<Rightarrow> 'a \<Rightarrow> 'w mysql \<Rightarrow> bool" where
  "commits_block committed pending block s x s' \<longleftrightarrow>
     (\<exists>t u. my_in_tx t \<and> committed (my_world t) = committed (my_world s) \<and> block t = (Inr x, u)
        \<and> committed (my_world s') = pending (my_world u) (my_conn u))"

context transactional
begin

lemma publishes_commits: "publishes block s x s' \<Longrightarrow> commits_block committed pending block s x s'"
  unfolding publishes_def commits_block_def in_block_def by blast

lemma write_atomic:
  assumes "\<And>t c D. w2ui_table data = Inr t \<Longrightarrow> session.safe c D (block t)"
    and "db_bind (db_lift (w2ui_table data)) (\<lambda>t. mysql_transaction d (block t)) s = (r, s')" and "\<not> my_in_tx s"
  shows "\<not> my_in_tx s' \<and>
    (committed (my_world s') = committed (my_world s)
     \<or> (\<exists>t x. w2ui_table data = Inr t \<and> commits_block committed pending (block t) s x s')) \<and>
    (\<forall>x. r = Inr x \<longrightarrow> (\<exists>t. w2ui_table data = Inr t \<and> commits_block committed pending (block t) s x s'))"
proof (cases "w2ui_table data")
  case (Inl e)
  with assms(2,3) show ?thesis by (auto simp: db_bind_def)
next
  case (Inr t)
  then have run: "mysql_transaction d (block t) s = (r, s')" using assms(2) by (simp add: db_bind_def)
  have keeps: "in_block c D u \<Longrightarrow> in_block c D (snd (block t u))" for c D u
    using assms(1) [OF Inr, of c D] by (simp add: session.safe_def)
  have "\<not> my_in_tx s'" by (rule transaction_atomic(1) [OF keeps run assms(3)])
  moreover have "committed (my_world s') = committed (my_world s) \<or> (\<exists>x. publishes (block t) s x s')"
    by (rule transaction_atomic(2) [OF keeps run assms(3)])
  moreover have "publishes (block t) s x s'" if "r = Inr x" for x
    by (rule transaction_atomic(3) [OF keeps run assms(3) that])
  ultimately show ?thesis using Inr by (auto intro: publishes_commits)
qed

lemma delete_safe: "w2ui_table data = Inr t \<Longrightarrow> session.safe c D (delete_block (mysql_executor d) env rep data t ids user)"
  by (rule session.safe_delete_block [OF w2ui_table_ok])

lemma save_safe: "w2ui_table data = Inr t \<Longrightarrow> session.safe c D (save_block (mysql_executor d) env rep data t recid user posted)"
  by (rule session.safe_save_block [OF w2ui_table_ok])

lemmas delete_atomic =
  write_atomic [where block = "\<lambda>t. delete_block (mysql_executor d) env rep data t ids user" and data = data,
    OF delete_safe, folded delete_data_def] for env rep data ids user
lemmas save_atomic =
  write_atomic [where block = "\<lambda>t. save_block (mysql_executor d) env rep data t recid user posted" and data = data,
    OF save_safe] for env rep data recid user posted

end

text \<open>
  C7: an admin deletion or save publishes all of its statements, the audit rows included, or none of
  them. When it returns, everything its block wrote is committed; whatever fails (a statement, the audit
  insert, the connection, the commit itself), the stored data is what it was, or all of the block; and
  transaction mode is always left.
\<close>

theorem w2ui_writes_atomic:
  assumes "transactional d committed pending auto conn_of" and "\<not> my_in_tx s"
    and "delete_data (mysql_executor d) (mysql_transaction d) env rep data ids user s = (r, s')"
    and "save_data (mysql_executor d) (mysql_transaction d) env rep data recid user posted s = (q, u)"
  shows "(\<not> my_in_tx s' \<and>
      (committed (my_world s') = committed (my_world s)
       \<or> (\<exists>t n. w2ui_table data = Inr t
            \<and> commits_block committed pending (delete_block (mysql_executor d) env rep data t ids user) s n s')) \<and>
      (\<forall>n. r = Inr n \<longrightarrow> (\<exists>t. w2ui_table data = Inr t
            \<and> commits_block committed pending (delete_block (mysql_executor d) env rep data t ids user) s n s'))) \<and>
    (\<not> my_in_tx u \<and>
      (committed (my_world u) = committed (my_world s)
       \<or> (\<exists>t n. w2ui_table data = Inr t
            \<and> commits_block committed pending (save_block (mysql_executor d) env rep data t recid user posted) s n u)) \<and>
      (\<forall>n. q = Inr n \<longrightarrow> (\<exists>t. w2ui_table data = Inr t
            \<and> commits_block committed pending (save_block (mysql_executor d) env rep data t recid user posted) s n u)))"
proof (rule conjI [OF transactional.delete_atomic [OF assms(1) _ assms(3,2)]])
  show "\<not> my_in_tx u \<and>
      (committed (my_world u) = committed (my_world s)
       \<or> (\<exists>t n. w2ui_table data = Inr t
            \<and> commits_block committed pending (save_block (mysql_executor d) env rep data t recid user posted) s n u)) \<and>
      (\<forall>n. q = Inr n \<longrightarrow> (\<exists>t. w2ui_table data = Inr t
            \<and> commits_block committed pending (save_block (mysql_executor d) env rep data t recid user posted) s n u))"
  proof (cases "no_clash [''self'', ''data'', ''save_recid'', ''user_context''] posted")
    case (Inl e)
    then show ?thesis using assms(2,4) by (auto simp: save_data_def db_bind_def)
  next
    case (Inr x)
    then have run: "db_bind (db_lift (w2ui_table data))
        (\<lambda>t. mysql_transaction d (save_block (mysql_executor d) env rep data t recid user posted)) s = (q, u)"
      using assms(4) by (simp add: save_data_def db_bind_lift)
    show ?thesis by (rule transactional.save_atomic [OF assms(1) _ run assms(2)])
  qed
qed


subsection \<open>A transactional server\<close>

text \<open>
  A driver over a server that keeps its published and its session's statements and fails where
  \<open>sim_faults\<close> says; a failing call loses the session. \<open>reply\<close> is the result of a statement.
\<close>

record sim =
  sim_data :: "statement list"
  sim_session :: "statement list"
  sim_auto :: bool
  sim_faults :: "bool list"

definition sim_call :: "(sim \<Rightarrow> 'a \<times> sim) \<Rightarrow> (sim, 'a) db" where
  "sim_call f = (\<lambda>w.
     let w' = w\<lparr>sim_faults := tl (sim_faults w)\<rparr>
     in if sim_faults w \<noteq> [] \<and> hd (sim_faults w) then (Inl DatabaseError, w'\<lparr>sim_session := sim_data w\<rparr>)
        else (case f w' of (x, w'') \<Rightarrow> (Inr x, w'')))"

definition sim_driver :: "(string \<Rightarrow> cursor_result) \<Rightarrow> sim driver" where
  "sim_driver reply =
     \<lparr>dr_connect = sim_call (\<lambda>w. (0, w\<lparr>sim_session := sim_data w, sim_auto := True\<rparr>)),
      dr_close = (\<lambda>c. sim_call (\<lambda>w. ((), w\<lparr>sim_session := sim_data w\<rparr>))),
      dr_is_connected = (\<lambda>c. sim_call (\<lambda>w. (True, w))),
      dr_cursor = (\<lambda>c. sim_call (\<lambda>w. (c, w))),
      dr_execute = (\<lambda>k sql ps. sim_call (\<lambda>w.
         let run = sim_session w @ [(sql, ps)]
         in (reply sql, w\<lparr>sim_session := run, sim_data := (if sim_auto w then run else sim_data w)\<rparr>))),
      dr_close_cursor = (\<lambda>k. sim_call (\<lambda>w. ((), w))),
      dr_autocommit = (\<lambda>c b. sim_call (\<lambda>w. ((), if b then w\<lparr>sim_data := sim_session w, sim_auto := True\<rparr> else w\<lparr>sim_auto := False\<rparr>))),
      dr_commit = (\<lambda>c. sim_call (\<lambda>w. ((), w\<lparr>sim_data := sim_session w\<rparr>))),
      dr_rollback = (\<lambda>c. sim_call (\<lambda>w. ((), w\<lparr>sim_session := sim_data w\<rparr>)))\<rparr>"

interpretation sim: transactional "sim_driver reply" sim_data "\<lambda>w c. sim_session w" "\<lambda>w c. sim_auto w" "\<lambda>k. k" for reply
  by unfold_locales (auto simp: sim_driver_def sim_call_def Let_def split: if_splits)


definition demo_user :: user_context where
  "demo_user = \<lparr>uc_id = PInt 1, uc_user = ''admin'', uc_name = PStr ''Admin'', uc_client_ip = ''10.0.0.9''\<rparr>"

definition demo_reply :: "string \<Rightarrow> cursor_result" where
  "demo_reply sql =
     \<lparr>cr_lastrowid = Some 7, cr_rowcount = 1, cr_description = Some [''recid'', ''domain''],
      cr_rows = [[PInt 7, PStr ''example.com'']]\<rparr>"

definition demo_sim :: "sim mysql" where
  "demo_sim =
     \<lparr>my_world = \<lparr>sim_data = [], sim_session = [], sim_auto = True, sim_faults = []\<rparr>,
      my_conn = 0, my_last_id = 0, my_in_tx = False\<rparr>"

definition demo_save :: "(sim mysql, int) db" where
  "demo_save =
     save_data (mysql_executor (sim_driver demo_reply)) (mysql_transaction (sim_driver demo_reply))
       demo_table_env (\<lambda>_. []) ''domains'' 0 demo_user [(''domain'', PStr ''example.com'')]"

lemma demo_save_returns: "fst (demo_save demo_sim) = Inr 1"
  by code_simp


theorem w2ui_writes_atomic_witness:
  "\<exists>t. w2ui_table ''domains'' = Inr t
     \<and> commits_block sim_data (\<lambda>w c. sim_session w)
         (save_block (mysql_executor (sim_driver demo_reply)) demo_table_env (\<lambda>_. []) ''domains'' t 0 demo_user
            [(''domain'', PStr ''example.com'')])
         demo_sim 1 (snd (demo_save demo_sim))"
proof -
  have free: "\<not> my_in_tx demo_sim" by (simp add: demo_sim_def)
  have run: "demo_save demo_sim = (Inr 1, snd (demo_save demo_sim))"
    using demo_save_returns by (simp add: prod_eq_iff)
  show ?thesis
    using w2ui_writes_atomic [OF sim.transactional_axioms free _ run [unfolded demo_save_def], of "[]"] demo_save_def
    by (metis surj_pair)
qed

subsection \<open>The audited set\<close>

text \<open>
  C33: a deletion deletes by key exactly the rows it has read, and the audit insert that follows has
  one row per deleted record with its stored state before and none after. When nothing is deleted,
  nothing is audited.
\<close>

theorem delete_data_audited:
  assumes "map_of TABLES data = Some t" and "t_class t \<notin> {AuditTable, StatusTable}"
    and "table_get (recorder sv) env t 0 (Some (recid_page ids)) [] [] = (Inr (records, cnt), sent)"
    and "mapr (\<lambda>r. row_item r ''recid'') records = Inr recids" and "records \<noteq> []"
    and "sv_count sv (sent @ [(delete_of t (length records), map SqlValue recids)]) = Inr n"
  shows "snd (delete_data (recorder sv) (\<lambda>block. block) env rep data ids user []) =
    sent @ (delete_of t (length records), map SqlValue recids) #
      (if n = 0 then []
       else [(insert_of AUDIT (length records),
              map SqlValue (concat (map (\<lambda>(i, r).
                [PStr (uc_user user), PStr (uc_client_ip user), PStr ''delete'', PStr data, i,
                 optional_str (record_json rep (Some r)), PNone]) (zip recids records))))])"
proof -
  have len: "length recids = length records" and ne: "recids \<noteq> []"
    using mapr_length [OF assms(4)] assms(5) by auto
  have remove: "table_remove (recorder sv) t recids sent = (Inr n, sent @ [(delete_of t (length records), map SqlValue recids)])"
    using assms(2,6) len ne
    by (cases "t_class t") (simp_all add: table_remove_def base_remove_def recorder_def)
  have row: "(audit_values \<circ> (\<lambda>(i, r). make_audit_row rep ''delete'' data user i (Some r) None)) =
      (\<lambda>(i, r). [PStr (uc_user user), PStr (uc_client_ip user), PStr ''delete'', PStr data, i,
                 optional_str (record_json rep (Some r)), PNone])"
    by (auto simp: fun_eq_iff audit_values_def make_audit_row_def optional_str_def record_json_def)
  have audit: "snd (audit_record (recorder sv) AUDIT
        (map (\<lambda>(i, r). make_audit_row rep ''delete'' data user i (Some r) None) (zip recids records)) l)
      = l @ [(insert_of AUDIT (length records), map SqlValue (concat (map (\<lambda>(i, r).
                [PStr (uc_user user), PStr (uc_client_ip user), PStr ''delete'', PStr data, i,
                 optional_str (record_json rep (Some r)), PNone]) (zip recids records))))]" for l
    using len ne assms(5) by (simp add: audit_record_def recorder_def row)
  have "snd (db_bind m (\<lambda>_. db_return x) l) = snd (m l)" for m :: "(statement list, int) db" and x :: int and l
    by (simp add: db_bind_def split: prod.split sum.split)
  with audit show ?thesis
    by (simp add: delete_data_def w2ui_table_def assms(1) db_bind_lift delete_block_def
        db_bind_def [of "table_get _ _ _ _ _ _"] db_bind_def [of "table_remove _ _ _"] assms(3,4) remove)
qed


definition delete_server :: server where
  "delete_server = demo_server\<lparr>sv_rows := \<lambda>_. Inr [[(''recid'', PInt 7), (''domain'', PStr ''a.org'')], [(''recid'', PInt 9)]]\<rparr>"

theorem delete_data_audited_witness:
  "length (snd (delete_data (recorder delete_server) (\<lambda>block. block) demo_table_env (\<lambda>_. []) ''domains''
     [PInt 7, PInt 9] demo_user [])) = 3"
proof -
  have t: "map_of TABLES ''domains'' = Some DOMAINS" "t_class DOMAINS \<notin> {AuditTable, StatusTable}"
    by (simp_all add: TABLES_def DOMAINS_def plain_table_def)
  have get: "table_get (recorder delete_server) demo_table_env DOMAINS 0 (Some (recid_page [PInt 7, PInt 9])) [] []
      = (Inr ([[(''recid'', PInt 7), (''domain'', PStr ''a.org'')], [(''recid'', PInt 9)]], 2),
         snd (table_get (recorder delete_server) demo_table_env DOMAINS 0 (Some (recid_page [PInt 7, PInt 9])) [] []))"
    and one: "length (snd (table_get (recorder delete_server) demo_table_env DOMAINS 0
      (Some (recid_page [PInt 7, PInt 9])) [] [])) = 1"
    by code_simp+
  have cnt: "sv_count delete_server l = Inr 1" for l by (simp add: delete_server_def demo_server_def)
  have keys: "mapr (\<lambda>r. row_item r ''recid'') [[(''recid'', PInt 7), (''domain'', PStr ''a.org'')], [(''recid'', PInt 9)]]
      = Inr [PInt 7, PInt 9]"
    by (simp add: row_item_def)
  from delete_data_audited [OF t get keys _ cnt, of "\<lambda>_. []" demo_user] show ?thesis by (simp add: one)
qed

end
