(* ===== verification/Monitor_Properties.thy ===== *)
theory Monitor_Properties
  imports Monitor_Manager
begin

section \<open>Properties of the monitor\<close>

text \<open>
  The debounce, the deadline loops, the construction of checks from rows, and reconciliation: after it,
  exactly the desired checks run, undisturbed threads keep running, and no status of an id that is not
  monitored remains.
\<close>

subsection \<open>Reconciliation\<close>

definition monitor_inv :: "monitor \<Rightarrow> bool" where
  "monitor_inv m \<longleftrightarrow> distinct (map fst (m_threads m)) \<and>
     (\<forall>k r. map_of (m_threads m) k = Some r \<longrightarrow>
        ct_content_id (rn_thread r) = k \<and> rn_serial r < m_next m \<and>
        (\<forall>k' r'. map_of (m_threads m) k' = Some r' \<longrightarrow> k' \<noteq> k \<longrightarrow> rn_serial r' \<noteq> rn_serial r))"

lemma map_of_filter_key: "map_of (filter (\<lambda>(i, c). P i) d) k = (if P k then map_of d k else None)"
  by (induction d) auto

lemma map_of_replacements:
  "distinct (map fst ts) \<Longrightarrow>
   map_of (replacements alive desired ts) k =
     (case map_of ts k of None \<Rightarrow> None
      | Some r \<Rightarrow> (case map_of desired k of None \<Rightarrow> None
          | Some c \<Rightarrow> if \<not> alive (rn_serial r) \<or> ct_check (rn_thread r) \<noteq> c then Some c else None))"
proof (induction ts)
  case (Cons x ts)
  obtain i r where x: "x = (i, r)" by (cases x)
  have "i \<notin> fst ` set ts" using Cons.prems x by simp
  then have "map_of ts i = None" by (simp add: map_of_eq_None_iff)
  with Cons x show ?case
    by (cases "map_of desired i") (auto simp: replacements_def map_filter_simps split: option.split)
qed (simp add: replacements_def map_filter_simps)

lemma replacements_keys: "fst ` set (replacements alive desired ts) \<subseteq> fst ` set ts"
  by (induction ts) (auto simp: replacements_def map_filter_simps split: option.splits if_splits)

lemma distinct_replacements:
  "distinct (map fst ts) \<Longrightarrow> distinct (map fst (replacements alive desired ts))"
proof (induction ts)
  case (Cons x ts)
  obtain i r where x: "x = (i, r)" by (cases x)
  have "i \<notin> fst ` set (replacements alive desired ts)"
    using Cons.prems x replacements_keys [of alive desired ts] by auto
  moreover have "replacements alive desired (x # ts) = replacements alive desired ts \<or>
      (\<exists>c. replacements alive desired (x # ts) = (i, c) # replacements alive desired ts)"
    by (auto simp: x replacements_def map_filter_simps split: option.split)
  ultimately show ?case using Cons by auto
qed (simp add: replacements_def map_filter_simps)

lemma map_of_delete_all:
  "map_of (foldl (\<lambda>ts r. AList.delete (f r) ts) ts rs) k = (if k \<in> f ` set rs then None else map_of ts k)"
  by (induction rs arbitrary: ts) (auto simp: delete_conv')

lemma distinct_delete_all:
  "distinct (map fst ts) \<Longrightarrow> distinct (map fst (foldl (\<lambda>ts r. AList.delete (f r) ts) ts rs))"
  by (induction rs arbitrary: ts) (auto simp: distinct_delete)

lemma start_thread_inv: "monitor_inv m \<Longrightarrow> monitor_inv (start_thread i c m)"
  by (auto simp: monitor_inv_def start_thread_def update_conv' distinct_update check_thread_init_def
      less_Suc_eq split: if_splits) (metis less_irrefl_nat)+

lemma start_all:
  assumes "monitor_inv m" "distinct (map fst starts)"
  defines "m' \<equiv> foldl (\<lambda>m (i, c). start_thread i c m) m starts"
  shows "monitor_inv m' \<and> m_next m \<le> m_next m' \<and> m_status m' = m_status m \<and>
    (map_of starts k = None \<longrightarrow> map_of (m_threads m') k = map_of (m_threads m) k) \<and>
    (\<forall>c. map_of starts k = Some c \<longrightarrow>
       (\<exists>n \<ge> m_next m. map_of (m_threads m') k = Some \<lparr>rn_thread = check_thread_init c k, rn_serial = n\<rparr>))"
  using assms(1,2) unfolding m'_def
proof (induction starts arbitrary: m)
  case (Cons s starts)
  obtain i c where s: "s = (i, c)" by (cases s)
  let ?m = "start_thread i c m"
  have "monitor_inv ?m" using Cons.prems by (simp add: start_thread_inv)
  note IH = Cons.IH [OF this] 
  have n: "m_next ?m = Suc (m_next m)" "m_status ?m = m_status m"
    "map_of (m_threads ?m) = (map_of (m_threads m))(i \<mapsto> \<lparr>rn_thread = check_thread_init c i, rn_serial = m_next m\<rparr>)"
    by (simp_all add: start_thread_def update_conv')
  have i: "map_of starts i = None" using Cons.prems(2) s by (simp add: map_of_eq_None_iff)
  show ?case
  proof (cases "k = i")
    case True
    with IH Cons.prems(2) i n show ?thesis by (auto simp: s)
  next
    case False
    with IH Cons.prems(2) i n show ?thesis by (fastforce simp: s)
  qed
qed simp

lemma inv_delete_all:
  assumes "monitor_inv m"
  shows "monitor_inv (m\<lparr>m_threads := foldl (\<lambda>ts r. AList.delete (f r) ts) (m_threads m) rs\<rparr>)"
  using assms by (auto simp: monitor_inv_def map_of_delete_all distinct_delete_all split: if_splits)

text \<open>By content id: which threads are kept, and which checks get a new thread.\<close>

lemma kept_thread:
  assumes "monitor_inv m"
  shows "map_of (foldl (\<lambda>ts r. AList.delete (ct_content_id (rn_thread r)) ts) (m_threads m)
      (map snd (filter (to_stop alive desired) (m_threads m)))) k =
    (case map_of (m_threads m) k of None \<Rightarrow> None | Some r \<Rightarrow> if to_stop alive desired (k, r) then None else Some r)"
proof -
  have "distinct (map fst (m_threads m))" and "(i, r) \<in> set (m_threads m) \<Longrightarrow> ct_content_id (rn_thread r) = i" for i r
    using assms by (simp_all add: monitor_inv_def)
  then have "k \<in> (\<lambda>r. ct_content_id (rn_thread r)) ` set (map snd (filter (to_stop alive desired) (m_threads m))) \<longleftrightarrow>
      (\<exists>r. map_of (m_threads m) k = Some r \<and> to_stop alive desired (k, r))"
    by (force simp: image_iff)
  then show ?thesis by (simp add: map_of_delete_all del: set_map set_filter split: option.split)
qed

lemma started_check:
  "distinct (map fst ts) \<Longrightarrow>
   map_of (replacements alive desired ts @ filter (\<lambda>(i, c). map_of ts i = None) desired) k =
     (case map_of desired k of None \<Rightarrow> None
      | Some c \<Rightarrow> (case map_of ts k of None \<Rightarrow> Some c
          | Some r \<Rightarrow> if \<not> alive (rn_serial r) \<or> ct_check (rn_thread r) \<noteq> c then Some c else None))"
  by (auto simp: map_add_def map_of_replacements map_of_filter_key split: option.split)

lemma distinct_starts:
  assumes "distinct (map fst ts)" and "distinct (map fst desired)"
  shows "distinct (map fst (replacements alive desired ts @ filter (\<lambda>(i, c). map_of ts i = None) desired))"
proof -
  have "fst ` set (filter (\<lambda>(i, c). map_of ts i = None) desired) \<inter> fst ` set ts = {}"
    by (force simp: map_of_eq_None_iff)
  then have "set (map fst (replacements alive desired ts)) \<inter> set (map fst (filter (\<lambda>(i, c). map_of ts i = None) desired)) = {}"
    using replacements_keys [of alive desired ts] by (simp only: set_map) blast
  then show ?thesis
    unfolding map_append distinct_append
    using distinct_replacements [OF assms(1)] distinct_map_filter [OF assms(2)] by blast
qed

text \<open>The threads after reconciliation, by content id.\<close>

lemma reconcile_thread:
  assumes inv: "monitor_inv m" and d: "distinct (map fst desired)"
    and m': "reconcile alive alive' desired m = (m', stopped)"
  shows "monitor_inv m'"
    and "m_status m' = m_status m \<inter> fst ` set desired"
    and "map_of desired k = None \<Longrightarrow> map_of (m_threads m') k = None"
    and "map_of desired k = Some c \<Longrightarrow> map_of (m_threads m) k = Some r \<Longrightarrow> alive (rn_serial r) \<Longrightarrow>
           ct_check (rn_thread r) = c \<Longrightarrow> map_of (m_threads m') k = Some r"
    and "map_of desired k = Some c \<Longrightarrow>
           \<not> (\<exists>r. map_of (m_threads m) k = Some r \<and> alive (rn_serial r) \<and> ct_check (rn_thread r) = c) \<Longrightarrow>
           \<exists>n \<ge> m_next m. map_of (m_threads m') k = Some \<lparr>rn_thread = check_thread_init c k, rn_serial = n\<rparr>"
proof -
  let ?T = "m_threads m"
  let ?starts = "replacements alive desired ?T @ filter (\<lambda>(i, c). map_of ?T i = None) desired"
  let ?kept = "m\<lparr>m_threads := foldl (\<lambda>ts r. AList.delete (ct_content_id (rn_thread r)) ts) ?T (map snd (filter (to_stop alive desired) ?T))\<rparr>"
  obtain n where n: "n = foldl (\<lambda>m (i, c). start_thread i c m) ?kept ?starts" by blast
  have T: "distinct (map fst ?T)" using inv by (simp add: monitor_inv_def)
  note starts = started_check [OF T, of alive desired] and kept = kept_thread [OF inv, of alive desired]
  have "monitor_inv ?kept" and "distinct (map fst ?starts)" by (rule inv_delete_all [OF inv], rule distinct_starts [OF T d])
  note all = start_all [OF this, folded n]
  have "m' = clean_status (fst ` set desired) n" using m' by (simp add: n reconcile_def Let_def)
  then have fields: "m_threads m' = m_threads n" "m_next m' = m_next n" "m_status m' = m_status n \<inter> fst ` set desired"
    by (simp_all add: clean_status_def registry_retain_def)
  have inv_n: "monitor_inv n" "m_status n = m_status m" using all by simp_all
  have old: "map_of ?starts k = None \<Longrightarrow> map_of (m_threads m') k = (case map_of ?T k of None \<Rightarrow> None
      | Some r \<Rightarrow> if to_stop alive desired (k, r) then None else Some r)" for k
    using all [of k] unfolding fields(1) kept [symmetric] by simp
  have fresh: "map_of ?starts k = Some c \<Longrightarrow>
      \<exists>i \<ge> m_next m. map_of (m_threads m') k = Some \<lparr>rn_thread = check_thread_init c k, rn_serial = i\<rparr>" for k c
    using all [of k] unfolding fields(1) by simp
  show "monitor_inv m'" using inv_n(1) fields by (simp add: monitor_inv_def)
  show "m_status m' = m_status m \<inter> fst ` set desired" using inv_n(2) fields(3) by simp
  show "map_of (m_threads m') k = None" if "map_of desired k = None"
    using old [unfolded starts] that by (simp add: to_stop_def split: option.split)
  show "map_of (m_threads m') k = Some r"
    if "map_of desired k = Some c" "map_of ?T k = Some r" "alive (rn_serial r)" "ct_check (rn_thread r) = c"
    using old [unfolded starts] that by (simp add: to_stop_def)
  show "\<exists>n \<ge> m_next m. map_of (m_threads m') k = Some \<lparr>rn_thread = check_thread_init c k, rn_serial = n\<rparr>"
    if "map_of desired k = Some c"
      "\<not> (\<exists>r. map_of ?T k = Some r \<and> alive (rn_serial r) \<and> ct_check (rn_thread r) = c)"
    using that by (intro fresh, unfold starts) (auto split: option.split)
qed

lemma desired_loop_Some:
  assumes "distinct (map rc_id raws)"
  shows "map_of (desired_loop env loads d raws) k = Some c \<longleftrightarrow>
    (\<exists>raw \<in> set raws. rc_id raw = k \<and> build_check env loads (rc_content raw) (rc_monitor_json raw) = Inr c \<and> \<not> check_skip c)
    \<or> (map_of d k = Some c \<and> (\<forall>raw \<in> set raws. rc_id raw = k \<longrightarrow>
         \<not> (\<exists>c. build_check env loads (rc_content raw) (rc_monitor_json raw) = Inr c \<and> \<not> check_skip c)))"
  using assms
proof (induction raws arbitrary: d)
  case (Cons raw raws)
  have "distinct (map rc_id raws)" using Cons.prems by simp
  note IH = Cons.IH [OF this]
  have "rc_id raw \<notin> rc_id ` set raws" using Cons.prems by simp
  then have new: "\<And>x. x \<in> set raws \<Longrightarrow> rc_id x \<noteq> rc_id raw" by (metis image_eqI)
  show ?case
  proof (cases "build_check env loads (rc_content raw) (rc_monitor_json raw)")
    case (Inl e)
    then show ?thesis by (auto simp: IH)
  next
    case (Inr c')
    show ?thesis
    proof (cases "check_skip c'")
      case True
      with Inr show ?thesis by (auto simp: IH)
    next
      case False
      with Inr new show ?thesis by (cases "rc_id raw = k") (auto simp: IH update_conv')
    qed
  qed
qed simp

lemma distinct_desired_loop: "distinct (map fst d) \<Longrightarrow> distinct (map fst (desired_loop env loads d raws))"
  by (induction raws arbitrary: d) (auto simp: distinct_update split: sum.split)

text \<open>The check a row asks for.\<close>

definition wanted_check :: "check_env \<Rightarrow> (string \<Rightarrow> pyval result) \<Rightarrow> raw_check list \<Rightarrow> int \<Rightarrow> check \<Rightarrow> bool" where
  "wanted_check env loads raws k c \<longleftrightarrow>
     (\<exists>raw \<in> set raws. rc_id raw = k \<and>
        build_check env loads (rc_content raw) (rc_monitor_json raw) = Inr c \<and> \<not> check_skip c)"


definition demo_check_env :: check_env where
  "demo_check_env = \<lparr>ce_ip_ok = (\<lambda>s. s = ''10.0.0.1''), ce_regex_ok = (\<lambda>_. True),
     ce_urlsplit = (\<lambda>_. Inl (ValueError ''url'')), ce_urlunsplit = (\<lambda>p q. p)\<rparr>"

definition demo_loads :: "string \<Rightarrow> pyval result" where
  "demo_loads s = (if s = ''icmp'' then Inr (PDict [(KStr ''type'', PStr ''icmp''), (KStr ''ip'', PStr ''${content}'')])
     else Inl (ValueError s))"

definition demo_raws :: "raw_check list" where
  "demo_raws = [\<lparr>rc_id = 1, rc_content = ''10.0.0.1'', rc_monitor_json = ''icmp''\<rparr>,
                \<lparr>rc_id = 2, rc_content = ''10.0.0.2'', rc_monitor_json = ''icmp''\<rparr>]"

definition demo_monitor :: monitor where
  "demo_monitor = \<lparr>m_threads = [], m_next = 0, m_status = {1, 2}\<rparr>"

definition demo_check :: check where
  "demo_check = \<lparr>ck_interval = 3, ck_timeout = 1, ck_fall = 3, ck_rise = 5, ck_kind = IcmpCheck ''10.0.0.1''\<rparr>"

definition demo_monitor' :: monitor where
  "demo_monitor' = \<lparr>m_threads = [(1, \<lparr>rn_thread = check_thread_init demo_check 1, rn_serial = 0\<rparr>)],
     m_next = 1, m_status = {1}\<rparr>"

lemma demo_monitor_ok: "monitor_inv demo_monitor" "distinct (map rc_id demo_raws)"
  by (simp_all add: monitor_inv_def demo_monitor_def demo_raws_def)

lemma demo_monitor_task:
  "monitor_task demo_check_env demo_loads (\<lambda>_. True) (\<lambda>_. True) (Inr demo_raws) demo_monitor = Inr (demo_monitor', ([], 0))"
  by code_simp


text \<open>When the database cannot be read, a poll changes nothing: the running checks and the status stay.\<close>

theorem monitor_task_database_down:
  "monitor_task env loads alive alive' (Inl DatabaseError) m = Inr (m, ([], 0))"
  by (simp add: monitor_task_def desired_checks_def)

subsection \<open>Substitution\<close>

text \<open>The structure of a JSON value: everything but the contents of its strings.\<close>

primrec json_shape :: "pyval \<Rightarrow> pyval" where
  "json_shape PNone = PNone"
| "json_shape (PBool b) = PBool b"
| "json_shape (PInt i) = PInt i"
| "json_shape (PFloat m e) = PFloat m e"
| "json_shape (PStr s) = PStr []"
| "json_shape (PList xs) = PList (map json_shape xs)"
| "json_shape (PDict d) = PDict (map (map_prod id json_shape) d)"

text \<open>
  Substituting a record's content into a monitor's JSON changes the contents of string values only:
  no content, whatever quotes or braces it holds, adds, removes or retypes a parameter.
\<close>

theorem substitute_shape: "json_shape (substitute tok rep v) = json_shape v"
  by (induction v) auto

subsection \<open>The debounce\<close>

text \<open>
  The content goes down exactly at a failure that completes \<open>fall\<close> consecutive ones and up exactly
  at a success that completes \<open>rise\<close> consecutive ones; an exception of the check is a failure; no other
  content is touched.
\<close>

theorem check_tasks_debounce:
  assumes "check_tasks outcomes (check_thread_init c i) status = (t, status')"
  shows "(i \<in> status' \<longleftrightarrow> debounced (ck_fall c) (ck_rise c) (i \<in> status) (rev outcomes))
    \<and> (\<forall>j. j \<noteq> i \<longrightarrow> (j \<in> status' \<longleftrightarrow> j \<in> status))"
  using check_tasks_correct [of outcomes c i status] assms by auto

theorem check_tasks_debounce_witness:
  "debounced (ck_fall demo_check) (ck_rise demo_check) False (rev [Inr False, Inl (OtherError ''timeout''), Inr False, Inr True])"
proof -
  have "check_tasks [Inr False, Inl (OtherError ''timeout''), Inr False, Inr True] (check_thread_init demo_check 1) {}
      = ((check_thread_init demo_check 1)\<lparr>ct_fall := 0, ct_rise := 1\<rparr>, {1})"
    by code_simp
  from check_tasks_debounce [OF this] show ?thesis by simp
qed

lemma debounced_stable:
  assumes "1 \<le> fall" "\<And>n. n \<le> length xs \<Longrightarrow> int (trailing (\<lambda>y. \<not> healthy y) (rev (drop n xs))) < fall"
  shows "debounced fall rise False xs = False"
  using assms(2)
proof (induction xs)
  case (Cons x xs)
  have "debounced fall rise False xs = False" using Cons.prems [of "Suc _"] by (intro Cons.IH) simp
  moreover have "int (trailing (\<lambda>y. \<not> healthy y) (rev (x # xs))) < fall" using Cons.prems [of 0] by simp
  ultimately show ?case by (simp add: Let_def)
qed simp

text \<open>
  No flapping: a content that is up stays up as long as no \<open>fall\<close> consecutive runs have failed.
\<close>

theorem check_tasks_no_flap:
  assumes "1 \<le> ck_fall c" and "i \<notin> status"
    and "\<forall>n \<le> length outcomes. int (trailing (\<lambda>y. \<not> healthy y) (take n outcomes)) < ck_fall c"
  shows "i \<notin> snd (check_tasks outcomes (check_thread_init c i) status)"
proof -
  have "debounced (ck_fall c) (ck_rise c) False (rev outcomes) = False"
  proof (rule debounced_stable [OF assms(1)])
    fix n assume "n \<le> length (rev outcomes)"
    then have "int (trailing (\<lambda>y. \<not> healthy y) (take (length outcomes - n) outcomes)) < ck_fall c"
      using assms(3) by simp
    then show "int (trailing (\<lambda>y. \<not> healthy y) (rev (drop n (rev outcomes)))) < ck_fall c"
      by (simp add: drop_rev)
  qed
  with check_tasks_correct [of outcomes c i status] assms(2) show ?thesis by auto
qed

theorem check_tasks_no_flap_witness:
  "1 \<notin> snd (check_tasks [Inr False, Inr False, Inr True, Inr False] (check_thread_init demo_check 1) {})"
proof (rule check_tasks_no_flap)
  show "\<forall>n \<le> length [Inr False, Inr False, Inr True, Inr False :: bool result].
      int (trailing (\<lambda>y. \<not> healthy y) (take n [Inr False, Inr False, Inr True, Inr False])) < ck_fall demo_check"
    by (auto simp: le_Suc_eq trailing_def healthy_def demo_check_def)
qed (simp_all add: demo_check_def)

subsection \<open>Deadlines\<close>

definition stops_read :: "exec_event \<Rightarrow> bool" where
  "stops_read x \<longleftrightarrow> x_remaining x \<le> 0 \<or> \<not> x_ready x \<or> x_chunk x = []"

lemma read_output_step:
  "(if length out < n then out @ take (n - length out) c else out) = take n (take n out @ c)" if "length out \<le> n"
  using that by simp

lemma read_output_aux:
  "length out \<le> n \<Longrightarrow> \<not> (\<exists>x \<in> set pre. stops_read x) \<Longrightarrow> stops_read x \<Longrightarrow>
     read_output n out (pre @ x # post)
       = Some (take n (out @ concat (map x_chunk pre)), x_remaining x \<le> 0 \<or> \<not> x_ready x)"
proof (induction pre arbitrary: out)
  case Nil
  then show ?case by (auto simp: stops_read_def)
next
  case (Cons y pre)
  let ?out = "if length out < n then out @ take (n - length out) (x_chunk y) else out"
  have "length ?out \<le> n" using Cons.prems(1) by (auto simp: min_def)
  then have "read_output n ?out (pre @ x # post) =
      Some (take n (?out @ concat (map x_chunk pre)), x_remaining x \<le> 0 \<or> \<not> x_ready x)"
    using Cons.prems(2,3) by (intro Cons.IH) simp_all
  moreover have "take n (?out @ cs) = take n (out @ x_chunk y @ cs)" for cs
    using Cons.prems(1) by (simp add: take_Cons' split: nat_diff_split)
  ultimately show ?case using Cons.prems(2) by (simp add: stops_read_def)
qed

text \<open>
  The output of a command is read until its end or the deadline, whichever comes first; the bytes
  kept are the first \<open>output_chunk\<close> ones, and the flag says whether the deadline ended the read.
\<close>

theorem read_output_deadline:
  assumes "\<not> (\<exists>y \<in> set pre. stops_read y)" and "stops_read x"
  shows "read_output output_chunk [] (pre @ x # post) =
    Some (take output_chunk (concat (map x_chunk pre)), x_remaining x \<le> 0 \<or> \<not> x_ready x)"
  using read_output_aux [OF _ assms, of "[]" output_chunk post] by simp

theorem read_output_deadline_witness:
  "read_output 3 [] ([\<lparr>x_remaining = 5, x_ready = True, x_chunk = [1, 2]\<rparr>,
                      \<lparr>x_remaining = 4, x_ready = True, x_chunk = [3, 4]\<rparr>]
                     @ \<lparr>x_remaining = 0, x_ready = True, x_chunk = [5]\<rparr> # []) = Some ([1, 2, 3], True)"
  by (subst read_output_deadline) (simp_all add: stops_read_def eval_nat_numeral)

text \<open>
  The body read of an HTTP check holds at most \<open>body_chunk\<close> bytes, as long as \<open>read1\<close> respects its
  argument, and it reports a timeout rather than read past the deadline.
\<close>

theorem read_body_bounded:
  assumes "\<forall>x \<in> set xs. \<forall>n c. h_read1 x n = Chunk c \<longrightarrow> length c \<le> n"
    and "read_body meth body_chunk xs = Some (Inr (body, late))"
  shows "length body \<le> body_chunk \<and> (late \<longrightarrow> meth = ''GET'' \<and> length body < body_chunk)"
proof -
  have "length b0 \<le> body_chunk \<Longrightarrow> read_body_loop body_chunk b0 xs = Some (Inr (b, l)) \<Longrightarrow>
      length b \<le> body_chunk \<and> (l \<longrightarrow> length b < body_chunk)" for b0 b l
    using assms(1)
  proof (induction xs arbitrary: b0)
    case (Cons x xs)
    show ?case
    proof (cases "length b0 < body_chunk \<and> \<not> h_late x")
      case True
      then show ?thesis
      proof (cases "h_read1 x (body_chunk - length b0)")
        case (Chunk c)
        then have "length c \<le> body_chunk - length b0" using Cons.prems(3) by simp
        then have "length (b0 @ c) \<le> body_chunk" using True by (simp, linarith)
        note IH = Cons.IH [OF this]
        show ?thesis
        proof (cases "c = []")
          case False
          then have "read_body_loop body_chunk (b0 @ c) xs = Some (Inr (b, l))"
            using Cons.prems(2) True Chunk by simp
          then show ?thesis using IH Cons.prems(3) by simp
        qed (use Cons.prems True Chunk in auto)
      qed (use Cons True in auto)
    qed (use Cons.prems in \<open>auto split: if_splits\<close>)
  qed (auto split: if_splits)
  from this [of "[]"] assms(2) show ?thesis by (auto simp: read_body_def split: if_splits)
qed

theorem read_body_bounded_witness: "length [7, 8, 9 :: nat] \<le> 4 \<and> length [7, 8, 9 :: nat] < 4"
proof -
  have "length [7, 8, 9 :: nat] \<le> 4 \<and> (True \<longrightarrow> ''GET'' = ''GET'' \<and> length [7, 8, 9 :: nat] < 4)"
    by (rule read_body_bounded
          [where xs = "[\<lparr>h_late = False, h_read1 = (\<lambda>n. Chunk (take n [7, 8, 9]))\<rparr>,
                        \<lparr>h_late = True, h_read1 = (\<lambda>n. TimedOut)\<rparr>]"])
       (auto simp: read_body_def)
  then show ?thesis by simp
qed

text \<open>
  A command check is healthy only when the command ended before the deadline with the expected exit
  code and, if a pattern is given, the kept output matches it.
\<close>

theorem exec_execute_healthy:
  assumes "ck_kind c = ExecCheck args expected pattern redirect"
  shows "exec_execute opts world c = Some (Inr True) \<longleftrightarrow>
    (\<exists>events out. w_exec world args redirect = Inr (events, Some expected) \<and>
       read_output (nat (int_of (option_value opts ''exec_output_chunk''))) [] events = Some (out, False) \<and>
       (pattern = [] \<or> w_search world pattern out))"
  using assms by (auto simp: exec_execute_def split: sum.split option.split)

theorem exec_execute_healthy_witness:
  "exec_execute (default_options ''1'')
      \<lparr>w_ping = (\<lambda>_ _ _. Inr True), w_connect = (\<lambda>_ _ _. Inr ()), w_handshake = (\<lambda>_ _. Inr ()),
       w_search = (\<lambda>_ _. False), w_http = (\<lambda>_ _. Inl (OtherError ''e'')),
       w_exec = (\<lambda>_ _. Inr ([\<lparr>x_remaining = 1, x_ready = True, x_chunk = []\<rparr>], Some 0))\<rparr>
      (demo_check\<lparr>ck_kind := ExecCheck [''true''] 0 [] True\<rparr>) = Some (Inr True)"
  by (subst exec_execute_healthy) auto

end
