(* ===== verification/Admin_Properties.thy ===== *)
theory Admin_Properties
  imports Admin_Handler W2UI_Properties Monitor_Properties
begin

section \<open>Properties of the admin handler\<close>

text \<open>
  No response without credentials, error replies that disclose nothing, validation before any write and
  a log without passwords. The concrete inputs of the witnesses are over \<open>recorder\<close>.
\<close>

subsection \<open>Authorization\<close>

lemma split_pair_InrD: "split_pair c s = Inr (a, b) \<Longrightarrow> s = a @ c # b \<and> c \<notin> set a"
proof -
  assume p: "split_pair c s = Inr (a, b)"
  let ?d = "dropWhile (\<lambda>x. x \<noteq> c) s"
  from p have d: "?d \<noteq> []" and ab: "a = takeWhile (\<lambda>x. x \<noteq> c) s" "b = tl ?d"
    by (auto simp: split_pair_def str_partition_def Let_def split: bool.splits if_splits)
  then have "?d = c # b" using hd_dropWhile [of "\<lambda>x. x \<noteq> c" s] by (cases ?d) simp_all
  moreover have "c \<notin> set a" using ab(1) by (auto dest: set_takeWhileD)
  ultimately show ?thesis using takeWhile_dropWhile_id [of "\<lambda>x. x \<noteq> c" s] ab(1) by simp
qed

definition user_statement :: "string \<Rightarrow> statement" where
  "user_statement user =
     (''SELECT `id`, `user`, `name`, `password` FROM '' @ quoted (t_name USERS) @ '' WHERE `user` = %s'', [SqlValue (PStr user)])"

lemma check_user_accepts:
  assumes "check_user (recorder sv) env USERS user password [] = (Inr (x # xs), sent)"
  shows "\<exists>r rows v. sv_rows sv [user_statement user] = Inr (r # rows) \<and> map_of r ''password'' = Some v
    \<and> str_of v \<noteq> [] \<and> te_crypt env password (str_of v) = Inr (Some (str_of v))"
proof (cases "sv_rows sv [user_statement user]")
  case (Inl e)
  with assms show ?thesis by (simp add: check_user_def recorder_def user_statement_def db_bind_def)
next
  case (Inr rows)
  show ?thesis
  proof (cases rows)
    case Nil
    with Inr assms show ?thesis
      using verify_password_accepts(1) [of "te_crypt env" "te_dummy env" password "[]"]
      by (auto simp: check_user_def recorder_def user_statement_def db_bind_def bind_result_Inr_iff split: if_splits)
  next
    case (Cons r rs)
    with Inr assms obtain v where "row_item r ''password'' = Inr v"
      "verify_password (te_crypt env) (te_dummy env) password (str_of v) = Inr True"
      by (auto simp: check_user_def recorder_def user_statement_def db_bind_def bind_result_Inr_iff split: if_splits)
    then show ?thesis using Inr Cons verify_password_accepts
      by (fastforce simp: row_item_def split: option.splits)
  qed
qed

lemma check_user_sent: "snd (check_user (recorder sv) env USERS user password []) = [user_statement user]"
  by (simp add: check_user_def recorder_def user_statement_def db_bind_def split: sum.split)


lemma parse_credentials_InrD:
  "parse_credentials basic h = Inr (scheme, user, password) \<Longrightarrow>
     \<exists>base64. h = scheme @ CHR '' '' # base64 \<and> basic base64 = Inr (user @ CHR '':'' # password) \<and> CHR '':'' \<notin> set user"
  by (auto simp: parse_credentials_def bind_result_Inr_iff dest!: split_pair_InrD)

lemma is_authorized_Some:
  assumes "is_authorized env header ip [] = (Inr (Some u), sent)" and "ad_ex env = recorder sv"
  shows "\<exists>scheme base64 user password r rows v.
     header = Some (scheme @ CHR '' '' # base64) \<and> str_lower scheme = ''basic''
     \<and> ad_basic env base64 = Inr (user @ CHR '':'' # password) \<and> CHR '':'' \<notin> set user
     \<and> sent = [user_statement user] \<and> sv_rows sv [user_statement user] = Inr (r # rows)
     \<and> map_of r ''password'' = Some v \<and> str_of v \<noteq> []
     \<and> te_crypt (ad_table env) password (str_of v) = Inr (Some (str_of v))"
proof -
  from assms(1) obtain h where h: "header = Some h" by (cases header) (auto simp: is_authorized_def)
  obtain scheme user password where c: "parse_credentials (ad_basic env) h = Inr (scheme, user, password)"
    using assms(1) by (auto simp: is_authorized_def h split: if_splits sum.splits)
  have basic: "str_lower scheme = ''basic''"
    using assms(1) by (auto simp: is_authorized_def h c db_bind_def split: if_splits)
  obtain q sent' where run: "w2ui_check_user (ad_ex env) (ad_table env) user password [] = (q, sent')" by fastforce
  obtain x xs where rows: "q = Inr (x # xs)" and "sent = sent'"
    using assms(1) run by (auto simp: is_authorized_def h c basic db_bind_def split: if_splits sum.splits list.splits)
  moreover have "sent' = [user_statement user]"
    using check_user_sent [of sv "ad_table env" user password] run assms(2) by (simp add: w2ui_check_user_def)
  moreover note check_user_accepts [OF run [unfolded rows w2ui_check_user_def assms(2)]]
  ultimately show ?thesis using parse_credentials_InrD [OF c] h basic by blast
qed

lemma is_authorized_sent:
  assumes "is_authorized env header ip [] = (Inr None, sent)" and "ad_ex env = recorder sv"
  shows "sent = [] \<or> (\<exists>user. sent = [user_statement user])"
  using assms check_user_sent [of sv "ad_table env"]
  by (auto simp: is_authorized_def db_bind_def w2ui_check_user_def split: option.splits if_splits sum.splits list.splits prod.splits)
     (metis snd_conv)+

text \<open>The header that a server with these answers accepts.\<close>

definition valid_credentials :: "'s admin_env \<Rightarrow> server \<Rightarrow> string option \<Rightarrow> bool" where
  "valid_credentials env sv header \<longleftrightarrow>
     (\<exists>scheme base64 user password r rows v.
         header = Some (scheme @ CHR '' '' # base64) \<and> str_lower scheme = ''basic''
         \<and> ad_basic env base64 = Inr (user @ CHR '':'' # password) \<and> CHR '':'' \<notin> set user
         \<and> sv_rows sv [user_statement user] = Inr (r # rows)
         \<and> map_of r ''password'' = Some v \<and> str_of v \<noteq> []
         \<and> te_crypt (ad_table env) password (str_of v) = Inr (Some (str_of v)))"

lemma admin_route_guarded:
  assumes "admin_route env status rq [] = (Inr resp, sent)" and "ad_ex env = recorder sv"
  shows "if resp = Challenge then sent = [] \<or> (\<exists>user. sent = [user_statement user])
    else valid_credentials env sv (rq_authorization rq)"
proof -
  obtain q s1 where a: "is_authorized env (rq_authorization rq) (rq_client_ip rq) [] = (q, s1)" by fastforce
  with assms(1) obtain user where u: "q = Inr user" by (cases q) (auto simp: admin_route_def db_bind_def)
  show ?thesis
  proof (cases user)
    case None
    then have "resp = Challenge" "sent = s1" using assms(1) a u by (auto simp: admin_route_def db_bind_def)
    then show ?thesis using is_authorized_sent [OF a [unfolded u None] assms(2)] by simp
  next
    case (Some x)
    have "resp \<noteq> Challenge"
      using assms(1) a u Some by (auto simp: admin_route_def db_bind_def split: if_splits sum.splits prod.splits)
    moreover have "valid_credentials env sv (rq_authorization rq)"
      unfolding valid_credentials_def using is_authorized_Some [OF a [unfolded u Some] assms(2)] by blast
    ultimately show ?thesis by simp
  qed
qed

text \<open>
  No admin response but the challenge is given without valid Basic credentials: the header has the
  scheme, the decoded pair's user is the one whose row is read first, and hashing the password with its
  stored hash gives that hash. A challenged request has sent at most the query of that row.
\<close>

theorem admin_requires_credentials:
  assumes "admin_route env status rq [] = (Inr resp, sent)" and "ad_ex env = recorder sv"
  shows "(resp = Challenge \<longrightarrow> sent = [] \<or> (\<exists>user. sent = [user_statement user])) \<and>
    (resp \<noteq> Challenge \<longrightarrow>
      (\<exists>scheme base64 user password r rows v.
         rq_authorization rq = Some (scheme @ CHR '' '' # base64) \<and> str_lower scheme = ''basic''
         \<and> ad_basic env base64 = Inr (user @ CHR '':'' # password) \<and> CHR '':'' \<notin> set user
         \<and> sv_rows sv [user_statement user] = Inr (r # rows)
         \<and> map_of r ''password'' = Some v \<and> str_of v \<noteq> []
         \<and> te_crypt (ad_table env) password (str_of v) = Inr (Some (str_of v))))"
  using admin_route_guarded [OF assms] unfolding valid_credentials_def by (auto split: if_splits)

definition auth_server :: server where
  "auth_server = demo_server\<lparr>sv_rows := \<lambda>log. Inr [[(''id'', PInt 1), (''user'', PStr ''ann''), (''name'', PStr ''Ann''),
     (''password'', PStr ''$1''), (''recid'', PInt 1)]]\<rparr>"

definition demo_crypt :: crypt where
  "demo_crypt p s = (if p = ''pw'' \<and> s = ''$1'' then Inr (Some ''$1'') else Inr None)"

definition demo_loads_policy :: "string \<Rightarrow> pyval result" where
  "demo_loads_policy s = (if s = ''rr'' then Inr (PDict [(KStr ''type'', PStr ''round-robin'')]) else Inl (ValueError s))"

definition demo_admin :: "server \<Rightarrow> statement list admin_env" where
  "demo_admin sv =
     \<lparr>ad_ex = recorder sv, ad_tx = (\<lambda>block. block), ad_table = demo_table_env\<lparr>te_crypt := demo_crypt\<rparr>,
      ad_check = demo_check_env, ad_loads = demo_loads_policy, ad_parse_net = (\<lambda>s. Inl (AddrFormatError s)),
      ad_unquote = (\<lambda>s. s), ad_basic = (\<lambda>s. if s = ''YQ'' then Inr ''ann:pw'' else Inl (ValueError s)),
      ad_decode = (\<lambda>_. Inr [])\<rparr>"

definition demo_request :: admin_request where
  "demo_request =
     \<lparr>rq_command = ''GET'', rq_dirs = [''admin'', ''index.html''], rq_query = [], rq_body = None,
      rq_authorization = Some ''Basic YQ'', rq_client_ip = ''10.0.0.9''\<rparr>"

theorem admin_requires_credentials_witness:
  "\<exists>scheme base64 user password. rq_authorization demo_request = Some (scheme @ CHR '' '' # base64)
     \<and> ad_basic (demo_admin auth_server) base64 = Inr (user @ CHR '':'' # password)
     \<and> te_crypt (ad_table (demo_admin auth_server)) password ''$1'' = Inr (Some ''$1'')"
proof -
  have run: "admin_route (demo_admin auth_server) {} demo_request [] = (Inr ServeGet, [user_statement ''ann''])"
    by code_simp
  have ex: "ad_ex (demo_admin auth_server) = recorder auth_server" by (simp add: demo_admin_def)
  show ?thesis
    using admin_requires_credentials [OF run ex] by (fastforce simp: auth_server_def)
qed

subsection \<open>Replies\<close>

lemma reply_errors_returns: "\<exists>v. fst (reply_errors m s) = Inr v"
  by (auto simp: reply_errors_def split: prod.split sum.split py_error.split)

text \<open>
  C25: whatever a command raises (the database, a bad argument, a missing key) becomes a JSON error
  reply, with the message only of a \<open>ValueError\<close>; the one exception that escapes is that of parsing the
  query itself, and never the parser's own \<open>QueryParserError\<close>.
\<close>

theorem admin_content_errors:
  "(\<exists>v. fst (admin_reply env status q user s) = Inr v)
   \<and> (admin_command env status q user = Some m \<and> fst (m s) = Inl e \<longrightarrow>
       fst (admin_reply env status q user s) =
         Inr (error_reply (case e of ValueError msg \<Rightarrow> msg | _ \<Rightarrow> ''internal error'')))
   \<and> (fst (admin_content env status query body user s) = Inl e' \<longrightarrow>
       admin_parse_query env query body = Inl e' \<and> e' \<noteq> QueryParserError)"
proof (intro conjI impI)
  show total: "\<exists>v. fst (admin_reply env status q user s) = Inr v" for q
    using reply_errors_returns by (auto simp: admin_reply_def split: option.split)
  show "fst (admin_reply env status q user s) =
      Inr (error_reply (case e of ValueError msg \<Rightarrow> msg | _ \<Rightarrow> ''internal error''))"
    if "admin_command env status q user = Some m \<and> fst (m s) = Inl e"
    using that by (cases "m s") (auto simp: admin_reply_def reply_errors_def split: py_error.split)
  assume e: "fst (admin_content env status query body user s) = Inl e'"
  show parse: "admin_parse_query env query body = Inl e'"
  proof (cases "admin_parse_query env query body")
    case (Inl x)
    with e show ?thesis by (simp add: admin_content_def db_bind_def)
  next
    case (Inr d)
    obtain v s' where "admin_reply env status d user s = (Inr v, s')"
      using total [of d] by (cases "admin_reply env status d user s") auto
    with e Inr show ?thesis by (simp add: admin_content_def db_bind_def)
  qed
  show "e' \<noteq> QueryParserError"
    using parse by (auto simp: admin_parse_query_def split: sum.splits pyval.splits py_error.splits)
qed

theorem admin_content_errors_witness:
  "fst (admin_reply (demo_admin auth_server) {} [(KStr ''cmd'', PStr ''get-record'')] None [])
     = Inr (error_reply ''internal error'')"
proof -
  let ?q = "[(KStr ''cmd'', PStr ''get-record'')]"
  have "admin_command (demo_admin auth_server) {} ?q None = Some (get_record (demo_admin auth_server) {} ?q)"
    by (simp add: admin_command_def dict_get_none_def)
  moreover have "fst (get_record (demo_admin auth_server) {} ?q []) = Inl (TypeError ''int() argument must be a string, a bytes-like object or a real number'')"
    by code_simp
  ultimately show ?thesis
    using admin_content_errors [of "demo_admin auth_server" "{}" ?q None "[]"] by fastforce
qed

subsection \<open>Validation before the write\<close>

lemma db_bind_lift_Inl: "db_bind (db_lift (Inl e)) f s = (Inl e, s)"
  by (simp add: db_bind_def)

lemma save_record_accepts:
  assumes "snd (save_record env q user s) \<noteq> s"
  shows "(dict_get_none q ''data'' = PStr ''monitors'' \<longrightarrow>
      (\<exists>json c. get_item (dict_get_none q ''record'') (KStr ''monitor_json'') = Inr (PStr json)
         \<and> build_check (ad_check env) (ad_loads env) ''127.0.0.1'' json = Inr c)) \<and>
    (dict_get_none q ''data'' = PStr ''routings'' \<longrightarrow>
      (\<exists>json p. get_item (dict_get_none q ''record'') (KStr ''policy_json'') = Inr (PStr json)
         \<and> routing_resolve (ad_loads env) json = Inr p \<and> policy_wf p)) \<and>
    (dict_get_none q ''data'' = PStr ''views'' \<longrightarrow>
      (\<exists>rule v. get_item (dict_get_none q ''record'') (KStr ''rule'') = Inr (PStr rule)
         \<and> view_resolve (ad_parse_net env) rule = Inr v)) \<and> user \<noteq> None"
proof -
  obtain recid where r: "py_int (dict_get_none q ''recid'') = Inr recid"
    using assms by (cases "py_int (dict_get_none q ''recid'')") (auto simp: save_record_def Let_def db_bind_lift_Inl)
  have v: "validate_record env (dict_get_none q ''data'') (dict_get_none q ''record'') = Inr ()"
    using assms
    by (cases "validate_record env (dict_get_none q ''data'') (dict_get_none q ''record'')")
       (auto simp: save_record_def Let_def r db_bind_lift db_bind_lift_Inl)
  have u: "user \<noteq> None"
    using assms
    by (cases user) (simp_all add: save_record_def Let_def r v db_bind_lift db_bind_lift_Inl require_user_def)
  have t: "text_arg e x = Inr s \<longleftrightarrow> x = PStr s" for e x s by (cases x) (auto simp: text_arg_def)
  show ?thesis
    using v u routing_resolve_wf [of "ad_loads env"] by (auto simp: validate_record_def bind_result_Inr_iff t)
qed

text \<open>
  C26: what the monitor and the DNS path will parse is valid before anything is sent to the database: a
  saved monitor builds a check for the placeholder address, a saved routing resolves to a well-formed
  policy, a saved view compiles; and nothing is sent without an authenticated user.
\<close>

theorem save_record_validated:
  assumes "snd (save_record env q user s) \<noteq> s"
  shows "(dict_get_none q ''data'' = PStr ''monitors'' \<longrightarrow>
      (\<exists>json c. get_item (dict_get_none q ''record'') (KStr ''monitor_json'') = Inr (PStr json)
         \<and> build_check (ad_check env) (ad_loads env) ''127.0.0.1'' json = Inr c)) \<and>
    (dict_get_none q ''data'' = PStr ''routings'' \<longrightarrow>
      (\<exists>json p. get_item (dict_get_none q ''record'') (KStr ''policy_json'') = Inr (PStr json)
         \<and> routing_resolve (ad_loads env) json = Inr p \<and> policy_wf p)) \<and>
    (dict_get_none q ''data'' = PStr ''views'' \<longrightarrow>
      (\<exists>rule v. get_item (dict_get_none q ''record'') (KStr ''rule'') = Inr (PStr rule)
         \<and> view_resolve (ad_parse_net env) rule = Inr v)) \<and> user \<noteq> None"
  by (rule save_record_accepts [OF assms])

definition demo_routing :: query where
  "demo_routing =
     [(KStr ''cmd'', PStr ''save-record''), (KStr ''data'', PStr ''routings''), (KStr ''recid'', PInt 0),
      (KStr ''record'', PDict [(KStr ''policy'', PStr ''p''), (KStr ''policy_json'', PStr ''rr'')])]"

lemma length_three: "length xs = 3 \<Longrightarrow> xs \<noteq> []"
  by auto

theorem save_record_validated_witness:
  "\<exists>json p. get_item (dict_get_none demo_routing ''record'') (KStr ''policy_json'') = Inr (PStr json)
     \<and> routing_resolve (ad_loads (demo_admin auth_server)) json = Inr p \<and> policy_wf p"
proof -
  have d: "dict_get_none demo_routing ''data'' = PStr ''routings''" by code_simp
  have "length (snd (save_record (demo_admin auth_server) demo_routing (Some demo_user) [])) = 3" by code_simp
  then have sent: "snd (save_record (demo_admin auth_server) demo_routing (Some demo_user) []) \<noteq> []" by (rule length_three)
  show ?thesis using save_record_validated [OF sent] d by simp
qed

subsection \<open>The log\<close>

text \<open>
  The query that is logged holds the mask in place of a posted password and is otherwise the query.
\<close>

theorem masked_query_hides:
  "dict_get q ''record'' = Some (PDict r) \<and> dict_get r ''password'' = Some pw \<longrightarrow>
     dict_get (masked_query q) ''record'' = Some (PDict (AList.update (KStr ''password'') (PStr mask) r))
     \<and> dict_get (AList.update (KStr ''password'') (PStr mask) r) ''password'' = Some (PStr mask)
     \<and> (k \<noteq> ''record'' \<longrightarrow> dict_get (masked_query q) k = dict_get q k)
     \<and> (k \<noteq> ''password'' \<longrightarrow> dict_get (AList.update (KStr ''password'') (PStr mask) r) k = dict_get r k)"
  by (auto simp: masked_query_def update_conv')

theorem masked_query_hides_witness:
  "dict_get (masked_query [(KStr ''record'', PDict [(KStr ''password'', PStr ''pw'')])]) ''record''
     = Some (PDict [(KStr ''password'', PStr mask)])"
  using masked_query_hides [of "[(KStr ''record'', PDict [(KStr ''password'', PStr ''pw'')])]"
      "[(KStr ''password'', PStr ''pw'')]" "PStr ''pw''"] by simp

end
