(* ===== verification/Server_Roles_Properties.thy ===== *)
theory Server_Roles_Properties
  imports Server_Roles Admin_Properties
begin

section \<open>What holds of the ports\<close>

lemma handle_request_Answer:
  assumes "handle_request role command path body = Inr (Answer r)"
  shows "\<exists>dirs query. split_url role path = Inr (dirs, query) \<and> dirs \<noteq> [] \<and> hd dirs = ro_route role
    \<and> ro_handle role command dirs query body = Inr r"
  using assms by (auto simp: handle_request_def bind_result_Inr_iff split: if_splits prod.splits)

lemma handle_request_Error: "handle_request role command path body = Inr (Error_Status n) \<Longrightarrow> n = 404"
  by (auto simp: handle_request_def bind_result_Inr_iff split: if_splits prod.splits)

lemma serve_cases:
  assumes "fst (serve role command path content_length stream) = Inr x"
  shows "(\<exists>body. handle_request role command path body = Inr x) \<or> x = Error_Status 400"
  using assms
  by (auto simp: serve_def do_post_def do_get_or_head_def split: if_splits sum.splits py_error.splits prod.splits)

text \<open>
  C22: nothing behind the admin port is reachable without credentials. Whatever the method, path, body and
  header of a request, the server answers 400 or 404 without asking the database, or runs a route that either
  challenges, having sent at most one read of the named user, or is given because the header holds the
  name and password of a stored user.
\<close>

theorem admin_port_guarded:
  assumes "fst (serve (admin_role split unq remote env status authorization ip) command path content_length stream) = Inr x"
    and "ad_ex env = recorder sv"
  shows "case x of
      Error_Status n \<Rightarrow> n = 400 \<or> n = 404
    | Answer m \<Rightarrow> (\<forall>resp sent. m [] = (Inr resp, sent) \<longrightarrow>
        (if resp = Challenge then sent = [] \<or> (\<exists>user. sent = [user_statement user])
         else valid_credentials env sv authorization))"
proof (cases x)
  case (Error_Status n)
  with serve_cases [OF assms(1)] handle_request_Error show ?thesis by fastforce
next
  case (Answer m)
  with serve_cases [OF assms(1)] obtain body where
      "handle_request (admin_role split unq remote env status authorization ip) command path body = Inr (Answer m)" by auto
  from handle_request_Answer [OF this] obtain rq where m: "m = admin_route env status rq" "rq_authorization rq = authorization"
    by (auto simp: admin_role_def)
  have "if resp = Challenge then sent = [] \<or> (\<exists>user. sent = [user_statement user])
      else valid_credentials env sv authorization" if "m [] = (Inr resp, sent)" for resp sent
    using admin_route_guarded [OF that [unfolded m(1)] assms(2)] m(2) by (auto split: if_splits)
  with Answer show ?thesis by simp
qed

text \<open>A demonstration request with a wrong password.\<close>

definition split_plain :: "string \<Rightarrow> (string \<times> string) result" where
  "split_plain path = Inr (path, [])"

theorem admin_port_guarded_witness:
  "\<exists>m sent. fst (serve (admin_role split_plain id (Inr ()) (demo_admin auth_server) {} (Some ''Basic YQ'') ''10.0.0.9'')
       ''GET'' ''/admin/x'' None []) = Inr (Answer m)
     \<and> m [] = (Inr ServeGet, sent) \<and> valid_credentials (demo_admin auth_server) auth_server (Some ''Basic YQ'')"
proof -
  let ?role = "admin_role split_plain id (Inr ()) (demo_admin auth_server) {} (Some ''Basic YQ'') ''10.0.0.9''"
  let ?m = "admin_route (demo_admin auth_server) {}
      \<lparr>rq_command = ''GET'', rq_dirs = [''admin'', ''x''], rq_query = [], rq_body = None,
       rq_authorization = Some ''Basic YQ'', rq_client_ip = ''10.0.0.9''\<rparr>"
  have served: "fst (serve ?role ''GET'' ''/admin/x'' None []) = Inr (Answer ?m)"
    by (simp add: serve_def do_get_or_head_def handle_request_def split_url_def admin_role_def split_plain_def)
  have run: "?m [] = (Inr ServeGet, [user_statement ''ann''])" by code_simp
  have "ad_ex (demo_admin auth_server) = recorder auth_server" by (simp add: demo_admin_def)
  from admin_port_guarded [OF served this] run
  have "valid_credentials (demo_admin auth_server) auth_server (Some ''Basic YQ'')" by simp
  with served run show ?thesis by blast
qed

subsection \<open>Lookups\<close>

lemma split_on_append_sep: "split_on c (a @ c # b) = split_on c a @ split_on c b"
  by (induction a) (auto split: list.split)

lemma split_on_length: "length (split_on c s) = Suc (count_list s c)"
  by (induction s) (auto split: list.split)

lemma lookup_dirs:
  assumes "CHR ''/'' \<notin> set qtype"
  shows "tl (split_on (CHR ''/'') (''/dns/lookup/'' @ qname @ ''/'' @ qtype))
    = [''dns'', ''lookup''] @ split_on (CHR ''/'') qname @ [qtype]"
  using split_on_append_sep [of "CHR ''/''" qname qtype] split_on_single [OF assms] by simp

text \<open>
  C23: the URL of a lookup reaches the lookup of its name and type. The path is decoded first and split then, so
  the name and type arrive as PowerDNS sent them when they hold no slash, and the JSON of the lookup's
  answers is the content; a name with a slash, though it is sent encoded, is answered with a false result.
\<close>

theorem lookup_url_answered:
  assumes "split path = Inr (p, query)" and "unq p = ''/dns/lookup/'' @ qname @ ''/'' @ qtype" and "CHR ''/'' \<notin> set qtype"
  shows "serve (dns_role split unq (Inr ()) rep lookup domains) ''GET'' path content_length stream =
    (if CHR ''/'' \<in> set qname then Inr (Answer (Dns_Content (dns_json rep FalseReply)))
     else bind_result (lookup qname qtype) (\<lambda>answers. Inr (Answer (Dns_Content (dns_json rep (LookupReply answers))))), stream)"
proof -
  let ?role = "dns_role split unq (Inr ()) rep lookup domains"
  let ?names = "split_on (CHR ''/'') qname"
  let ?dirs = "[''dns'', ''lookup''] @ ?names @ [qtype]"
  have dirs: "split_url ?role path = Inr (?dirs, query)"
    using lookup_dirs [OF assms(3), of qname] by (simp add: split_url_def dns_role_def assms(1, 2))
  have content: "dns_content lookup (domains query) ?dirs =
      (if CHR ''/'' \<in> set qname then Inr FalseReply
       else bind_result (lookup qname qtype) (\<lambda>answers. Inr (LookupReply answers)))"
  proof (cases "CHR ''/'' \<in> set qname")
    case True
    then have "2 \<le> length ?names" using count_list_0_iff [of qname "CHR ''/''"] by (cases "count_list qname CHR ''/''") (simp_all add: split_on_length)
    with True show ?thesis by (auto simp: dns_content_def)
  next
    case False
    then show ?thesis by (simp add: dns_content_def split_on_single)
  qed
  have route: "dns_route rep lookup domains ''GET'' ?dirs query =
      (if CHR ''/'' \<in> set qname then Inr (Dns_Content (dns_json rep FalseReply))
       else bind_result (lookup qname qtype) (\<lambda>answers. Inr (Dns_Content (dns_json rep (LookupReply answers)))))"
    unfolding dns_route_def content by (cases "lookup qname qtype") simp_all
  have "handle_request ?role ''GET'' path None =
      bind_result (dns_route rep lookup domains ''GET'' ?dirs query) (\<lambda>r. Inr (Answer r))"
    by (simp only: handle_request_def dirs bind_result_simps) (simp add: dns_role_def)
  then show ?thesis unfolding route
    by (cases "lookup qname qtype") (simp_all add: serve_def do_get_or_head_def)
qed

theorem lookup_url_answered_witness:
  "serve (dns_role split_plain id (Inr ()) (\<lambda>_. []) (\<lambda>q t. if q = ''a.b'' \<and> t = ''A'' then Inr [] else Inl IndexError) (\<lambda>_. Inr []))
     ''GET'' ''/dns/lookup/a.b/A'' None [7] = (Inr (Answer (Dns_Content (dns_json (\<lambda>_. []) (LookupReply [])))), [7])"
  using lookup_url_answered [of split_plain "''/dns/lookup/a.b/A''" "''/dns/lookup/a.b/A''" "[]" id "''a.b''" "''A''" "\<lambda>_. []"
      "\<lambda>q t. if q = ''a.b'' \<and> t = ''A'' then Inr [] else Inl IndexError" "\<lambda>_. Inr []" None "[7]"]
  by (simp add: split_plain_def)

end
