(* ===== verification/Json_Reader.thy ===== *)
theory Json_Reader
  imports Json
begin

section \<open>A reader of JSON texts\<close>

text \<open>
  The grammar of JSON as a reader, the reference that the texts of \<open>json_dumps\<close> are compared with. It reads every
  value but the numbers with a fraction or an exponent and the characters above \<open>255\<close>, which it refuses
  like a malformed text. Members keep their order. The fuel bounds the depth and the number of items; the
  length of the text is enough, because every step reads a character.
\<close>

definition json_space :: "char \<Rightarrow> bool" where
  "json_space c \<longleftrightarrow> code c = 32 \<or> code c = 9 \<or> code c = 10 \<or> code c = 13"

definition skip_space :: "string \<Rightarrow> string" where
  "skip_space s = dropWhile json_space s"

subsection \<open>Strings\<close>

definition hex_value :: "char \<Rightarrow> nat option" where
  "hex_value c =
     (let n = code c
      in if 48 \<le> n \<and> n \<le> 57 then Some (n - 48)
         else if 97 \<le> n \<and> n \<le> 102 then Some (n - 87)
         else if 65 \<le> n \<and> n \<le> 70 then Some (n - 55)
         else None)"

fun read_unicode :: "string \<Rightarrow> (char \<times> string) option" where
  "read_unicode (a # b # c # d # r) =
     (case (hex_value a, hex_value b, hex_value c, hex_value d) of
        (Some 0, Some 0, Some i, Some j) \<Rightarrow> Some (char_of (16 * i + j), r)
      | _ \<Rightarrow> None)"
| "read_unicode _ = None"

fun read_escape :: "string \<Rightarrow> (char \<times> string) option" where
  "read_escape [] = None"
| "read_escape (c # r) =
     (if c = CHR 0x22 \<or> c = CHR 0x5C \<or> c = CHR ''/'' then Some (c, r)
      else if c = CHR ''b'' then Some (CHR 0x08, r)
      else if c = CHR ''t'' then Some (CHR 0x09, r)
      else if c = CHR ''n'' then Some (CHR 0x0A, r)
      else if c = CHR ''f'' then Some (CHR 0x0C, r)
      else if c = CHR ''r'' then Some (CHR 0x0D, r)
      else if c = CHR ''u'' then read_unicode r
      else None)"

lemma read_unicode_shorter: "read_unicode s = Some (c, r) \<Longrightarrow> length r < length s"
  by (induction s rule: read_unicode.induct) (auto split: option.splits nat.splits)

lemma read_escape_shorter: "read_escape s = Some (c, r) \<Longrightarrow> length r < length s"
  by (cases s) (auto split: if_splits dest: read_unicode_shorter)

function read_chars :: "string \<Rightarrow> (string \<times> string) option" where
  "read_chars [] = None"
| "read_chars (c # r) =
     (if c = CHR 0x22 then Some ([], r)
      else if c = CHR 0x5C
      then (case read_escape r of
              None \<Rightarrow> None
            | Some (d, r') \<Rightarrow> map_option (\<lambda>(t, r''). (d # t, r'')) (read_chars r'))
      else if code c < 32 then None
      else map_option (\<lambda>(t, r'). (c # t, r')) (read_chars r))"
  by pat_completeness auto
termination by (relation "measure length") (auto dest: read_escape_shorter)

subsection \<open>Values\<close>

definition read_int :: "string \<Rightarrow> (pyval \<times> string) option" where
  "read_int s =
     (let (sign, t) = (case s of c # t \<Rightarrow> if c = CHR ''-'' then (-1, t) else (1, s) | [] \<Rightarrow> (1, s));
          ds = takeWhile is_decimal t;
          r = dropWhile is_decimal t
      in if ds = [] \<or> (hd ds = CHR ''0'' \<and> 1 < length ds) \<or> (r \<noteq> [] \<and> hd r \<in> {CHR ''.'', CHR ''e'', CHR ''E''}) then None
         else Some (PInt (sign * foldl (\<lambda>n c. n * 10 + (int (code c) - 48)) 0 ds), r))"

definition read_word :: "string \<Rightarrow> (pyval \<times> string) option" where
  "read_word s =
     (if take 4 s = ''null'' then Some (PNone, drop 4 s)
      else if take 4 s = ''true'' then Some (PBool True, drop 4 s)
      else if take 5 s = ''false'' then Some (PBool False, drop 5 s)
      else read_int s)"

text \<open>What follows an item: another one, or the end of the collection.\<close>

datatype after_item = More string | Closed_By string

definition read_after :: "char \<Rightarrow> string \<Rightarrow> after_item option" where
  "read_after close s =
     (case skip_space s of
        [] \<Rightarrow> None
      | c # r \<Rightarrow> if c = CHR '','' then Some (More r) else if c = close then Some (Closed_By r) else None)"

text \<open>A key and its colon.\<close>

definition read_key :: "string \<Rightarrow> (string \<times> string) option" where
  "read_key s =
     (case skip_space s of
        [] \<Rightarrow> None
      | c # r \<Rightarrow> if c \<noteq> CHR 0x22 then None
                 else (case read_chars r of
                         None \<Rightarrow> None
                       | Some (k, r') \<Rightarrow>
                           (case skip_space r' of
                              [] \<Rightarrow> None
                            | d # r'' \<Rightarrow> if d = CHR '':'' then Some (k, r'') else None)))"

fun read_value :: "nat \<Rightarrow> string \<Rightarrow> (pyval \<times> string) option"
  and read_items :: "nat \<Rightarrow> string \<Rightarrow> (pyval list \<times> string) option"
  and read_members :: "nat \<Rightarrow> string \<Rightarrow> ((pykey \<times> pyval) list \<times> string) option" where
  "read_value 0 s = None"
| "read_value (Suc n) s =
     (case skip_space s of
        [] \<Rightarrow> None
      | c # r \<Rightarrow>
          if c = CHR 0x22 then map_option (\<lambda>(t, r'). (PStr t, r')) (read_chars r)
          else if c = CHR ''['' then
            (if read_after (CHR '']'') r = Some (Closed_By (tl (skip_space r))) then Some (PList [], tl (skip_space r))
             else map_option (\<lambda>(vs, r'). (PList vs, r')) (read_items n r))
          else if c = CHR ''{'' then
            (if read_after (CHR ''}'') r = Some (Closed_By (tl (skip_space r))) then Some (PDict [], tl (skip_space r))
             else map_option (\<lambda>(kvs, r'). (PDict kvs, r')) (read_members n r))
          else read_word (c # r))"
| "read_items 0 s = None"
| "read_items (Suc n) s =
     (case read_value n s of
        None \<Rightarrow> None
      | Some (v, r) \<Rightarrow>
          (case read_after (CHR '']'') r of
             None \<Rightarrow> None
           | Some (Closed_By r') \<Rightarrow> Some ([v], r')
           | Some (More r') \<Rightarrow> map_option (\<lambda>(vs, r''). (v # vs, r'')) (read_items n r')))"
| "read_members 0 s = None"
| "read_members (Suc n) s =
     (case read_key s of
        None \<Rightarrow> None
      | Some (k, r0) \<Rightarrow>
          (case read_value n r0 of
             None \<Rightarrow> None
           | Some (v, r) \<Rightarrow>
               (case read_after (CHR ''}'') r of
                  None \<Rightarrow> None
                | Some (Closed_By r') \<Rightarrow> Some ([(KStr k, v)], r')
                | Some (More r') \<Rightarrow> map_option (\<lambda>(kvs, r''). ((KStr k, v) # kvs, r'')) (read_members n r'))))"

definition json_read :: "string \<Rightarrow> pyval option" where
  "json_read s =
     (case read_value (length s) s of
        None \<Rightarrow> None
      | Some (v, r) \<Rightarrow> if skip_space r = [] then Some v else None)"

end
