(* ===== verification/Json_Properties.thy ===== *)
theory Json_Properties
  imports Json_Reader
begin

section \<open>The texts of \<open>json.dumps\<close> read back\<close>

text \<open>What the reader makes of the parts of a text, and the round trip of a whole value.\<close>

subsection \<open>Strings and numbers\<close>

lemma hex_value_digit: "k < 16 \<Longrightarrow> hex_value (hex_digit k) = Some k"
proof -
  assume "k < 16"
  then have "k \<in> set [0..<16]" by simp
  moreover have "list_all (\<lambda>k. hex_value (hex_digit k) = Some k) [0..<16]" by code_simp
  ultimately show ?thesis by (simp only: list_all_iff)
qed

lemma code_iff: "code c = (code d :: nat) \<longleftrightarrow> c = d"
  by (rule of_char_eq_iff)

lemma read_chars_char: "read_chars (json_char c @ r) = map_option (\<lambda>(t, r'). (c # t, r')) (read_chars r)"
proof -
  let ?n = "code c :: nat"
  have n: "?n < 256" by (rule nat_of_char_less_256)
  have low: "?n = 8 \<longleftrightarrow> c = CHR 0x08" "?n = 9 \<longleftrightarrow> c = CHR 0x09" "?n = 10 \<longleftrightarrow> c = CHR 0x0A"
    "?n = 12 \<longleftrightarrow> c = CHR 0x0C" "?n = 13 \<longleftrightarrow> c = CHR 0x0D"
    using code_iff [of c "CHR 0x08"] code_iff [of c "CHR 0x09"] code_iff [of c "CHR 0x0A"]
      code_iff [of c "CHR 0x0C"] code_iff [of c "CHR 0x0D"] by simp_all
  consider "c = CHR 0x22" | "c = CHR 0x5C" | "c = CHR 0x08" | "c = CHR 0x09" | "c = CHR 0x0A" | "c = CHR 0x0C" | "c = CHR 0x0D"
    | "c \<noteq> CHR 0x22" "c \<noteq> CHR 0x5C" "32 \<le> ?n" "?n \<le> 126"
    | "c \<noteq> CHR 0x22" "c \<noteq> CHR 0x5C" "?n \<notin> {8, 9, 10, 12, 13}" "\<not> (32 \<le> ?n \<and> ?n \<le> 126)"
    using low by (simp only: insert_iff empty_iff) blast
  then show ?thesis
  proof cases
    case 9
    have "16 * (?n div 16) + ?n mod 16 = ?n" by simp
    moreover have "?n div 16 < 16" using n by (simp add: less_mult_imp_div_less)
    ultimately have "read_unicode (CHR ''0'' # CHR ''0'' # hex_digit (?n div 16) # hex_digit (?n mod 16) # r) = Some (c, r)"
      using hex_value_digit [of "?n div 16"] hex_value_digit [of "?n mod 16"] hex_value_digit [of 0]
      by (simp add: hex_digit_def hex_value_def)
    moreover have "hex_digit ?n = hex_digit (?n mod 16)" by (simp add: hex_digit_def)
    ultimately show ?thesis using 9 by (simp add: json_char_def Let_def)
  qed (simp_all add: json_char_def Let_def)
qed

lemma read_chars_string: "read_chars (concat (map json_char s) @ CHR 0x22 # r) = Some (s, r)"
  by (induction s) (simp_all add: read_chars_char)

lemma digits_of_hd: "0 < n \<Longrightarrow> hd (digits_of n) \<noteq> CHR ''0''"
proof (induction n rule: digits_of.induct)
  case (1 n)
  show ?case
  proof (cases "n < 10")
    case True
    then have "code (char_of (48 + n)) \<noteq> code (CHR ''0'')" using code_digit [of n] 1(2) by simp
    then have "char_of (48 + n) \<noteq> CHR ''0''" by metis
    with True show ?thesis by (subst digits_of.simps) simp
  next
    case False
    with 1 digits_of_decimal [of "n div 10"] show ?thesis by (subst digits_of.simps) simp
  qed
qed

definition ends_value :: "string \<Rightarrow> bool" where
  "ends_value r \<longleftrightarrow> r = [] \<or> hd r \<in> {CHR '','', CHR '']'', CHR ''}''}"

lemma ends_value_span: "ends_value r \<Longrightarrow> list_all is_decimal ds \<Longrightarrow>
    takeWhile is_decimal (ds @ r) = ds \<and> dropWhile is_decimal (ds @ r) = r"
  by (cases r) (auto simp: ends_value_def list_all_iff is_decimal_def)

lemma read_digits:
  assumes "ends_value r"
  shows "read_int (digits_of n @ r) = Some (PInt (int n), r)"
    and "read_int (CHR ''-'' # digits_of n @ r) = Some (PInt (- int n), r)"
proof -
  let ?ds = "digits_of n"
  have ds: "list_all is_decimal ?ds" "?ds \<noteq> []" using digits_of_decimal by auto
  note span = ends_value_span [OF assms ds(1)]
  have one: "(hd ?ds = CHR ''0'' \<and> 1 < length ?ds) = False"
    using digits_of_hd [of n] by (cases "n = 0") (simp_all add: digits_of.simps)
  have end': "(r \<noteq> [] \<and> hd r \<in> {CHR ''.'', CHR ''e'', CHR ''E''}) = False"
    using assms by (auto simp: ends_value_def)
  have ne: "(?ds = []) = False" using ds(2) by simp
  obtain c t where c: "?ds = c # t" using ds(2) by (meson neq_Nil_conv)
  then have "c \<noteq> CHR ''-''" using ds(1) by (auto simp: is_decimal_def)
  then have sign: "(case ?ds @ r of c # t \<Rightarrow> if c = CHR ''-'' then (-1, t) else (1, ?ds @ r) | [] \<Rightarrow> (1, ?ds @ r))
      = (1 :: int, ?ds @ r)" by (simp add: c)
  show "read_int (?ds @ r) = Some (PInt (int n), r)"
    unfolding read_int_def sign Let_def prod.case span [THEN conjunct1] span [THEN conjunct2] one end' ne foldl_digits_of
    by simp
  have minus: "(case CHR ''-'' # ?ds @ r of c # t \<Rightarrow> if c = CHR ''-'' then (-1, t) else (1, CHR ''-'' # ?ds @ r)
      | [] \<Rightarrow> (1, CHR ''-'' # ?ds @ r)) = (- 1 :: int, ?ds @ r)" by simp
  show "read_int (CHR ''-'' # ?ds @ r) = Some (PInt (- int n), r)"
    unfolding read_int_def minus Let_def prod.case span [THEN conjunct1] span [THEN conjunct2] one end' ne foldl_digits_of
    by simp
qed

lemma read_str_int: "ends_value r \<Longrightarrow> read_int (str_int i @ r) = Some (PInt i, r)"
  using read_digits [of r "nat i"] read_digits [of r "nat (- i)"] by (simp add: str_int_def)

subsection \<open>Values\<close>

text \<open>What the reader can give back: integer keys are strings in JSON, and a float is a text of its own.\<close>

fun json_norm :: "pyval \<Rightarrow> pyval" where
  "json_norm (PList xs) = PList (map json_norm xs)"
| "json_norm (PDict d) =
     PDict (map (\<lambda>kv. (KStr (case fst kv of KStr s \<Rightarrow> s | KInt i \<Rightarrow> str_int i), json_norm (snd kv))) d)"
| "json_norm v = v"

fun float_free :: "pyval \<Rightarrow> bool" where
  "float_free (PFloat m e) = False"
| "float_free (PList xs) = list_all float_free xs"
| "float_free (PDict d) = list_all (\<lambda>kv. float_free (snd kv)) d"
| "float_free v = True"

definition spaces :: "string \<Rightarrow> bool" where
  "spaces ws \<longleftrightarrow> list_all json_space ws"

definition starts_value :: "char \<Rightarrow> bool" where
  "starts_value c \<longleftrightarrow> \<not> json_space c \<and> c \<notin> {CHR '','', CHR '']'', CHR ''}''}"

lemma skip_spaces: "spaces ws \<Longrightarrow> \<not> json_space c \<Longrightarrow> skip_space (ws @ c # s) = c # s"
  by (induction ws) (simp_all add: spaces_def skip_space_def)

lemma punctuation_not_space [simp]:
  "\<not> json_space (CHR '','')" "\<not> json_space (CHR '']'')" "\<not> json_space (CHR ''}'')" "\<not> json_space (CHR '':'')"
  "\<not> json_space (CHR 0x22)" "\<not> json_space (CHR ''['')" "\<not> json_space (CHR ''{'')"
  by (simp_all add: json_space_def)

lemma decimal_starts: "is_decimal c \<Longrightarrow> starts_value c"
  by (auto simp: starts_value_def is_decimal_def json_space_def)

lemma str_int_starts: "\<exists>c t. str_int i = c # t \<and> starts_value c \<and> (c = CHR ''-'' \<or> is_decimal c)"
proof (cases "i < 0")
  case False
  obtain c t where "digits_of (nat i) = c # t" using digits_of_decimal [of "nat i"] by (meson neq_Nil_conv)
  with False digits_of_decimal [of "nat i"] show ?thesis by (auto simp: str_int_def decimal_starts)
qed (simp add: str_int_def starts_value_def json_space_def)

lemma dumps_starts:
  assumes "float_free v"
  shows "\<exists>c t. json_dumps isep ksep rep v = c # t \<and> starts_value c"
proof (cases v)
  case (PInt i)
  then show ?thesis using str_int_starts [of i] by auto
qed (use assms in \<open>auto simp: json_string_def starts_value_def json_space_def\<close>)

lemma read_after_simps:
  "spaces ws \<Longrightarrow> starts_value c \<Longrightarrow> read_after q (ws @ c # s) = (if c = q then Some (Closed_By s) else None)"
  "read_after q (CHR '','' # s) = Some (More s)"
  "q \<noteq> CHR '','' \<Longrightarrow> \<not> json_space q \<Longrightarrow> read_after q (q # s) = Some (Closed_By s)"
  using skip_spaces [of "[]" "CHR '',''" s] skip_spaces [of "[]" q s]
  by (simp_all add: read_after_def skip_spaces starts_value_def spaces_def)

lemma read_key_text:
  assumes "spaces ws"
  shows "read_key (ws @ key_text k @ CHR '':'' # s) =
    Some (case k of KStr t \<Rightarrow> t | KInt i \<Rightarrow> str_int i, s)"
  using skip_spaces [of "[]" "CHR '':''" s] skip_spaces [OF assms, of "CHR 0x22"]
  by (cases k) (simp_all add: read_key_def json_string_def read_chars_string spaces_def)

lemma join_Cons: "join sep (w # ws) = (if ws = [] then w else w @ sep @ join sep ws)"
  by (cases ws) simp_all

lemma read_items_join:
  assumes "\<And>x n ws r. x \<in> set xs \<Longrightarrow> length (f x) \<le> n \<Longrightarrow> spaces ws \<Longrightarrow> ends_value r \<Longrightarrow>
      read_value n (ws @ f x @ r) = Some (g x, r)"
    and "\<And>x. x \<in> set xs \<Longrightarrow> f x \<noteq> []" and "spaces sp"
  shows "xs \<noteq> [] \<Longrightarrow> length (join (CHR '','' # sp) (map f xs)) < n \<Longrightarrow> spaces ws \<Longrightarrow>
    read_items n (ws @ join (CHR '','' # sp) (map f xs) @ CHR '']'' # r) = Some (map g xs, r)"
  using assms(1,2)
proof (induction xs arbitrary: n ws)
  case (Cons x xs)
  obtain m where n: "n = Suc m" using Cons.prems(2) by (cases n) simp_all
  have "0 < length (f x)" using Cons.prems(5) by simp
  show ?case
  proof (cases "xs = []")
    case True
    have "read_value m (ws @ f x @ CHR '']'' # r) = Some (g x, CHR '']'' # r)"
      using Cons.prems(2,3) True n by (intro Cons.prems(4)) (simp_all add: ends_value_def)
    then show ?thesis by (simp add: n True read_after_simps)
  next
    case False
    let ?rest = "sp @ join (CHR '','' # sp) (map f xs) @ CHR '']'' # r"
    have "read_value m (ws @ f x @ CHR '','' # ?rest) = Some (g x, CHR '','' # ?rest)"
      using Cons.prems(2,3) False n by (intro Cons.prems(4)) (simp_all add: ends_value_def join_Cons)
    moreover have "read_items m ?rest = Some (map g xs, r)"
      using Cons.prems(2) False n \<open>0 < length (f x)\<close>
      by (intro Cons.IH [OF False _ assms(3)] Cons.prems(4,5)) (simp_all add: join_Cons)
    ultimately show ?thesis by (simp add: n False join_Cons read_after_simps)
  qed
qed simp

lemma read_members_join:
  fixes f :: "pyval \<Rightarrow> string"
  assumes "\<And>kv n ws r. kv \<in> set d \<Longrightarrow> length (f (snd kv)) \<le> n \<Longrightarrow> spaces ws \<Longrightarrow> ends_value r \<Longrightarrow>
      read_value n (ws @ f (snd kv) @ r) = Some (g (snd kv), r)"
    and "spaces sp" and "spaces kp"
  defines "member \<equiv> \<lambda>kv. key_text (fst kv) @ (CHR '':'' # kp) @ f (snd kv)"
    and "norm \<equiv> \<lambda>kv. (KStr (case fst kv of KStr s \<Rightarrow> s | KInt i \<Rightarrow> str_int i), g (snd kv))"
  shows "d \<noteq> [] \<Longrightarrow> length (join (CHR '','' # sp) (map member d)) < n \<Longrightarrow> spaces ws \<Longrightarrow>
    read_members n (ws @ join (CHR '','' # sp) (map member d) @ CHR ''}'' # r) = Some (map norm d, r)"
  using assms(1)
proof (induction d arbitrary: n ws)
  case (Cons kv d)
  obtain m where n: "n = Suc m" using Cons.prems(2) by (cases n) simp_all
  have len: "length (f (snd kv)) < length (member kv)" by (simp add: member_def)
  show ?case
  proof (cases "d = []")
    case True
    have "read_value m (kp @ f (snd kv) @ CHR ''}'' # r) = Some (g (snd kv), CHR ''}'' # r)"
      using Cons.prems(2) True n len by (intro Cons.prems(4) assms(3)) (simp_all add: ends_value_def)
    then show ?thesis using Cons.prems(3) by (simp add: n True read_after_simps member_def norm_def read_key_text)
  next
    case False
    let ?rest = "sp @ join (CHR '','' # sp) (map member d) @ CHR ''}'' # r"
    have "read_value m (kp @ f (snd kv) @ CHR '','' # ?rest) = Some (g (snd kv), CHR '','' # ?rest)"
      using Cons.prems(2) False n len by (intro Cons.prems(4) assms(3)) (simp_all add: ends_value_def join_Cons)
    moreover have "read_members m ?rest = Some (map norm d, r)"
      using Cons.prems(2) False n len
      by (intro Cons.IH [OF False _ assms(2)] Cons.prems(4)) (simp_all add: join_Cons)
    moreover have "member kv @ CHR '','' # ?rest = key_text (fst kv) @ CHR '':'' # kp @ f (snd kv) @ CHR '','' # ?rest"
      by (simp add: member_def)
    ultimately show ?thesis using Cons.prems(3)
      by (simp add: n False join_Cons read_after_simps norm_def read_key_text)
  qed
qed simp

lemma starts_after: "starts_value c \<Longrightarrow> spaces ws \<Longrightarrow> q \<in> {CHR '']'', CHR ''}''} \<Longrightarrow> read_after q (ws @ c # s) = None"
  by (auto simp: read_after_simps(1) starts_value_def)

lemma read_word_int:
  assumes "s = c # t" "c = CHR ''-'' \<or> is_decimal c"
  shows "read_word s = read_int s"
proof -
  have "c \<noteq> CHR ''n''" "c \<noteq> CHR ''t''" "c \<noteq> CHR ''f''" using assms(2) by (auto simp: is_decimal_def)
  then show ?thesis by (simp add: read_word_def assms(1))
qed

text \<open>A list and an object are read back when their values are.\<close>

lemma read_list_dumps:
  fixes rep :: "pyval \<Rightarrow> string" and sp :: string and kp :: string
  defines "dumps \<equiv> json_dumps (CHR '','' # sp) (CHR '':'' # kp) rep"
  assumes spaces: "spaces sp" "spaces kp" and free: "\<And>x. x \<in> set xs \<Longrightarrow> float_free x"
    and IH: "\<And>x n ws r. x \<in> set xs \<Longrightarrow> float_free x \<Longrightarrow> length (dumps x) \<le> n \<Longrightarrow> spaces ws \<Longrightarrow> ends_value r \<Longrightarrow>
      read_value n (ws @ dumps x @ r) = Some (json_norm x, r)"
    and len: "length (dumps (PList xs)) \<le> n" and ws: "spaces ws"
  shows "read_value n (ws @ dumps (PList xs) @ r) = Some (json_norm (PList xs), r)"
proof -
  obtain m where n: "n = Suc m" using len by (cases n) (simp_all add: dumps_def)
  show ?thesis
  proof (cases "xs = []")
    case True
    then show ?thesis using ws skip_spaces [of "[]" "CHR '']''" r]
      by (simp add: n dumps_def skip_spaces read_after_simps spaces_def)
  next
    case False
    let ?items = "join (CHR '','' # sp) (map dumps xs)"
        have ne: "dumps x \<noteq> []" if "x \<in> set xs" for x using dumps_starts [OF free [OF that], of "CHR '','' # sp" "CHR '':'' # kp" rep] by (auto simp: dumps_def)
    have "read_items m ([] @ ?items @ CHR '']'' # r) = Some (map json_norm xs, r)"
    proof (rule read_items_join)
      show "length ?items < m" using len n by (simp add: dumps_def)
    qed (use IH free ne False spaces(1) in \<open>simp_all add: spaces_def\<close>)
    moreover obtain c t where "?items = c # t" "starts_value c"
    proof -
      obtain y ys where y: "xs = y # ys" using False by (meson neq_Nil_conv)
      then obtain c t where "dumps y = c # t" "starts_value c" using dumps_starts [OF free [of y], of "CHR '','' # sp" "CHR '':'' # kp" rep]
        by (auto simp: dumps_def)
      with that show ?thesis by (cases "ys = []") (simp_all add: y join_Cons)
    qed
    then have "read_after (CHR '']'') (?items @ CHR '']'' # r) = None"
      using starts_after [of c "[]" "CHR '']''"] by (simp add: spaces_def)
    ultimately show ?thesis using ws by (simp add: n dumps_def skip_spaces)
  qed
qed

lemma read_dict_dumps:
  fixes rep :: "pyval \<Rightarrow> string" and sp :: string and kp :: string
  defines "dumps \<equiv> json_dumps (CHR '','' # sp) (CHR '':'' # kp) rep"
  assumes spaces: "spaces sp" "spaces kp"
    and IH: "\<And>kv n ws r. kv \<in> set d \<Longrightarrow> length (dumps (snd kv)) \<le> n \<Longrightarrow> spaces ws \<Longrightarrow> ends_value r \<Longrightarrow>
      read_value n (ws @ dumps (snd kv) @ r) = Some (json_norm (snd kv), r)"
    and len: "length (dumps (PDict d)) \<le> n" and ws: "spaces ws"
  shows "read_value n (ws @ dumps (PDict d) @ r) = Some (json_norm (PDict d), r)"
proof -
  obtain m where n: "n = Suc m" using len by (cases n) (simp_all add: dumps_def)
  show ?thesis
  proof (cases "d = []")
    case True
    then show ?thesis using ws skip_spaces [of "[]" "CHR ''}''" r]
      by (simp add: n dumps_def skip_spaces read_after_simps spaces_def)
  next
    case False
    let ?items = "join (CHR '','' # sp) (map (\<lambda>kv. key_text (fst kv) @ (CHR '':'' # kp) @ dumps (snd kv)) d)"
    have "read_members m ([] @ ?items @ CHR ''}'' # r) =
        Some (map (\<lambda>kv. (KStr (case fst kv of KStr s \<Rightarrow> s | KInt i \<Rightarrow> str_int i), json_norm (snd kv))) d, r)"
    proof (rule read_members_join [OF _ spaces])
      show "read_value n (ws @ dumps (snd kv) @ r) = Some (json_norm (snd kv), r)"
        if "kv \<in> set d" "length (dumps (snd kv)) \<le> n" "spaces ws" "ends_value r" for kv n ws r
        using IH that by blast
      show "length ?items < m" using len n by (simp add: dumps_def)
    qed (use False in \<open>simp_all add: spaces_def\<close>)
    moreover obtain t where "?items = CHR 0x22 # t"
    proof -
      obtain kv ys where y: "d = kv # ys" using False by (meson neq_Nil_conv)
      obtain t where "key_text (fst kv) = CHR 0x22 # t" by (cases "fst kv") (simp_all add: json_string_def)
      with that show ?thesis by (cases "ys = []") (simp_all add: y join_Cons)
    qed
    then have "read_after (CHR ''}'') (?items @ CHR ''}'' # r) = None"
      using starts_after [of "CHR 0x22" "[]" "CHR ''}''"] by (simp add: spaces_def starts_value_def)
    ultimately show ?thesis using ws by (simp add: n dumps_def skip_spaces)
  qed
qed

lemma read_value_dumps:
  fixes rep :: "pyval \<Rightarrow> string" and sp :: string and kp :: string
  assumes "spaces sp" "spaces kp"
  defines "dumps \<equiv> json_dumps (CHR '','' # sp) (CHR '':'' # kp) rep"
  shows "float_free v \<Longrightarrow> length (dumps v) \<le> n \<Longrightarrow> spaces ws \<Longrightarrow> ends_value r \<Longrightarrow>
    read_value n (ws @ dumps v @ r) = Some (json_norm v, r)"
proof (induction v arbitrary: n ws r)
  case (PInt i)
  obtain c t where c: "str_int i = c # t" "starts_value c" "c = CHR ''-'' \<or> is_decimal c"
    using str_int_starts [of i] by blast
  obtain m where n: "n = Suc m" using PInt.prems(2) c(1) by (cases n) (simp_all add: dumps_def)
  have "c \<notin> {CHR 0x22, CHR ''['', CHR ''{''}" using c(3) by (auto simp: is_decimal_def)
  moreover have "\<not> json_space c" using c(2) by (simp add: starts_value_def)
  moreover have "read_word (c # t @ r) = read_int (c # t @ r)" by (rule read_word_int [OF refl c(3)])
  ultimately show ?case
    using PInt.prems(3) read_str_int [OF PInt.prems(4), of i] c(1) by (simp add: n dumps_def skip_spaces)
next
  case (PStr s)
  obtain m where "n = Suc m" using PStr.prems(2) by (cases n) (simp_all add: dumps_def json_string_def)
  then show ?case using PStr.prems(3) by (simp add: dumps_def json_string_def skip_spaces read_chars_string)
next
  case (PList xs)
  have "float_free x" if "x \<in> set xs" for x using PList.prems(1) that by (simp add: list_all_iff)
  then show ?case unfolding dumps_def
    by (rule read_list_dumps [OF assms(1,2) _ PList.IH [unfolded dumps_def] PList.prems(2,3) [unfolded dumps_def]])
next
  case (PDict d)
  have free: "float_free (snd kv)" if "kv \<in> set d" for kv using PDict.prems(1) that by (simp add: list_all_iff)
  show ?case unfolding dumps_def
  proof (rule read_dict_dumps [OF assms(1,2) _ PDict.prems(2,3) [unfolded dumps_def]])
    fix kv :: "pykey \<times> pyval" and n ws r
    have "snd kv \<in> Basic_BNFs.snds kv" by (cases kv) simp
    moreover assume "kv \<in> set d" and "length (json_dumps (CHR '','' # sp) (CHR '':'' # kp) rep (snd kv)) \<le> n" "spaces ws" "ends_value r"
    ultimately show "read_value n (ws @ json_dumps (CHR '','' # sp) (CHR '':'' # kp) rep (snd kv) @ r) = Some (json_norm (snd kv), r)"
      using PDict.IH [of kv "snd kv", unfolded dumps_def] free by blast
  qed
next
  case (PBool b)
  obtain m where n: "n = Suc m" using PBool.prems(2) by (cases n) (simp_all add: dumps_def split: if_splits)
  show ?case using PBool.prems(3)
    by (cases b) (simp_all add: n dumps_def skip_spaces json_space_def read_word_def)
next
  case PNone
  obtain m where n: "n = Suc m" using PNone.prems(2) by (cases n) (simp_all add: dumps_def)
  show ?case using PNone.prems(3) by (simp add: n dumps_def skip_spaces json_space_def read_word_def)
qed simp

lemma json_read_dumps:
  assumes "float_free v" and "spaces item_space" and "spaces key_space"
  shows "json_read (json_dumps (CHR '','' # item_space) (CHR '':'' # key_space) rep v) = Some (json_norm v)"
  using read_value_dumps [OF assms(2,3,1) order_refl, of "[]" "[]" rep]
  by (simp add: json_read_def spaces_def ends_value_def skip_space_def)



end
