(* ===== verification/PowerDNS_Database_Properties.thy ===== *)
theory PowerDNS_Database_Properties
  imports PowerDNS_Database PowerDNS_Properties PowerDNS_Queries_Properties Server_Roles_Properties Json_Properties
begin

section \<open>What the DNS port does\<close>

text \<open>
  The texts it sends, the statements it runs, and the way of a lookup from the URL over the rows of the
  database to the JSON of the answers.
\<close>

subsection \<open>Replies\<close>

lemma reply_float_free: "float_free (reply_json reply)"
  by (cases reply) (simp_all add: list_all_iff answer_json_def zone_json_def)

lemma reply_norm: "json_norm (reply_json reply) = reply_json reply"
  by (cases reply) (simp_all add: answer_json_def zone_json_def)

lemma dns_json_reads: "json_read (dns_json rep reply) = Some (reply_json reply)"
  using json_read_dumps [of "reply_json reply" "[]" "[]" rep]
  by (simp add: dns_json_def reply_float_free reply_norm spaces_def)

lemma answer_json_inj: "answer_json a = answer_json b \<Longrightarrow> a = b"
  by (cases a; cases b) (simp add: answer_json_def)

text \<open>
  The text of a DNS reply is a JSON document of exactly that reply, whatever the contents, names and serials
  it holds, so two lookups with different answers have different texts.
\<close>

theorem dns_reply_faithful:
  "json_read (dns_json rep reply) = Some (reply_json reply)
    \<and> (dns_json rep (LookupReply xs) = dns_json rep (LookupReply ys) \<longleftrightarrow> xs = ys)"
proof
  show "json_read (dns_json rep reply) = Some (reply_json reply)" by (rule dns_json_reads)
  have "xs = ys" if "dns_json rep (LookupReply xs) = dns_json rep (LookupReply ys)"
  proof -
    have "map answer_json xs = map answer_json ys"
      using dns_json_reads [of rep "LookupReply xs"] dns_json_reads [of rep "LookupReply ys"] that by simp
    then show "xs = ys" by (rule map_injective) (simp add: inj_def answer_json_inj)
  qed
  then show "dns_json rep (LookupReply xs) = dns_json rep (LookupReply ys) \<longleftrightarrow> xs = ys" by blast
qed

subsection \<open>Statements\<close>

definition records_statement :: "string \<Rightarrow> string \<Rightarrow> statement" where
  "records_statement qname qtype =
     (let q = rstrip_dots qname; zones = zone_suffixes q
      in (gslb_records_sql (length zones) (qtype = ''ANY''),
          map (\<lambda>s. SqlValue (PStr s)) (zones @ [q, q, q] @ (if qtype = ''ANY'' then [] else [qtype]))))"

definition domains_statement :: "bool \<Rightarrow> statement" where
  "domains_statement include_disabled = (gslb_domains_sql include_disabled, [])"

lemma gslb_records_sent:
  "gslb_records (recorder sv) qname qtype log =
     (sv_rows sv (log @ [records_statement qname qtype]), log @ [records_statement qname qtype])"
  by (simp add: gslb_records_def records_statement_def recorder_def Let_def)

lemma gslb_domains_sent:
  "gslb_domains (recorder sv) b log = (sv_rows sv (log @ [domains_statement b]), log @ [domains_statement b])"
  by (simp add: gslb_domains_def domains_statement_def recorder_def)

lemma db_get_lookup_sent:
  "db_get_lookup (recorder sv) env status ctx r qname qtype [] =
     (bind_result (sv_rows sv [records_statement qname qtype])
        (\<lambda>rows. get_lookup env status (map record_of_row rows) ctx r), [records_statement qname qtype])"
  by (auto simp: db_get_lookup_def gslb_records_sent db_bind_def split: sum.split)

lemma db_get_all_domains_sent:
  "snd (db_get_all_domains (recorder sv) unq now query []) = [domains_statement (include_disabled_param unq query)]"
  by (auto simp: db_get_all_domains_def gslb_domains_sent db_bind_def split: sum.split)

definition dns_reads :: "statement list \<Rightarrow> bool" where
  "dns_reads sent \<longleftrightarrow> sent = [] \<or> (\<exists>qname qtype. sent = [records_statement qname qtype]) \<or> (\<exists>b. sent = [domains_statement b])"

lemma db_bind_return_state: "snd (db_bind m (\<lambda>x. db_return (f x)) s) = snd (m s)"
  by (auto simp: db_bind_def split: prod.split sum.split)

lemma db_dns_content_reads:
  "dns_reads (snd (db_dns_content (db_get_lookup (recorder sv) env status ctx r)
     (db_get_all_domains (recorder sv) unq now query) dirs []))"
  by (auto simp: db_dns_content_def db_bind_return_state db_get_lookup_sent db_get_all_domains_sent dns_reads_def)

text \<open>
  The DNS port only reads. Whatever the method, path, headers and body of a request, the server answers 400 or
  404 without asking the database, or runs a route that sends at most one statement, the read of
  the records of a name or of the zones, with every value bound.
\<close>

theorem dns_port_reads:
  assumes "fst (serve (db_dns_role h status split remote) command path content_length stream) = Inr x"
    and "dh_ex h = recorder sv"
  shows "case x of Error_Status n \<Rightarrow> n = 400 \<or> n = 404 | Answer m \<Rightarrow> dns_reads (snd (m []))"
proof (cases x)
  case (Error_Status n)
  with serve_cases [OF assms(1)] handle_request_Error show ?thesis by fastforce
next
  case (Answer m)
  with serve_cases [OF assms(1)] obtain body where
      "handle_request (db_dns_role h status split remote) command path body = Inr (Answer m)" by auto
  from handle_request_Answer [OF this] obtain ctx dirs query where
    m: "m = db_dns_route h status ctx command dirs query"
    by (auto simp: db_dns_role_def bind_result_Inr_iff)
  have "dns_reads (snd (m []))" unfolding m db_dns_route_def assms(2)
    using db_dns_content_reads by (auto simp: db_bind_return_state dns_reads_def [of "[]"])
  with Answer show ?thesis by simp
qed

definition demo_dns_server :: server where
  "demo_dns_server =
     \<lparr>sv_rows = (\<lambda>log. Inr [[(''qname'', PStr ''a.b''), (''qtype'', PStr ''A''), (''ttl'', PInt 60), (''policy_json'', PStr ''rr''),
        (''weight'', PInt 1), (''id'', PInt 1), (''content'', PStr (str_int 1)), (''rule'', PStr ''all4 all6'')]]),
      sv_count = (\<lambda>log. Inr 0), sv_last_id = (\<lambda>log. 0)\<rparr>"

definition demo_dns_handler :: "statement list dns_handler" where
  "demo_dns_handler = \<lparr>dh_ex = recorder demo_dns_server, dh_env = demo_env, dh_unquote = id, dh_repr = (\<lambda>_. []),
     dh_now = int, dh_rng = (\<lambda>_. 0)\<rparr>"

definition demo_remote :: "(ip_address \<times> client_context) result" where
  "demo_remote = Inr (IPv4 0x0A000001, demo_client 0x0A000001)"

theorem dns_port_reads_witness:
  "dns_reads (snd (db_dns_route demo_dns_handler {} (demo_client 0x0A000001) ''GET'' [''dns'', ''getAllDomains''] [] []))"
proof -
  let ?m = "db_dns_route demo_dns_handler {} (demo_client 0x0A000001) ''GET'' [''dns'', ''getAllDomains''] []"
  have "fst (serve (db_dns_role demo_dns_handler {} split_plain demo_remote) ''GET'' ''/dns/getAllDomains'' None [])
      = Inr (Answer ?m)"
    by (simp add: serve_def do_get_or_head_def handle_request_def split_url_def db_dns_role_def split_plain_def
        demo_remote_def demo_dns_handler_def)
  from dns_port_reads [OF this] show ?thesis by (simp add: demo_dns_handler_def)
qed

subsection \<open>A lookup from its URL to its answers\<close>

lemma db_lookup_route:
  assumes "dh_ex h = recorder sv" and "CHR ''/'' \<notin> set qname"
    and "get_lookup (dh_env h) status (map record_of_row rows) ctx (dh_rng h) = Inr answers"
    and "sv_rows sv [records_statement qname qtype] = Inr rows"
  shows "db_dns_route h status ctx ''GET'' ([''dns'', ''lookup''] @ split_on (CHR ''/'') qname @ [qtype]) query [] =
    (Inr (Dns_Content (dns_json (dh_repr h) (LookupReply answers))), [records_statement qname qtype])"
  by (simp add: db_dns_route_def db_dns_content_def split_on_single [OF assms(2)] assms(1,3,4) db_get_lookup_sent db_bind_def)



subsection \<open>From the admin port to an answer\<close>

text \<open>
  C19: settings that the admin port accepts work on the DNS port. If a routing policy and a view rule were saved, then a
  lookup answers every query type that has a record with this view, in a record set with this policy, for each
  client the rule admits: it neither fails nor leaves the type out.
\<close>

theorem accepted_settings_answer:
  assumes "snd (save_record aenv routing user s) \<noteq> s" and "dict_get_none routing ''data'' = PStr ''routings''"
    and "get_item (dict_get_none routing ''record'') (KStr ''policy_json'') = Inr (PStr json)"
    and "snd (save_record aenv view user' s') \<noteq> s'" and "dict_get_none view ''data'' = PStr ''views''"
    and "get_item (dict_get_none view ''record'') (KStr ''rule'') = Inr (PStr rule)"
    and "ad_loads aenv = e_loads env" and "ad_parse_net aenv = e_parse_net env"
    and "env_ok env (ctx_ip ctx)" and "records_ok records"
    and "y \<in> set records" and "r_rule y = rule" and "\<forall>x \<in> set records. r_qtype x = r_qtype y \<longrightarrow> r_policy_json x = json"
    and "\<forall>v. view_resolve (e_parse_net env) rule = Inr v \<longrightarrow>
           rule_admits (e_contains env) v (ctx_ip ctx) (client_geo_of (e_geoip env) ctx)"
  shows "\<exists>answers. get_lookup env status records ctx r = Inr answers \<and> (\<exists>a \<in> set answers. a_qtype a = r_qtype y)"
proof -
  obtain p where p: "routing_resolve (e_loads env) json = Inr p"
    using save_record_accepts [OF assms(1)] assms(2,3,7) by auto
  obtain v where v: "view_resolve (e_parse_net env) rule = Inr v"
    using save_record_accepts [OF assms(4)] assms(5,6,8) by auto
  let ?g = "group_of records (r_qtype y)"
  have "?g \<noteq> []" using assms(11) by (auto simp: group_of_def filter_empty_conv)
  then have "hd ?g \<in> set ?g" by simp
  then have "r_policy_json (hd ?g) = json" using assms(13) by (auto simp: group_of_def)
  then have pol: "returns (resolve_policy env (hd ?g))" by (simp add: p)
  have seen: "admits env ctx y" using assms(12,14) v by (simp add: admits_def)
  obtain answers where a: "get_lookup env status records ctx r = Inr answers"
    using get_lookup_eq [OF assms(9), of records status r] by auto
  with lookup_answered_iff [OF assms(9,10) a, of "r_qtype y"] pol seen assms(11) show ?thesis by blast
qed

definition demo_view :: query where
  "demo_view =
     [(KStr ''cmd'', PStr ''save-record''), (KStr ''data'', PStr ''views''), (KStr ''recid'', PInt 0),
      (KStr ''record'', PDict [(KStr ''view'', PStr ''v''), (KStr ''rule'', PStr ''all4 all6'')])]"

definition demo_settings :: "statement list admin_env" where
  "demo_settings = (demo_admin auth_server)\<lparr>ad_loads := e_loads demo_env, ad_parse_net := e_parse_net demo_env\<rparr>"

theorem accepted_settings_answer_witness:
  "\<exists>answers. get_lookup demo_env {1, 2} [demo_record 1 ''rr'' ''ten'', demo_record 2 ''rr'' ''all4 all6''] (demo_client 0xC0000201) (\<lambda>_. 0)
      = Inr answers \<and> (\<exists>a \<in> set answers. a_qtype a = ''A'')"
proof -
  have n: "length (snd (save_record demo_settings demo_routing (Some demo_user) [])) = 3"
    "length (snd (save_record demo_settings demo_view (Some demo_user) [])) = 3" by code_simp+
  have d: "dict_get_none demo_routing ''data'' = PStr ''routings''"
    "get_item (dict_get_none demo_routing ''record'') (KStr ''policy_json'') = Inr (PStr ''rr'')"
    "dict_get_none demo_view ''data'' = PStr ''views''"
    "get_item (dict_get_none demo_view ''record'') (KStr ''rule'') = Inr (PStr ''all4 all6'')" by code_simp+
  have e: "ad_loads demo_settings = e_loads demo_env" "ad_parse_net demo_settings = e_parse_net demo_env"
    by (simp_all add: demo_settings_def)
  have adm: "admits demo_env (demo_client 0xC0000201) (demo_record 2 ''rr'' ''all4 all6'')" by code_simp
  have adm': "\<forall>v. view_resolve (e_parse_net demo_env) ''all4 all6'' = Inr v \<longrightarrow>
      rule_admits (e_contains demo_env) v (ctx_ip (demo_client 0xC0000201)) (client_geo_of (e_geoip demo_env) (demo_client 0xC0000201))"
    using adm by (auto simp: admits_def)
  have q: "r_qtype (demo_record 2 ''rr'' ''all4 all6'') = ''A''" by simp
  show ?thesis
    by (rule accepted_settings_answer [OF length_three [OF n(1)] d(1,2) length_three [OF n(2)] d(3,4) e _ _ _ _ _ adm',
          where y = "demo_record 2 ''rr'' ''all4 all6''", unfolded q]) simp_all
qed

end
