(* ===== verification/Http_Connection.thy ===== *)
theory Http_Connection
  imports Request_Handler
begin

section \<open>A connection, byte by byte\<close>

text \<open>
  \<open>handle\<close> of \<open>server/http/handler/request.py\<close> over the bytes a client sends before it closes, through
  \<open>handle_one_request\<close> and \<open>parse_request\<close> of the standard library, whose answers to malformed heads all close the
  connection. The \<open>email\<close> package, which reads the fields out of the header lines, is the parameter \<open>po_fields\<close>. A
  port is one of the two roles, given the head of the request; its answer is a computation over the database
  state, and \<open>po_closes\<close> says whether sending it closed the connection (\<open>send_error\<close> does).
\<close>

subsection \<open>Reading the head\<close>

text \<open>\<open>rfile.readline(limit)\<close>: through the next newline, at most \<open>limit\<close> bytes, less only at the end of the stream.\<close>

definition read_line :: "nat \<Rightarrow> nat list \<Rightarrow> nat list \<times> nat list" where
  "read_line limit stream =
     (let n = min limit (Suc (length (takeWhile (\<lambda>b. b \<noteq> 10) stream))) in (take n stream, drop n stream))"

text \<open>\<open>_MAXLINE\<close>, and the lines that end a head.\<close>

definition max_line :: nat where
  "max_line = 65536"

definition ends_head :: "nat list \<Rightarrow> bool" where
  "ends_head line \<longleftrightarrow> line = [13, 10] \<or> line = [10] \<or> line = []"

text \<open>\<open>_read_headers\<close>, with the number of lines that may still come before \<open>_MAXHEADERS\<close>; \<open>None\<close> is its exception.\<close>

primrec read_header_lines :: "nat \<Rightarrow> nat list \<Rightarrow> (nat list list \<times> nat list) option" where
  "read_header_lines 0 stream = None"
| "read_header_lines (Suc k) stream =
     (let (line, rest) = read_line (Suc max_line) stream
      in if max_line < length line then None
         else if ends_head line then Some ([line], rest)
         else map_option (\<lambda>(lines, rest). (line # lines, rest)) (read_header_lines k rest))"

definition max_headers :: nat where
  "max_headers = 100"

text \<open>The request line: its command, path and whether the protocol version closes the connection.\<close>

definition rstrip_newline :: "string \<Rightarrow> string" where
  "rstrip_newline s = rev (dropWhile (\<lambda>c. c = CHR 0x0D \<or> c = CHR 0x0A) (rev s))"

definition latin1 :: "nat list \<Rightarrow> string" where
  "latin1 bs = map char_of bs"

definition version_numbers :: "string \<Rightarrow> (int \<times> int) option" where
  "version_numbers version =
     (if \<not> starts_with ''HTTP/'' version then None
      else (case split_on (CHR ''.'') (drop 5 version) of
              [major, minor] \<Rightarrow>
                if \<not> str_isdigit major \<or> \<not> str_isdigit minor \<or> 10 < length major \<or> 10 < length minor then None
                else (case (py_int_str major, py_int_str minor) of (Inr a, Inr b) \<Rightarrow> Some (a, b) | _ \<Rightarrow> None)
            | _ \<Rightarrow> None))"

definition parse_request_line :: "nat list \<Rightarrow> (string \<times> string \<times> bool) option" where
  "parse_request_line line =
     (let collapse = (\<lambda>path. if starts_with ''//'' path then CHR ''/'' # dropWhile (\<lambda>c. c = CHR ''/'') path else path)
      in case split_ws (rstrip_newline (latin1 line)) of
           [command, path] \<Rightarrow> if command = ''GET'' then Some (command, collapse path, True) else None
         | [command, path, version] \<Rightarrow>
             (case version_numbers version of
                None \<Rightarrow> None
              | Some (major, minor) \<Rightarrow>
                  if 2 \<le> major then None
                  else Some (command, collapse path, \<not> (major = 1 \<and> 1 \<le> minor)))
         | _ \<Rightarrow> None)"

record request_head =
  hd_command :: string
  hd_path :: string
  hd_fields :: "(string \<times> string) list"
  hd_close :: bool

text \<open>\<open>headers.get(name)\<close>.\<close>

definition header_get :: "(string \<times> string) list \<Rightarrow> string \<Rightarrow> string option" where
  "header_get headers name = map_option snd (find (\<lambda>(n, _). str_lower n = str_lower name) headers)"

definition connection_close :: "bool \<Rightarrow> string option \<Rightarrow> bool" where
  "connection_close close header =
     (case header of
        None \<Rightarrow> close
      | Some h \<Rightarrow> if str_lower h = ''close'' then True else if str_lower h = ''keep-alive'' then False else close)"

record ('s, 'a) port =
  po_fields :: "nat list list \<Rightarrow> (string \<times> string) list"
  po_role :: "request_head \<Rightarrow> ('s, 'a) db role"
  po_closes :: "'a \<Rightarrow> bool"

definition make_head :: "('s, 'a) port \<Rightarrow> string \<times> string \<times> bool \<Rightarrow> nat list list \<Rightarrow> request_head" where
  "make_head port = (\<lambda>(command, path, close) lines.
     \<lparr>hd_command = command, hd_path = path, hd_fields = po_fields port lines,
      hd_close = connection_close close (header_get (po_fields port lines) ''Connection'')\<rparr>)"

text \<open>\<open>parse_request\<close> after a request line; \<open>None\<close> when it returns false, its error sent.\<close>

definition parse_request :: "('s, 'a) port \<Rightarrow> nat list \<Rightarrow> nat list \<Rightarrow> (request_head \<times> nat list) option" where
  "parse_request port line stream =
     (case parse_request_line line of
        None \<Rightarrow> None
      | Some parsed \<Rightarrow>
          map_option (\<lambda>(lines, rest). (make_head port parsed lines, rest)) (read_header_lines max_headers stream))"

subsection \<open>Serving\<close>

text \<open>What became of a request: refused before its method ran, answered, or broken by an exception.\<close>

datatype 'a exchange = Refused | Answered request_head "'a response" | Broken request_head py_error

text \<open>Sending the answer: the computation runs; an error status closes the connection, as an answer may.\<close>

definition send_answer :: "('s, 'a) port \<Rightarrow> request_head \<Rightarrow> ('s, 'a) db response result \<Rightarrow> 's \<Rightarrow> 'a exchange \<times> round \<times> 's" where
  "send_answer port h r s =
     (let failed = (\<lambda>e. if e = OtherError ''TimeoutError'' then Served True else Failed True e)
      in case r of
           Inl e \<Rightarrow> (Broken h e, failed e, s)
         | Inr (Error_Status n) \<Rightarrow> (Answered h (Error_Status n), Served True, s)
         | Inr (Answer m) \<Rightarrow>
             (case m s of
                (Inl e, s') \<Rightarrow> (Broken h e, failed e, s')
              | (Inr a, s') \<Rightarrow> (Answered h (Answer a), Served (hd_close h \<or> po_closes port a), s')))"

definition has_method :: "string \<Rightarrow> bool" where
  "has_method command \<longleftrightarrow> command = ''GET'' \<or> command = ''HEAD'' \<or> command = ''POST''"

definition content_length :: "request_head \<Rightarrow> string option" where
  "content_length h = header_get (hd_fields h) ''Content-Length''"

definition call_method :: "('s, 'a) port \<Rightarrow> request_head \<Rightarrow> nat list \<Rightarrow> ('s, 'a) db response result \<times> nat list" where
  "call_method port h stream =
     (if hd_command h = ''POST'' then do_post (po_role port h) (hd_path h) (content_length h) stream
      else do_get_or_head (po_role port h) (hd_command h) (hd_path h) stream)"

text \<open>\<open>handle_one_request\<close>.\<close>

definition one_request :: "('s, 'a) port \<Rightarrow> nat list \<Rightarrow> 's \<Rightarrow> 'a exchange list \<times> round \<times> nat list \<times> 's" where
  "one_request port stream s =
     (let (line, stream) = read_line (Suc max_line) stream
      in if max_line < length line then ([Refused], Served True, stream, s)
         else if line = [] then ([], Served True, stream, s)
         else
           (case parse_request port line stream of
              None \<Rightarrow> ([Refused], Served True, stream, s)
            | Some (h, stream) \<Rightarrow>
                if \<not> has_method (hd_command h) then ([Refused], Served True, stream, s)
                else (let (r, rest) = call_method port h stream; (x, round, s') = send_answer port h r s
                      in ([x], round, rest, s'))))"

text \<open>The loop of \<open>handle\<close>, with the exchanges in order and how the connection ended.\<close>

partial_function (option) serve_connection ::
    "('s, 'a) port \<Rightarrow> nat list \<Rightarrow> 's \<Rightarrow> ('a exchange list \<times> outcome \<times> 's) option" where
  "serve_connection port stream s =
     (case one_request port stream s of
        (xs, Served closes, rest, s') \<Rightarrow>
          if closes then Some (xs, Closed, s')
          else Option.bind (serve_connection port rest s') (\<lambda>(ys, oc, s''). Some (xs @ ys, oc, s''))
      | (xs, Failed command_set e, rest, s') \<Rightarrow> Some (xs, connection_failed command_set e, s'))"

definition handle_bytes ::
    "('s, 'a) port \<Rightarrow> unit result \<Rightarrow> nat list \<Rightarrow> 's \<Rightarrow> ('a exchange list \<times> outcome \<times> 's) option" where
  "handle_bytes port opened stream s =
     (case opened of Inl e \<Rightarrow> Some ([], connection_failed False e, s) | Inr _ \<Rightarrow> serve_connection port stream s)"

end
