(* ===== verification/Ports.thy ===== *)
theory Ports
  imports Http_Connection PowerDNS_Database
begin

section \<open>The two ports on the wire\<close>

text \<open>
  The role handlers as ports of \<open>Http_Connection\<close>: the headers a role reads come from the head of each request, and
  what changes while a connection is open (the registry, the clock, the draws) is given for the \<open>n\<close>th answer.
\<close>

definition timed :: "(nat \<Rightarrow> ('s, 'a) db role) \<Rightarrow> ('s \<times> nat, 'a) db role" where
  "timed role =
     \<lparr>ro_route = ro_route (role 0), ro_urlsplit = ro_urlsplit (role 0), ro_unquote = ro_unquote (role 0),
      ro_set_remote_ip = ro_set_remote_ip (role 0),
      ro_handle = (\<lambda>command dirs query body. Inr (\<lambda>(s, n).
        case ro_handle (role n) command dirs query body of
          Inl e \<Rightarrow> (Inl e, (s, Suc n))
        | Inr m \<Rightarrow> (case m s of (r, s') \<Rightarrow> (r, (s', Suc n)))))\<rparr>"

text \<open>Answers that end with \<open>send_error\<close> close the connection; \<open>static_closes\<close> says which static ones do.\<close>

definition dns_port ::
    "(nat list list \<Rightarrow> (string \<times> string) list) \<Rightarrow> (nat \<Rightarrow> 's dns_handler) \<Rightarrow> (nat \<Rightarrow> status_registry)
       \<Rightarrow> (string \<Rightarrow> (string \<times> string) result) \<Rightarrow> (string \<Rightarrow> ip_address result) \<Rightarrow> (string \<Rightarrow> ip_network result) \<Rightarrow> string
       \<Rightarrow> ('s \<times> nat, dns_response) port" where
  "dns_port read_fields handler status split parse_ip parse_net peer =
     \<lparr>po_fields = read_fields,
      po_role = (\<lambda>h. timed (\<lambda>n. db_dns_role (handler n) (status n) split
                    (dns_set_remote_ip parse_ip parse_net (header_get (hd_fields h)) peer))),
      po_closes = (\<lambda>r. r = Dns_Not_Found)\<rparr>"

text \<open>\<open>_set_remote_ip\<close> of the base class, and the text of the address that the audit trail shows; \<open>ip_text\<close> is \<open>str\<close>.\<close>

definition set_remote_ip :: "(string \<Rightarrow> ip_address result) \<Rightarrow> string \<Rightarrow> ip_address result" where
  "set_remote_ip parse_ip peer = parse_ip peer"

definition peer_ip :: "(string \<Rightarrow> ip_address result) \<Rightarrow> (ip_address \<Rightarrow> string) \<Rightarrow> string \<Rightarrow> string" where
  "peer_ip parse_ip ip_text peer =
     client_ip (case set_remote_ip parse_ip peer of Inl _ \<Rightarrow> None | Inr ip \<Rightarrow> Some (ip_text ip)) peer"

definition admin_port ::
    "(nat list list \<Rightarrow> (string \<times> string) list) \<Rightarrow> 's admin_env \<Rightarrow> (nat \<Rightarrow> status_registry)
       \<Rightarrow> (string \<Rightarrow> (string \<times> string) result) \<Rightarrow> (string \<Rightarrow> ip_address result) \<Rightarrow> (ip_address \<Rightarrow> string) \<Rightarrow> string
       \<Rightarrow> (admin_response \<Rightarrow> bool) \<Rightarrow> ('s \<times> nat, admin_response) port" where
  "admin_port read_fields env status split parse_ip ip_text peer static_closes =
     \<lparr>po_fields = read_fields,
      po_role = (\<lambda>h. timed (\<lambda>n. admin_role split (ad_unquote env) (bind_result (set_remote_ip parse_ip peer) (\<lambda>_. Inr ()))
                    env (status n) (header_get (hd_fields h) ''Authorization'') (peer_ip parse_ip ip_text peer))),
      po_closes = (\<lambda>r. r = NotFound \<or> r \<in> {ServeGet, ServeHead} \<and> static_closes r)\<rparr>"

end
