(* ===== verification/Statement_Verbs.thy ===== *)
theory Statement_Verbs
  imports Table_Operations PowerDNS_Queries
begin

section \<open>Queries and writes\<close>

text \<open>
  The verb of a statement text, which \<open>join_operation\<close> keeps: what the tables and the DNS path send through \<open>select\<close> are
  queries, and what the tables send through \<open>execute\<close> are not. \<open>sent\<close> is a statement as the cursor receives it.
\<close>

definition sent :: "statement \<Rightarrow> statement" where
  "sent st = (join_operation (fst st), unwrap_params (snd st))"

definition statement_verb :: "string \<Rightarrow> string" where
  "statement_verb sql = takeWhile (\<lambda>c. \<not> is_space c) (dropWhile is_space sql)"

definition blank :: "string \<Rightarrow> bool" where
  "blank s \<longleftrightarrow> list_all is_space s"

lemma blank_simps [simp]: "blank []" "blank (c # s) \<longleftrightarrow> is_space c \<and> blank s" "blank (a @ b) \<longleftrightarrow> blank a \<and> blank b"
  "blank (rev s) \<longleftrightarrow> blank s"
  by (auto simp: blank_def list_all_iff)

lemma verb_blank: "blank a \<Longrightarrow> statement_verb (a @ b) = statement_verb b"
  by (simp add: statement_verb_def blank_def list_all_iff dropWhile_append3)

lemma verb_nil [simp]: "statement_verb [] = []"
  by (simp add: statement_verb_def)

lemma verb_word:
  assumes "\<not> blank a" and "b = [] \<or> is_space (hd b)"
  shows "statement_verb (a @ b) = statement_verb a"
proof -
  from assms(1) have "dropWhile is_space (a @ b) = dropWhile is_space a @ b"
    by (induction a) auto
  moreover have "takeWhile (\<lambda>c. \<not> is_space c) (u @ b) = takeWhile (\<lambda>c. \<not> is_space c) u" for u
    using assms(2) by (cases b; induction u) auto
  ultimately show ?thesis by (simp add: statement_verb_def)
qed

lemma takeWhile_blank: "blank (takeWhile is_space s)"
  by (auto simp: blank_def list_all_iff dest: set_takeWhileD)

text \<open>A line is its stripped text between blanks.\<close>

lemma strip_split:
  obtains a b where "l = a @ strip l @ b" and "blank a" and "blank b"
proof
  let ?u = "dropWhile is_space l"
  have "?u = strip l @ rev (takeWhile is_space (rev ?u))"
    unfolding strip_def by (metis rev_append rev_rev_ident takeWhile_dropWhile_id)
  then show "l = takeWhile is_space l @ strip l @ rev (takeWhile is_space (rev ?u))"
    by (metis takeWhile_dropWhile_id)
qed (simp_all add: takeWhile_blank)

lemma strip_nil_iff: "strip l = [] \<longleftrightarrow> blank l"
proof -
  have "(\<forall>x \<in> set (dropWhile is_space l). is_space x) \<longleftrightarrow> (\<forall>x \<in> set l. is_space x)"
    by (induction l) auto
  then show ?thesis by (simp add: strip_def blank_def list_all_iff)
qed

lemma blank_strip [simp]: "blank (strip l) \<longleftrightarrow> blank l"
  by (rule strip_split [of l]) (metis blank_simps(3))

lemma verb_strip: "statement_verb (strip l) = statement_verb l"
proof (rule strip_split [of l])
  fix a b assume l: "l = a @ strip l @ b" and a: "blank a" and b: "blank b"
  show ?thesis
  proof (cases "blank l")
    case True
    then show ?thesis using strip_nil_iff [of l] verb_blank [of l "[]"] by simp
  next
    case False
    with b have "statement_verb (strip l @ b) = statement_verb (strip l)"
      by (cases b) (auto intro!: verb_word)
    with l a show ?thesis by (metis verb_blank)
  qed
qed

definition joined_lines :: "string list \<Rightarrow> string" where
  "joined_lines ls = join '' '' (filter (\<lambda>l. l \<noteq> []) (map strip ls))"

lemma verb_joined_Cons:
  "statement_verb (joined_lines (l # ls)) =
     (if blank l then statement_verb (joined_lines ls) else statement_verb l)"
proof (cases "blank l")
  case False
  let ?r = "filter (\<lambda>l. l \<noteq> []) (map strip ls)"
  have "joined_lines (l # ls) = strip l @ (if ?r = [] then [] else '' '' @ join '' '' ?r)"
    using False by (cases ?r) (simp_all add: joined_lines_def strip_nil_iff)
  with False show ?thesis
    using verb_word [of "strip l"] verb_strip [of l] by (simp add: is_space_def)
qed (simp add: joined_lines_def strip_nil_iff)

lemma linebreak_space: "is_linebreak c \<Longrightarrow> is_space c"
  by (auto simp: is_linebreak_def is_space_def)

lemma verb_splitlines: "statement_verb (joined_lines (splitlines_aux w s)) = statement_verb (rev w @ s)"
proof (induction w s rule: splitlines_aux.induct)
  case (1 w)
  then show ?case using verb_blank [of "rev w" "[]"] by (simp add: verb_joined_Cons) (simp add: joined_lines_def)
next
  case (2 w x)
  then show ?case
    using verb_blank [of "rev w" "[x]"] verb_word [of "rev w" "[x]"] linebreak_space [of x] verb_blank [of "[x]" "[]"]
     verb_blank [of "rev w @ [x]" "[]"]
    by (auto simp: verb_joined_Cons joined_lines_def [of "[]"])
next
  case (3 w x y s)
  show ?case
  proof (cases "is_linebreak x")
    case True
    then have x: "is_space x" by (rule linebreak_space)
    have y: "code y = 10 \<Longrightarrow> is_space y" by (simp add: is_space_def)
    from 3 True x y show ?thesis
      using verb_blank [of "rev w" "x # y # s"] verb_word [of "rev w" "x # y # s"] verb_blank [of "[x, y]" s] verb_blank [of "[x]" "y # s"]
      by (auto simp: verb_joined_Cons)
  next
    case False
    then have "code x \<noteq> 13" by (auto simp: is_linebreak_def)
    with 3(3) False show ?thesis by simp
  qed
qed

lemma verb_join_operation: "statement_verb (join_operation sql) = statement_verb sql"
  using verb_splitlines [of "[]" sql] by (simp add: join_operation_def splitlines_def joined_lines_def)

lemma verb_sql_block:
  assumes "\<not> blank l"
  shows "statement_verb (sql_block (l # ls) @ r) = statement_verb l"
proof -
  have "sql_block (l # ls) @ r = [newline] @ l @ (if ls = [] then [] else newline # join [newline] ls) @ newline # r"
    by (cases ls) (simp_all add: sql_block_def)
  also have "statement_verb \<dots> = statement_verb (l @ (if ls = [] then [] else newline # join [newline] ls) @ newline # r)"
    by (rule verb_blank) (simp add: newline_def is_space_def)
  also have "\<dots> = statement_verb l"
    using assms by (intro verb_word) (simp_all add: newline_def is_space_def)
  finally show ?thesis .
qed

lemma verb_Cons:
  "statement_verb (c # s) = (if is_space c then statement_verb s else c # takeWhile (\<lambda>c. \<not> is_space c) s)"
  by (simp add: statement_verb_def)

definition reads :: "string \<Rightarrow> bool" where
  "reads sql \<longleftrightarrow> statement_verb sql = ''SELECT''"

lemma reads_sent [simp]: "reads (join_operation sql) \<longleftrightarrow> reads sql"
  by (simp add: reads_def verb_join_operation)

lemma reads_nonblank: "reads l \<Longrightarrow> \<not> blank l"
  using verb_blank [of l "[]"] by (auto simp: reads_def)

lemma reads_block: "reads l \<Longrightarrow> reads (sql_block (l # ls) @ r)" "reads l \<Longrightarrow> reads (sql_block (l # ls))"
  using verb_sql_block [of l ls r] verb_sql_block [of l ls "[]"] reads_nonblank [of l] by (simp_all add: reads_def)

lemma reads_not_block: "\<not> blank l \<Longrightarrow> \<not> reads l \<Longrightarrow> \<not> reads (sql_block (l # ls))"
  using verb_sql_block [of l ls "[]"] by (simp add: reads_def)

lemmas verb_simps = reads_def verb_Cons is_space_def

subsection \<open>The statements of the program\<close>

lemma reads_tables:
  "reads (select_sql t @ r)" "reads (select_sql t)" "reads (select_one t)"
  "reads (''SELECT * FROM ('' @ r)" "reads (''SELECT COUNT(*) AS `total` FROM ('' @ r)"
  "reads (sql_block (''SELECT `r`.*,'' # ls))" "reads (fst (local_select t ids))"
  "reads (''SELECT `id`, `user`, `name`, `password` FROM '' @ r)"
proof -
  show s: "reads (select_sql t @ r)" for r
    unfolding select_sql_def records_select_def by (auto intro!: reads_block) (simp_all add: verb_simps)
  show "reads (select_sql t)" using s [of "[]"] by simp
  show "reads (select_one t)" unfolding select_one_def by (rule s)
  show "reads (fst (local_select t ids))"
    unfolding local_select_def by (auto intro!: reads_block) (simp_all add: verb_simps)
  show "reads (sql_block (''SELECT `r`.*,'' # ls))" by (rule reads_block) (simp add: verb_simps)
qed (simp_all add: verb_simps)

lemma reads_dns:
  "reads gslb_checks_sql" "reads (gslb_domains_sql d)" "reads (gslb_records_sql n a)"
  unfolding gslb_checks_sql_def gslb_domains_sql_def gslb_records_sql_def
  by (intro reads_block; simp add: verb_simps)+

lemma writes_tables:
  "\<not> reads (insert_of t n)" "\<not> reads (update_of t cs)" "\<not> reads (delete_of t n)"
  "\<not> reads rrset_upsert" "\<not> reads record_update" "\<not> reads record_insert"
proof -
  show "\<not> reads rrset_upsert" "\<not> reads record_update" "\<not> reads record_insert"
    unfolding rrset_upsert_def record_update_def record_insert_def
    by (intro reads_not_block; simp add: verb_simps)+
qed (simp_all add: insert_of_def update_of_def delete_of_def verb_simps)

end
