(* ===== verification/Admin_Audit.thy ===== *)
theory Admin_Audit
  imports Admin_Properties Statement_Verbs
begin

section \<open>Every admin write is signed\<close>

text \<open>
  From the Basic header of a request to the audit row of what it wrote. The locale \<open>reader\<close> shows which operations
  of the tables only read, whatever the executor; \<open>journaled\<close> adds the writes and the transaction, whose contract is
  what \<open>w2ui_writes_atomic\<close> shows of a transaction on MySQL, and follows a request of the admin handler through
  them. \<open>Mysql_Journal\<close> shows that the model of \<open>database.py\<close> has both contracts.
\<close>

subsection \<open>Reading writes nothing\<close>

text \<open>
  \<open>seen\<close> is what the state of an executor holds of the writes: each modifying statement, as sent, with its row count.
  \<open>fine\<close> are the states in which a query can be sent, and with \<open>lossy\<close> a failing query may lose what was seen, as the
  loss of a connection loses an open transaction.
\<close>

type_synonym journal = "(statement \<times> int) list"

locale reader =
  fixes ex :: "'s executor" and seen :: "'s \<Rightarrow> journal" and fine :: "'s \<Rightarrow> bool" and lossy :: bool
  assumes select_quiet: "fine s \<Longrightarrow> reads sql \<Longrightarrow> ex_select ex sql ps s = (r, s') \<Longrightarrow>
      fine s' \<and> (seen s' = seen s \<or> lossy \<and> (\<exists>e. r = Inl e))"
begin

definition silent :: "('s, 'a) db \<Rightarrow> bool" where
  "silent m \<longleftrightarrow> (\<forall>s r s'. fine s \<longrightarrow> m s = (r, s') \<longrightarrow> fine s' \<and> (seen s' = seen s \<or> lossy \<and> (\<exists>e. r = Inl e)))"

lemma silentD: "silent m \<Longrightarrow> fine s \<Longrightarrow> m s = (Inr x, s') \<Longrightarrow> fine s' \<and> seen s' = seen s"
  by (fastforce simp: silent_def)

lemma silent_return [intro, simp]: "silent (db_return x)" "silent (db_raise e)" "silent (db_lift r)"
  by (simp_all add: silent_def)

lemma silent_bind [intro]:
  assumes "silent m" and "\<And>x. silent (f x)" shows "silent (db_bind m f)"
  unfolding silent_def
proof (intro allI impI)
  fix s r s' assume s: "fine s" and run: "db_bind m f s = (r, s')"
  obtain q u where q: "m s = (q, u)" by fastforce
  show "fine s' \<and> (seen s' = seen s \<or> lossy \<and> (\<exists>e. r = Inl e))"
  proof (cases q)
    case (Inl e)
    with run q assms(1) s show ?thesis by (auto simp: db_bind_def silent_def)
  next
    case (Inr x)
    with silentD [OF assms(1) s] q have "fine u" "seen u = seen s" by simp_all
    with run q Inr assms(2) [of x] show ?thesis by (auto simp: db_bind_def silent_def)
  qed
qed

lemma silent_select [intro]: "reads sql \<Longrightarrow> silent (ex_select ex sql ps)"
  by (simp add: silent_def select_quiet)

text \<open>The rules by which a computation that only reads is seen to be silent, by its shape.\<close>

lemma silent_cases [intro]:
  "(\<And>a b. silent (f a b)) \<Longrightarrow> silent (case p of (a, b) \<Rightarrow> f a b)"
  "silent m \<Longrightarrow> (\<And>x. silent (g x)) \<Longrightarrow> silent (case x of None \<Rightarrow> m | Some x \<Rightarrow> g x)"
  "silent m \<Longrightarrow> (\<And>y ys. silent (h y ys)) \<Longrightarrow> silent (case xs of [] \<Rightarrow> m | y # ys \<Rightarrow> h y ys)"
  "(\<And>e. silent (k e)) \<Longrightarrow> (\<And>x. silent (g x)) \<Longrightarrow> silent (case r of Inl e \<Rightarrow> k e | Inr x \<Rightarrow> g x)"
  "silent m \<Longrightarrow> silent m' \<Longrightarrow> silent (if c then m else m')"
  by (simp_all split: prod.split option.split list.split sum.split)

lemma silent_table_read: "reads operation \<Longrightarrow> silent (table_read ex env t operation params page)"
  unfolding table_read_def Let_def by (intro silent_cases silent_bind silent_return silent_select reads_tables; assumption)

lemma silent_join_page: "silent (join_page ex t id_rows)"
  unfolding join_page_def status_join_page_def records_join_page_def
  by (intro silent_cases silent_bind silent_return silent_select reads_tables)

lemma silent_base_get: "silent (base_get ex env t recid page)"
  unfolding base_get_def by (rule silent_table_read) (simp add: reads_tables)

lemma silent_records_get: "silent (records_get ex env t recid page ids)"
proof -
  have "silent (full_read ex env t recid page ids)" for page
    unfolding full_read_def status_full_read_def
    by (intro silent_cases silent_base_get silent_table_read reads_tables)
  moreover have "silent (db_bind (table_read ex env t (fst (local_select t ids)) ps page)
      (\<lambda>(id_rows, total). db_bind (join_page ex t id_rows) (\<lambda>rows. db_return (rows, total))))" for ps page
    by (intro silent_bind silent_cases silent_table_read silent_join_page silent_return reads_tables)
  ultimately show ?thesis unfolding records_get_def Let_def case_prod_beta by (intro silent_cases)
qed

lemma silent_table_get [intro, simp]: "silent (table_get ex env t recid page ids)"
  unfolding table_get_def by (intro silent_cases silent_records_get silent_base_get)

lemma silent_read_row [intro, simp]: "silent (read_row ex env t recid)"
  unfolding read_row_def by (intro silent_bind silent_cases silent_return silent_table_get)

lemma silent_written_recid [intro, simp]: "silent (written_recid ex t recid posted)"
  by (auto simp: written_recid_def silent_def Let_def)

lemma silent_get_data [intro, simp]: "silent (get_data ex env data recid page ids)"
  unfolding get_data_def by (intro silent_bind silent_return silent_table_get)

lemma silent_check_user [intro, simp]: "silent (w2ui_check_user ex env user password)"
  unfolding w2ui_check_user_def check_user_def by (intro silent_bind silent_return silent_select reads_tables)

lemma silent_authorized: "ad_ex env = ex \<Longrightarrow> silent (is_authorized env header ip)"
  unfolding is_authorized_def by (intro silent_cases silent_bind silent_return; simp)

lemma silent_reads:
  assumes "ad_ex env = ex"
  shows "silent (get_items env status q)" and "silent (get_record env status q)" and "silent (get_records env status q)"
  unfolding get_items_def get_record_def get_records_def admin_get_data_def Let_def
  by (intro silent_bind silent_cases silent_return; simp add: assms)+

end

subsection \<open>Audited writes\<close>

text \<open>The statement of \<open>Audit.record\<close>, a row signed by the user of the request, and the writes of one request.\<close>

definition audit_statement :: "audit_row list \<Rightarrow> statement" where
  "audit_statement rows = sent (insert_of AUDIT (length rows), map SqlValue (concat (map audit_values rows)))"

definition signed_by :: "user_context \<Rightarrow> string \<Rightarrow> audit_row \<Rightarrow> bool" where
  "signed_by user data r \<longleftrightarrow>
     au_user r = uc_user user \<and> au_client_ip r = uc_client_ip user \<and> au_data r = data
     \<and> (au_action r = ''save'' \<and> au_after r \<noteq> None
        \<or> au_action r = ''delete'' \<and> au_before r \<noteq> None \<and> au_after r = None)"

lemma signed_make_audit_row:
  "signed_by user data (make_audit_row rep ''delete'' data user i (Some r) None)"
  "signed_by user data (make_audit_row rep ''save'' data user i before (Some r))"
  by (simp_all add: signed_by_def make_audit_row_def record_json_def)

definition audited :: "user_context \<Rightarrow> string \<Rightarrow> journal \<Rightarrow> bool" where
  "audited user data ws \<longleftrightarrow>
     (\<forall>w \<in> set ws. snd w = 0)
     \<or> (\<exists>vs rows n. ws = vs @ [(audit_statement rows, n)] \<and> rows \<noteq> [] \<and> list_all (signed_by user data) rows)"

subsection \<open>Writing is journaled\<close>

text \<open>
  Outside a transaction, in the states \<open>idle\<close>, queries keep the published \<open>journal\<close>. \<open>inside k\<close> are the states of a transaction
  \<open>k\<close>, in which the session sees its own writes. A transaction publishes what its block has written, or nothing.
\<close>

locale journaled = reader ex journal idle False for ex :: "'s executor" and journal and idle +
  fixes inside :: "'k \<Rightarrow> 's \<Rightarrow> bool" and seen :: "'s \<Rightarrow> journal" and tx :: "('s, int) db \<Rightarrow> ('s, int) db"
  assumes inside_select: "inside k s \<Longrightarrow> inside k (snd (ex_select ex sql ps s))"
    and inside_modify: "inside k s \<Longrightarrow> inside k (snd (ex_modify ex sql ps s))"
    and select_done: "inside k s \<Longrightarrow> reads sql \<Longrightarrow> ex_select ex sql ps s = (Inr x, s') \<Longrightarrow> seen s' = seen s"
    and modify_done: "inside k s \<Longrightarrow> \<not> reads sql \<Longrightarrow> ex_modify ex sql ps s = (Inr n, s') \<Longrightarrow>
      seen s' = seen s @ [(sent (sql, ps), n)] \<and> 0 \<le> n"
    and tx_atomic: "idle s \<Longrightarrow> (\<And>k t. inside k t \<Longrightarrow> inside k (snd (block t))) \<Longrightarrow> tx block s = (r, s') \<Longrightarrow>
      idle s' \<and> (journal s' = journal s
        \<or> (\<exists>k t n u. inside k t \<and> seen t = journal s \<and> block t = (Inr n, u) \<and> journal s' = seen u))"

sublocale journaled \<subseteq> block: reader ex seen "inside k" True for k
proof
  fix s sql ps r s' assume s: "inside k s" "reads sql" "ex_select ex sql ps s = (r, s')"
  from inside_select [OF s(1), of sql ps] s(3) have "inside k s'" by simp
  with select_done [OF s(1,2)] s(3) show "inside k s' \<and> (seen s' = seen s \<or> True \<and> (\<exists>e. r = Inl e))"
    by (cases r) auto
qed

sublocale journaled \<subseteq> block: binding ex "inside k" for k
  by unfold_locales (simp_all add: inside_select inside_modify)

context journaled
begin

text \<open>A computation that returns the sum of the rows it has written.\<close>

definition wrote :: "'s \<Rightarrow> int \<Rightarrow> 's \<Rightarrow> bool" where
  "wrote s n s' \<longleftrightarrow>
     (\<exists>ws. seen s' = seen s @ ws \<and> n = sum_list (map snd ws) \<and> list_all (\<lambda>w. 0 \<le> snd w) ws)"

definition counted :: "('s, int) db \<Rightarrow> bool" where
  "counted m \<longleftrightarrow> (\<forall>k s n s'. inside k s \<longrightarrow> m s = (Inr n, s') \<longrightarrow> inside k s' \<and> wrote s n s')"

lemma countedD: "counted m \<Longrightarrow> inside k s \<Longrightarrow> m s = (Inr n, s') \<Longrightarrow> inside k s' \<and> wrote s n s'"
  by (auto simp: counted_def)

lemma counted_modify [intro]: "\<not> reads sql \<Longrightarrow> counted (ex_modify ex sql ps)"
  unfolding counted_def wrote_def using modify_done inside_modify by (fastforce simp: prod_eq_iff)

lemma counted_none [intro, simp]: "counted (db_return 0)" "counted (db_raise e)"
  by (auto simp: counted_def wrote_def)

lemma counted_cases [intro]: "counted m \<Longrightarrow> counted m' \<Longrightarrow> counted (if c then m else m')"
  by simp

lemma counted_lift: "(\<And>x. counted (f x)) \<Longrightarrow> counted (db_bind (db_lift r) f)"
  by (auto simp: counted_def db_bind_Inr_iff)

lemma counted_sum:
  assumes "counted m" and "counted m'"
  shows "counted (db_bind m (\<lambda>a. db_bind m' (\<lambda>b. db_return (a + b))))"
  unfolding counted_def
proof (intro allI impI)
  fix k s n s' assume s: "inside k s" and "db_bind m (\<lambda>a. db_bind m' (\<lambda>b. db_return (a + b))) s = (Inr n, s')"
  then obtain a u b where "m s = (Inr a, u)" "m' u = (Inr b, s')" "n = a + b"
    by (auto simp: db_bind_Inr_iff)
  with countedD [OF assms(1) s] countedD [OF assms(2)] show "inside k s' \<and> wrote s n s'"
    by (fastforce simp: wrote_def)
qed

lemma counted_table_save: "counted (table_save ex env t recid posted)"
proof -
  have "counted (records_save ex env recid posted)"
    unfolding records_save_def Let_def
    by (intro counted_lift counted_sum counted_cases counted_modify writes_tables)
  moreover have "counted (users_save ex env t recid posted)"
    unfolding users_save_def Let_def by (intro counted_lift counted_cases counted_modify writes_tables)
  moreover have "counted (base_save ex t recid posted)"
    unfolding base_save_def by (intro counted_lift counted_cases counted_modify writes_tables)
  ultimately show ?thesis by (cases "t_class t") (simp_all add: table_save_def)
qed

lemma counted_table_remove: "counted (table_remove ex t ids)" "counted (table_remove ex t [])"
  by (cases "t_class t"; auto simp: table_remove_def base_remove_def writes_tables)+

lemma remove_nothing: "table_remove ex t [] s = (Inr n, s') \<Longrightarrow> n = 0"
  by (cases "t_class t") (simp_all add: table_remove_def base_remove_def)

lemma wrote_nothing:
  assumes "wrote s 0 s'" shows "\<exists>ws. seen s' = seen s @ ws \<and> (\<forall>w \<in> set ws. snd w = 0)"
proof -
  from assms obtain ws where ws: "seen s' = seen s @ ws" "sum_list (map snd ws) = 0" "list_all (\<lambda>w. 0 \<le> snd w) ws"
    by (auto simp: wrote_def)
  then have "\<forall>w \<in> set ws. snd w = 0"
    using sum_list_nonneg_eq_0_iff [of "map snd ws"] by (auto simp: list_all_iff)
  with ws(1) show ?thesis by blast
qed

lemma audit_record_wrote:
  "inside k s \<Longrightarrow> audit_record ex AUDIT rows s = (Inr n, s') \<Longrightarrow> rows \<noteq> [] \<Longrightarrow> seen s' = seen s @ [(audit_statement rows, n)]"
  using modify_done writes_tables(1) by (simp add: audit_record_def audit_statement_def)

text \<open>What a block of the tables may have written when it returns.\<close>

definition accounts :: "user_context \<Rightarrow> string \<Rightarrow> ('s, int) db \<Rightarrow> bool" where
  "accounts user data m \<longleftrightarrow>
     (\<forall>k s n s'. inside k s \<longrightarrow> m s = (Inr n, s') \<longrightarrow> (\<exists>ws. seen s' = seen s @ ws \<and> audited user data ws))"

lemma audit_after:
  assumes "wrote s n u" and "inside k u'" and "audit_record ex AUDIT rows u' = (Inr m, s')" and "seen u' = seen u"
    and "rows \<noteq> []" and "list_all (signed_by user data) rows"
  shows "\<exists>ws. seen s' = seen s @ ws \<and> audited user data ws"
  using audit_record_wrote [OF assms(2, 3, 5)] assms(1, 4, 5, 6) unfolding wrote_def audited_def by auto

lemma audit_none: "wrote s 0 s' \<Longrightarrow> \<exists>ws. seen s' = seen s @ ws \<and> audited user data ws"
  using wrote_nothing [of s s'] by (auto simp: audited_def)

lemma accounts_delete_block: "accounts user data (delete_block ex env rep data t ids user)"
  unfolding accounts_def
proof (intro allI impI)
  fix k s n s' assume s: "inside k s" and "delete_block ex env rep data t ids user s = (Inr n, s')"
  then obtain records cnt recids u v where get: "table_get ex env t 0 (Some (recid_page ids)) [] s = (Inr (records, cnt), u)"
    and recids: "mapr (\<lambda>r. row_item r ''recid'') records = Inr recids"
    and remove: "table_remove ex t recids u = (Inr n, v)"
    and rest: "n = 0 \<and> s' = v \<or> n \<noteq> 0 \<and> (\<exists>m. audit_record ex AUDIT
        (map (\<lambda>(i, r). make_audit_row rep ''delete'' data user i (Some r) None) (zip recids records)) v = (Inr m, s'))"
    by (auto simp: delete_block_def db_bind_Inr_iff split: prod.splits if_splits)
  from block.silentD [OF block.silent_table_get s get] have u: "inside k u" "seen u = seen s" by simp_all
  from countedD [OF counted_table_remove(1) u(1) remove] u(2) have v: "inside k v" "wrote s n v"
    by (simp_all add: wrote_def)
  have len: "length recids = length records" by (rule mapr_length [OF recids])
  show "\<exists>ws. seen s' = seen s @ ws \<and> audited user data ws"
  proof (cases "n = 0")
    case True
    with rest v show ?thesis using audit_none by auto
  next
    case False
    with rest obtain m where "audit_record ex AUDIT
        (map (\<lambda>(i, r). make_audit_row rep ''delete'' data user i (Some r) None) (zip recids records)) v = (Inr m, s')"
      by blast
    then show ?thesis
    proof (rule audit_after [OF v(2, 1) _ refl])
      have "recids \<noteq> []" using False remove_nothing remove by auto
      then show "map (\<lambda>(i, r). make_audit_row rep ''delete'' data user i (Some r) None) (zip recids records) \<noteq> []"
        using len by auto
    qed (auto simp: list_all_iff signed_make_audit_row)
  qed
qed

lemma accounts_save_block: "accounts user data (save_block ex env rep data t recid user posted)"
  unfolding accounts_def
proof (intro allI impI)
  fix k s n s' assume s: "inside k s" and "save_block ex env rep data t recid user posted s = (Inr n, s')"
  then obtain before u v where read: "(if recid \<noteq> 0 then read_row ex env t recid else db_return None) s = (Inr before, u)"
    and save: "table_save ex env t recid posted u = (Inr n, v)"
    and rest: "n = 0 \<and> s' = v \<or> n \<noteq> 0 \<and> (\<exists>i w r w' m. written_recid ex t recid posted v = (Inr i, w)
        \<and> read_row ex env t i w = (Inr (Some r), w')
        \<and> audit_record ex AUDIT [make_audit_row rep ''save'' data user (PInt i) before (Some r)] w' = (Inr m, s'))"
    by (auto simp: save_block_def db_bind_Inr_iff split: option.splits if_splits)
  have "block.silent k (if recid \<noteq> 0 then read_row ex env t recid else db_return None)" by auto
  from block.silentD [OF this s read] have u: "inside k u" "seen u = seen s" by simp_all
  from countedD [OF counted_table_save u(1) save] u(2) have v: "inside k v" "wrote s n v"
    by (simp_all add: wrote_def)
  show "\<exists>ws. seen s' = seen s @ ws \<and> audited user data ws"
  proof (cases "n = 0")
    case True
    with rest v show ?thesis using audit_none by auto
  next
    case False
    with rest obtain i x r x' m where written: "written_recid ex t recid posted v = (Inr i, x)"
      and after: "read_row ex env t i x = (Inr (Some r), x')"
      and a: "audit_record ex AUDIT [make_audit_row rep ''save'' data user (PInt i) before (Some r)] x' = (Inr m, s')"
      by blast
    from block.silentD [OF block.silent_written_recid v(1) written] have x: "inside k x" "seen x = seen v" by simp_all
    from block.silentD [OF block.silent_read_row x(1) after] x(2) have "inside k x'" "seen x' = seen v" by simp_all
    from audit_after [OF v(2) this(1) a this(2)] show ?thesis by (simp add: signed_make_audit_row)
  qed
qed

subsubsection \<open>Requests\<close>

text \<open>What a computation run for a user leaves in the journal, whether it returns or raises.\<close>

definition signed :: "user_context option \<Rightarrow> 's \<Rightarrow> 's \<Rightarrow> bool" where
  "signed user s s' \<longleftrightarrow> idle s' \<and>
     (\<exists>ws. journal s' = journal s @ ws
        \<and> (ws = [] \<or> (\<exists>u data. user = Some u \<and> data \<in> fst ` set TABLES \<and> audited u data ws)))"

definition signs :: "user_context option \<Rightarrow> ('s, 'a) db \<Rightarrow> bool" where
  "signs user m \<longleftrightarrow> (\<forall>s. idle s \<longrightarrow> signed user s (snd (m s)))"

lemma signed_same: "idle u \<Longrightarrow> journal u = journal s \<Longrightarrow> signed user s u"
  "journal u = journal s \<Longrightarrow> signed user u s' \<Longrightarrow> signed user s s'"
  "idle s' \<Longrightarrow> journal u = journal s' \<Longrightarrow> signed user s u \<Longrightarrow> signed user s s'"
  by (simp_all add: signed_def)

lemma quietD: "silent m \<Longrightarrow> idle s \<Longrightarrow> m s = (r, s') \<Longrightarrow> idle s' \<and> journal s' = journal s"
  by (simp add: silent_def)

lemma signs_quiet: "silent m \<Longrightarrow> signs user m"
  unfolding signs_def by (metis prod.collapse quietD signed_same(1))

lemma signs_bind: "silent m \<Longrightarrow> (\<And>x. signs user (f x)) \<Longrightarrow> signs user (db_bind m f)"
  by (auto simp: signs_def db_bind_def split: prod.split sum.split dest: quietD intro: signed_same)

lemma signs_then: "signs user m \<Longrightarrow> (\<And>x. silent (f x)) \<Longrightarrow> signs user (db_bind m f)"
  by (auto simp: signs_def db_bind_def split: prod.split sum.split)
     (metis prod.collapse quietD signed_def signed_same(3) snd_conv)+

lemma signs_require:
  "(\<And>u. user = Some u \<Longrightarrow> signs user (f u)) \<Longrightarrow> signs user (db_bind (db_lift (require_user user)) f)"
  by (cases user) (simp_all add: require_user_def signs_def db_bind_def signed_same(1))

lemma signs_tx:
  assumes "accounts u data block" and "\<And>k. block.safe k block"
    and "user = Some u" and "data \<in> fst ` set TABLES"
  shows "signs user (tx block)"
  unfolding signs_def
proof (intro allI impI)
  fix s assume s: "idle s"
  obtain r s' where run: "tx block s = (r, s')" by fastforce
  have keeps: "inside k t \<Longrightarrow> inside k (snd (block t))" for k t
    using assms(2) by (simp add: block.safe_def)
  have "idle s' \<and> (journal s' = journal s
      \<or> (\<exists>k t n u. inside k t \<and> seen t = journal s \<and> block t = (Inr n, u) \<and> journal s' = seen u))"
    by (rule tx_atomic [OF s keeps run])
  with assms show "signed user s (snd (tx block s))"
    unfolding run snd_conv signed_def accounts_def by (metis append_Nil2)
qed

lemma signs_table:
  assumes "\<And>t. accounts u data (block t)" and "\<And>t k. table_names_ok t \<Longrightarrow> block.safe k (block t)" and "user = Some u"
  shows "signs user (db_bind (db_lift (w2ui_table data)) (\<lambda>t. tx (block t)))"
proof (cases "w2ui_table data")
  case (Inl e)
  then show ?thesis by (simp add: signs_def db_bind_def signed_same(1))
next
  case (Inr t)
  then have "data \<in> fst ` set TABLES" by (force simp: w2ui_table_def split: option.splits dest: map_of_SomeD)
  with signs_tx [of u data "block t"] assms w2ui_table_ok [OF Inr] have "signs user (tx (block t))" by blast
  with Inr show ?thesis by (simp add: signs_def db_bind_def)
qed

lemma signs_delete_data: "user = Some u \<Longrightarrow> signs user (delete_data ex tx env rep data ids u)"
  unfolding delete_data_def by (rule signs_table [OF accounts_delete_block block.safe_delete_block])

lemma signs_save_data: "user = Some u \<Longrightarrow> signs user (save_data ex tx env rep data recid u posted)"
  unfolding save_data_def
  by (rule signs_bind [OF silent_return(3) signs_table [OF accounts_save_block block.safe_save_block]])

lemma signs_delete_records:
  assumes "ad_ex env = ex" and "ad_tx env = tx" shows "signs user (delete_records env q user)"
  unfolding delete_records_def Let_def assms
  by (rule signs_require, rule signs_bind [OF silent_return(3)], rule signs_then) (simp_all add: signs_delete_data)

lemma signs_save_record:
  assumes "ad_ex env = ex" and "ad_tx env = tx" shows "signs user (save_record env q user)"
  unfolding save_record_def Let_def assms
  by (rule signs_bind [OF silent_return(3)], rule signs_bind [OF silent_return(3)], rule signs_require,
      (rule signs_bind [OF silent_return(3)])+, rule signs_then) (simp_all add: signs_save_data)

lemma reply_errors_state: "snd (reply_errors m s) = snd (m s)"
  by (auto simp: reply_errors_def split: prod.split sum.split py_error.split)

lemma signs_reply_errors: "signs user m \<Longrightarrow> signs user (reply_errors m)"
  by (simp add: signs_def reply_errors_state)

lemma signs_admin_content:
  assumes "ad_ex env = ex" and "ad_tx env = tx" shows "signs user (admin_content env status query body user)"
proof -
  have "signs user m" if "admin_command env status q user = Some m" for q m
    using that signs_delete_records [OF assms] signs_save_record [OF assms] silent_reads [OF assms(1)]
    by (auto simp: admin_command_def intro: signs_quiet split: pyval.splits if_splits)
  then have "signs user (admin_reply env status q user)" for q
    by (auto simp: admin_reply_def intro: signs_reply_errors signs_quiet split: option.split)
  then show ?thesis unfolding admin_content_def by (intro signs_bind signs_then silent_return)
qed

lemma admin_route_signed:
  assumes "ad_ex env = ex" and "ad_tx env = tx" and "idle s" and "admin_route env status rq s = (r, s')"
  shows "idle s' \<and> (journal s' = journal s
    \<or> (\<exists>u s1. is_authorized env (rq_authorization rq) (rq_client_ip rq) s = (Inr (Some u), s1) \<and> signed (Some u) s s'))"
proof -
  obtain q s1 where a: "is_authorized env (rq_authorization rq) (rq_client_ip rq) s = (q, s1)" by fastforce
  from quietD [OF silent_authorized [OF assms(1)] assms(3) a] have j: "idle s1" "journal s1 = journal s" by simp_all
  show ?thesis
  proof (cases "\<exists>u. q = Inr (Some u)")
    case False
    with assms(4) have "s' = s1"
      by (cases q) (auto simp: admin_route_def a db_bind_def)
    with j show ?thesis by simp
  next
    case True
    then obtain u where q: "q = Inr (Some u)" by blast
    have content: "signs (Some u) (db_bind (admin_content env status (rq_query rq) (rq_body rq) (Some u)) (\<lambda>c. db_return (Content c b)))" for b
      by (intro signs_then signs_admin_content assms silent_return)
    have "signs (Some u) (if length (rq_dirs rq) = 2 \<and> rq_dirs rq ! 1 = ''w2ui'' then
            (if rq_command rq = ''GET'' \<or> rq_command rq = ''POST''
             then db_bind (admin_content env status (rq_query rq) (rq_body rq) (Some u))
                    (\<lambda>c. db_return (Content c (rq_command rq = ''GET'')))
             else db_return NotFound)
          else if rq_command rq = ''GET'' then db_return ServeGet
          else if rq_command rq = ''HEAD'' then db_return ServeHead
          else db_return NotFound)" (is "signs _ ?rest")
      by (simp add: content signs_quiet)
    moreover have "?rest s1 = (r, s')"
      using assms(4) unfolding admin_route_def db_bind_def a q prod.case sum.case by simp
    ultimately have "signed (Some u) s1 s'" using j(1) unfolding signs_def by (metis snd_conv)
    with j a q signed_same(2) show ?thesis by (auto simp: signed_def)
  qed
qed

end

subsection \<open>The user of the request\<close>

text \<open>The stored row \<open>r\<close> is that of the user the header names, and its hash accepts the header's password.\<close>

definition authenticated :: "'s admin_env \<Rightarrow> 's \<Rightarrow> string option \<Rightarrow> row \<Rightarrow> bool" where
  "authenticated env s header r \<longleftrightarrow>
     (\<exists>scheme base64 user password rows v.
         header = Some (scheme @ CHR '' '' # base64) \<and> str_lower scheme = ''basic''
         \<and> ad_basic env base64 = Inr (user @ CHR '':'' # password) \<and> CHR '':'' \<notin> set user
         \<and> fst (ex_select (ad_ex env) (fst (user_statement user)) (snd (user_statement user)) s) = Inr (r # rows)
         \<and> map_of r ''password'' = Some v \<and> str_of v \<noteq> []
         \<and> te_crypt (ad_table env) password (str_of v) = Inr (Some (str_of v)))"

lemma check_user_row:
  assumes "check_user ex env USERS user password s = (Inr (x # xs), s')"
  shows "\<exists>r rows v. fst (ex_select ex (fst (user_statement user)) (snd (user_statement user)) s) = Inr (r # rows)
    \<and> x = filter (\<lambda>(k, v). k \<noteq> ''password'') r \<and> map_of r ''password'' = Some v
    \<and> str_of v \<noteq> [] \<and> te_crypt env password (str_of v) = Inr (Some (str_of v))"
proof -
  obtain q s1 where sel: "ex_select ex (fst (user_statement user)) (snd (user_statement user)) s = (q, s1)" by fastforce
  with assms obtain rows where q: "q = Inr rows"
    by (cases q) (simp_all add: check_user_def user_statement_def db_bind_def)
  have c: "check_user ex env USERS user password s = (bind_result (case rows of [] \<Rightarrow> Inr (PStr []) | r # _ \<Rightarrow> row_item r ''password'')
             (\<lambda>stored. bind_result (verify_password (te_crypt env) (te_dummy env) password (str_of stored))
                (\<lambda>ok. Inr (if ok then [filter (\<lambda>(k, v). k \<noteq> ''password'') (hd rows)] else []))), s1)"
    using sel q by (simp add: check_user_def user_statement_def db_bind_def)
  then obtain stored where stored: "(case rows of [] \<Rightarrow> Inr (PStr []) | r # _ \<Rightarrow> row_item r ''password'') = Inr stored"
    and ok: "verify_password (te_crypt env) (te_dummy env) password (str_of stored) = Inr True"
    and x: "x = filter (\<lambda>(k, v). k \<noteq> ''password'') (hd rows)"
    using assms by (auto simp: bind_result_def split: sum.splits if_splits)
  note accepted = verify_password_accepts [OF ok]
  from accepted(1) stored obtain r rs where "rows = r # rs" by (cases rows) auto
  with stored x sel q accepted show ?thesis
    by (auto simp: row_item_def split: option.splits)
qed

lemma map_of_drop_key: "k \<noteq> p \<Longrightarrow> map_of (filter (\<lambda>(k, v). k \<noteq> p) r) k = map_of r k"
  by (induction r) auto

lemma authorized_row:
  assumes "is_authorized env header ip s = (Inr (Some u), s')"
  shows "\<exists>r v. authenticated env s header r \<and> map_of r ''user'' = Some v \<and> uc_user u = str_of v \<and> uc_client_ip u = ip"
proof -
  from assms obtain h where h: "header = Some h" by (cases header) (auto simp: is_authorized_def)
  obtain scheme user password where c: "parse_credentials (ad_basic env) h = Inr (scheme, user, password)"
    using assms by (auto simp: is_authorized_def h split: if_splits sum.splits)
  have basic: "str_lower scheme = ''basic''"
    using assms by (auto simp: is_authorized_def h c db_bind_def split: if_splits)
  obtain found s1 where found: "check_user (ad_ex env) (ad_table env) USERS user password s = (Inr found, s1)"
    and rest: "(case found of [] \<Rightarrow> db_return None
      | r # _ \<Rightarrow> db_bind (db_lift (row_context ip r)) (\<lambda>u. db_return (Some u))) s1 = (Inr (Some u), s')"
    using assms by (auto simp: is_authorized_def h c basic db_bind_Inr_iff [of "check_user _ _ _ _ _"] w2ui_check_user_def split: if_splits)
  then obtain x xs where x: "found = x # xs" by (cases found) simp_all
  from found rest have run: "check_user (ad_ex env) (ad_table env) USERS user password s = (Inr (x # xs), s1)"
    and u: "row_context ip x = Inr u" by (simp_all add: x db_bind_Inr_iff)
  from check_user_row [OF run] obtain r rows v where r:
    "fst (ex_select (ad_ex env) (fst (user_statement user)) (snd (user_statement user)) s) = Inr (r # rows)"
    "x = filter (\<lambda>(k, v). k \<noteq> ''password'') r" "map_of r ''password'' = Some v"
    "str_of v \<noteq> []" "te_crypt (ad_table env) password (str_of v) = Inr (Some (str_of v))" by blast
  have "authenticated env s header r"
    unfolding authenticated_def using parse_credentials_InrD [OF c] h basic r by blast
  moreover from u r(2) obtain w where "map_of r ''user'' = Some w" "uc_user u = str_of w" "uc_client_ip u = ip"
    by (auto simp: row_context_def row_item_def bind_result_Inr_iff map_of_drop_key split: option.splits)
  ultimately show ?thesis by blast
qed

text \<open>
  What a request with this header, from this address, may have written: no row has changed, or the last write
  is the audit insert, with one signed row or more, of the user whose credentials the header has.
\<close>

definition accounted :: "'s admin_env \<Rightarrow> string \<Rightarrow> string option \<Rightarrow> 's \<Rightarrow> journal \<Rightarrow> bool" where
  "accounted env ip header s ws \<longleftrightarrow>
     (\<forall>w \<in> set ws. snd w = 0)
     \<or> (\<exists>r v user data vs rows n.
          authenticated env s header r \<and> map_of r ''user'' = Some v
          \<and> uc_user user = str_of v \<and> uc_client_ip user = ip \<and> data \<in> fst ` set TABLES
          \<and> ws = vs @ [(audit_statement rows, n)] \<and> rows \<noteq> [] \<and> list_all (signed_by user data) rows)"

lemma admin_route_accounted:
  assumes "journaled (ad_ex env) journal idle inside seen (ad_tx env)" and "idle s" and "admin_route env status rq s = (r, s')"
  shows "idle s' \<and> (\<exists>ws. journal s' = journal s @ ws \<and> accounted env (rq_client_ip rq) (rq_authorization rq) s ws)"
proof -
  from journaled.admin_route_signed [OF assms(1) refl refl assms(2,3)] have idle: "idle s'" by blast
  from journaled.admin_route_signed [OF assms(1) refl refl assms(2,3)] consider "journal s' = journal s"
    | u s1 where "is_authorized env (rq_authorization rq) (rq_client_ip rq) s = (Inr (Some u), s1)"
        "journaled.signed journal idle (Some u) s s'" by blast
  then have "\<exists>ws. journal s' = journal s @ ws \<and> accounted env (rq_client_ip rq) (rq_authorization rq) s ws"
  proof cases
    case 1
    then show ?thesis by (intro exI [of _ "[]"]) (simp add: accounted_def)
  next
    case 2
    from authorized_row [OF 2(1)] obtain row v where "authenticated env s (rq_authorization rq) row"
      "map_of row ''user'' = Some v" "uc_user u = str_of v" "uc_client_ip u = rq_client_ip rq" by blast
    moreover from 2(2) obtain ws where "journal s' = journal s @ ws"
      "ws = [] \<or> (\<exists>data. data \<in> fst ` set TABLES \<and> audited u data ws)"
      by (auto simp: journaled.signed_def [OF assms(1)])
    ultimately show ?thesis unfolding audited_def accounted_def
      by (intro exI [of _ ws] conjI) (assumption, fastforce)
  qed
  with idle show ?thesis by blast
qed

end
