(* ===== verification/Mysql_Journal.thy ===== *)
theory Mysql_Journal
  imports Admin_Audit
begin

section \<open>The database as a journal\<close>

text \<open>
  The contracts \<open>reader\<close> and \<open>journaled\<close> of \<open>Admin_Audit\<close> for the model of \<open>database.py\<close>: \<open>journaling\<close> says what its
  driver promises of the writes. Queries outside a transaction publish nothing, whatever fails and however often the
  connection is replaced; a transaction publishes what its block has written, or nothing, and leaves nothing pending.
\<close>

subsection \<open>What the driver promises of the writes\<close>

text \<open>
  A transactional driver whose server keeps its writes, each with its row count. A session goes on, with its pending
  writes, or is lost, with what is published; a call that returns has not lost it. A query writes nothing, and any other
  statement that returns has appended itself to the session of its cursor.
\<close>

locale journaling = transactional d committed pending auto conn_of
  for d :: "'w driver" and committed :: "'w \<Rightarrow> journal" and pending :: "'w \<Rightarrow> nat \<Rightarrow> journal"
    and auto :: "'w \<Rightarrow> nat \<Rightarrow> bool" and conn_of :: "nat \<Rightarrow> nat" +
  assumes ping_session: "pending (snd (dr_is_connected d c w)) c \<in> {pending w c, committed w}"
    and close_session: "pending (snd (dr_close d c w)) c \<in> {pending w c, committed w}"
    and connect_session: "dr_connect d w = (Inr c, w') \<Longrightarrow> pending w' c = committed w"
      "dr_connect d w = (Inl e, w') \<Longrightarrow> pending w' c \<in> {pending w c, committed w}"
    and cursor_session: "pending (snd (dr_cursor d c w)) c \<in> {pending w c, committed w}"
      "dr_cursor d c w = (Inr k, w') \<Longrightarrow> pending w' c = pending w c"
    and close_cursor_session: "pending (snd (dr_close_cursor d k w)) c \<in> {pending w c, committed w}"
      "dr_close_cursor d k w = (Inr (), w') \<Longrightarrow> pending w' c = pending w c"
    and query: "reads sql \<Longrightarrow> committed (snd (dr_execute d k sql ps w)) \<in> {committed w, pending w (conn_of k)}"
      "reads sql \<Longrightarrow> pending (snd (dr_execute d k sql ps w)) (conn_of k) \<in> {pending w (conn_of k), committed w}"
      "reads sql \<Longrightarrow> dr_execute d k sql ps w = (Inr res, w') \<Longrightarrow> pending w' (conn_of k) = pending w (conn_of k)"
    and modification: "\<not> reads sql \<Longrightarrow> \<not> auto w (conn_of k) \<Longrightarrow> dr_execute d k sql ps w = (Inr res, w') \<Longrightarrow>
      pending w' (conn_of k) = pending w (conn_of k) @ [((sql, ps), cr_rowcount res)] \<and> 0 \<le> cr_rowcount res"
    and autocommit_session: "pending (snd (dr_autocommit d c b w)) c \<in> {pending w c, committed (snd (dr_autocommit d c b w))}"
begin

definition published :: "'w mysql \<Rightarrow> journal" where
  "published s = committed (my_world s)"

definition session_sees :: "'w mysql \<Rightarrow> journal" where
  "session_sees s = pending (my_world s) (my_conn s)"

text \<open>Outside a transaction nothing is pending.\<close>

definition at_rest :: "'w mysql \<Rightarrow> bool" where
  "at_rest s \<longleftrightarrow> \<not> my_in_tx s \<and> session_sees s = published s"

lemma init_at_rest: "mysql_init d w = (Inr s, w') \<Longrightarrow> at_rest s \<and> published s = committed w"
  using connect_session(1) [of w] reconnecting(1) [of w]
  by (auto simp: mysql_init_def at_rest_def published_def session_sees_def split: prod.splits sum.splits)

subsection \<open>Queries outside a transaction\<close>

definition restful :: "('w mysql, 'a) db \<Rightarrow> bool" where
  "restful m \<longleftrightarrow> (\<forall>s. at_rest s \<longrightarrow> at_rest (snd (m s)) \<and> published (snd (m s)) = published s)"

lemma restfulD: "restful m \<Longrightarrow> at_rest s \<Longrightarrow> m s = (r, s') \<Longrightarrow> at_rest s' \<and> published s' = published s"
  unfolding restful_def by (metis snd_conv)

lemma restful_iff:
  "restful m \<longleftrightarrow> (\<forall>s r s'. at_rest s \<longrightarrow> m s = (r, s') \<longrightarrow> at_rest s' \<and> published s' = published s)"
  unfolding restful_def by (metis prod.collapse snd_conv)

lemma restful_pure [simp]: "restful (db_return x)" "restful (db_raise e)" "restful (db_gets f)"
  "restful (db_update (\<lambda>s. s\<lparr>my_last_id := i\<rparr>))"
  by (simp_all add: restful_def db_gets_def db_update_def at_rest_def published_def session_sees_def)

lemma restful_bind:
  assumes "restful m" and "\<And>x. restful (f x)" shows "restful (db_bind m f)"
  unfolding restful_iff
proof (intro allI impI)
  fix s r s' assume s: "at_rest s" and run: "db_bind m f s = (r, s')"
  obtain q u where q: "m s = (q, u)" by fastforce
  from restfulD [OF assms(1) s q] have u: "at_rest u" "published u = published s" by simp_all
  show "at_rest s' \<and> published s' = published s"
    using run restfulD [OF assms(2) u(1)] u by (cases q) (auto simp: db_bind_def q)
qed

lemma restful_suppress: "restful m \<Longrightarrow> restful (db_suppress p m)"
proof -
  have "snd (db_suppress p m s) = snd (m s)" for s by (simp add: db_suppress_def split: prod.split sum.split)
  then show "restful m \<Longrightarrow> ?thesis" by (simp add: restful_def)
qed

lemma restful_catch:
  assumes "restful m" and "\<And>e. restful (h e)" shows "restful (db_catch p m h)"
  unfolding restful_iff
proof (intro allI impI)
  fix s r s' assume s: "at_rest s" and run: "db_catch p m h s = (r, s')"
  obtain q u where q: "m s = (q, u)" by fastforce
  from restfulD [OF assms(1) s q] have u: "at_rest u" "published u = published s" by simp_all
  show "at_rest s' \<and> published s' = published s"
    using run restfulD [OF assms(2) u(1)] u by (cases q) (auto simp: db_catch_def q split: if_splits)
qed

lemma restful_finally:
  assumes "restful m" and "restful n" shows "restful (db_finally m n)"
  unfolding restful_iff
proof (intro allI impI)
  fix s r s' assume s: "at_rest s" and run: "db_finally m n s = (r, s')"
  obtain q u where q: "m s = (q, u)" by fastforce
  obtain p v where p: "n u = (p, v)" by fastforce
  from restfulD [OF assms(1) s q] have u: "at_rest u" "published u = published s" by simp_all
  from restfulD [OF assms(2) u(1) p] u run show "at_rest s' \<and> published s' = published s"
    by (cases p) (auto simp: db_finally_def q p)
qed

lemma restful_if: "restful m \<Longrightarrow> restful n \<Longrightarrow> restful (if b then m else n)"
  by simp

lemmas restful_intros = restful_pure restful_bind restful_suppress restful_catch restful_finally restful_if

lemma restful_world:
  assumes "\<And>w c. pending w c = committed w \<Longrightarrow> committed (snd (m w)) = committed w \<and> pending (snd (m w)) c = committed w"
  shows "restful (on_world m)"
  unfolding restful_def
proof (intro allI impI)
  fix s :: "'w mysql" assume "at_rest s"
  then show "at_rest (snd (on_world m s)) \<and> published (snd (on_world m s)) = published s"
    using assms [of "my_world s" "my_conn s"]
    by (cases "m (my_world s)") (simp add: on_world_def at_rest_def published_def session_sees_def)
qed

lemma restful_conn:
  assumes "\<And>w c. pending w c = committed w \<Longrightarrow> committed (snd (m c w)) = committed w \<and> pending (snd (m c w)) c = committed w"
  shows "restful (on_conn m)"
  unfolding restful_def
proof (intro allI impI)
  fix s :: "'w mysql" assume "at_rest s"
  then show "at_rest (snd (on_conn m s)) \<and> published (snd (on_conn m s)) = published s"
    using assms [of "my_world s" "my_conn s"]
    by (cases "m (my_conn s) (my_world s)") (simp add: on_conn_def on_world_def at_rest_def published_def session_sees_def)
qed

lemma restful_calls:
  "restful (on_conn (dr_is_connected d))" "restful (on_conn (dr_close d))" "restful (on_conn (dr_cursor d))"
  "restful (on_conn (\<lambda>c. dr_autocommit d c False))" "restful (on_world (dr_close_cursor d k))"
proof -
  show "restful (on_conn (dr_is_connected d))"
    by (rule restful_conn) (use is_connected ping_session in force)
  show "restful (on_conn (dr_close d))"
    by (rule restful_conn) (use reconnecting(2) close_session in force)
  show "restful (on_conn (dr_cursor d))"
    by (rule restful_conn) (use cursor(1) cursor_session(1) in force)
  show "restful (on_conn (\<lambda>c. dr_autocommit d c False))"
    by (rule restful_conn) (use autocommit_off(1) autocommit_session [of _ False] in force)
  show "restful (on_world (dr_close_cursor d k))"
    by (rule restful_world) (use close_cursor(1) close_cursor_session(1) in force)
qed

lemma restful_reconnect: "restful (mysql_reconnect d)"
proof -
  have "restful (db_bind (on_world (dr_connect d)) (\<lambda>c. db_update (\<lambda>s. s\<lparr>my_conn := c\<rparr>)))"
    unfolding restful_def
  proof (intro allI impI)
    fix s :: "'w mysql" assume s: "at_rest s"
    obtain q w where q: "dr_connect d (my_world s) = (q, w)" by fastforce
    have c: "committed w = committed (my_world s)" using reconnecting(1) [of "my_world s"] q by simp
    show "at_rest (snd (db_bind (on_world (dr_connect d)) (\<lambda>c. db_update (\<lambda>s. s\<lparr>my_conn := c\<rparr>)) s))
      \<and> published (snd (db_bind (on_world (dr_connect d)) (\<lambda>c. db_update (\<lambda>s. s\<lparr>my_conn := c\<rparr>)) s)) = published s"
      using s c q connect_session(1) [of "my_world s" _ w] connect_session(2) [of "my_world s" _ w "my_conn s"]
      by (cases q) (auto simp: db_bind_def on_world_def db_update_def at_rest_def published_def session_sees_def)
  qed
  then show ?thesis
    unfolding mysql_reconnect_def by (intro restful_bind [OF restful_suppress] restful_calls)
qed

lemma restful_open_cursor: "restful (open_cursor d)"
  unfolding open_cursor_def by (intro restful_intros restful_calls restful_reconnect)

lemma open_cursor_conn: "open_cursor d s = (Inr k, u) \<Longrightarrow> conn_of k = my_conn u"
  by (auto simp: open_cursor_def db_catch_def on_conn_def on_world_def db_bind_def dest: cursor(3)
      split: prod.splits sum.splits if_splits)

text \<open>A query on the session at rest.\<close>

definition own_query :: "nat \<Rightarrow> string \<Rightarrow> sql_param list \<Rightarrow> ('w mysql, cursor_result) db" where
  "own_query k sql ps =
     (\<lambda>s. if conn_of k = my_conn s then on_world (dr_execute d k sql ps) s else db_raise mysql_error s)"

lemma restful_own_query: "reads sql \<Longrightarrow> restful (own_query k sql ps)"
  unfolding restful_def
proof (intro allI impI)
  fix s :: "'w mysql" assume "reads sql" "at_rest s"
  then show "at_rest (snd (own_query k sql ps s)) \<and> published (snd (own_query k sql ps s)) = published s"
    using query(1,2) [of sql k ps "my_world s"]
    by (cases "dr_execute d k sql ps (my_world s)")
       (auto simp: own_query_def on_world_def at_rest_def published_def session_sees_def)
qed

lemma db_finally_cong: "m s = m' s \<Longrightarrow> db_finally (db_bind m f) n s = db_finally (db_bind m' f) n s"
  by (simp add: db_finally_def db_bind_def)

lemma restful_with_cursor:
  assumes "reads sql" and "\<And>res. restful (block res)"
  shows "restful (with_cursor d sql ps block)"
proof -
  let ?use = "\<lambda>run k. db_finally
          (db_bind (run k (join_operation sql) (unwrap_params ps))
             (\<lambda>res. db_bind (db_update (\<lambda>s. s\<lparr>my_last_id := (case cr_lastrowid res of None \<Rightarrow> 0 | Some i \<Rightarrow> i)\<rparr>))
                (\<lambda>_. block res)))
          (on_world (dr_close_cursor d k))"
  let ?own = "db_bind (open_cursor d) (?use own_query)"
  have "?use (\<lambda>k sql ps. on_world (dr_execute d k sql ps)) k u = ?use own_query k u" if "conn_of k = my_conn u" for k u
    by (rule db_finally_cong) (simp add: own_query_def that)
  then have "with_cursor d sql ps block s = ?own s" for s
    by (cases "open_cursor d s"; cases "fst (open_cursor d s)")
       (auto simp: with_cursor_def db_bind_def [of "open_cursor d"] dest!: open_cursor_conn)
  then have "with_cursor d sql ps block = ?own" by (rule ext)
  moreover have "restful ?own"
    using assms by (intro restful_intros restful_open_cursor restful_own_query restful_calls) simp_all
  ultimately show ?thesis by simp
qed

lemma restful_select: "reads sql \<Longrightarrow> restful (mysql_select d sql ps)"
  unfolding mysql_select_def by (rule restful_with_cursor) (simp_all split: option.split)

subsection \<open>Statements of a transaction\<close>

text \<open>A statement that returns inside a transaction has run on the session it found.\<close>

lemma open_cursor_returns:
  assumes "in_block c D s" and "open_cursor d s = (Inr k, s')"
  shows "conn_of k = c" and "in_block c D s'" and "session_sees s' = session_sees s"
proof -
  obtain q w where q: "dr_cursor d c (my_world s) = (q, w)" by fastforce
  with assms have r: "q = Inr k" and s': "s' = s\<lparr>my_world := w\<rparr>"
    by (cases q; auto simp: in_block_def open_cursor_def db_catch_def on_conn_def on_world_def db_bind_def db_gets_def
          split: if_splits)+
  show "conn_of k = c" "in_block c D s'" "session_sees s' = session_sees s"
    using open_cursor_block [OF assms(1)] assms(2) cursor_session(2) [OF q [unfolded r]] assms(1)
    by (simp_all add: s' session_sees_def in_block_def)
qed

lemma with_cursor_returns:
  assumes "in_block c D s" and "with_cursor d sql ps block s = (Inr x, s')" and "\<And>res u. snd (block res u) = u"
  obtains k u res w where "conn_of k = c" and "in_block c D u" and "session_sees u = session_sees s"
    and "dr_execute d k (join_operation sql) (unwrap_params ps) (my_world u) = (Inr res, w)"
    and "fst (block res (u\<lparr>my_world := w, my_last_id := (case cr_lastrowid res of None \<Rightarrow> 0 | Some i \<Rightarrow> i)\<rparr>)) = Inr x"
    and "session_sees s' = pending w c"
proof -
  from assms(2) obtain k u where k: "open_cursor d s = (Inr k, u)" by (auto simp: with_cursor_def db_bind_Inr_iff)
  note u = open_cursor_returns [OF assms(1) k]
  obtain q w where q: "dr_execute d k (join_operation sql) (unwrap_params ps) (my_world u) = (q, w)" by fastforce
  obtain p v where p: "dr_close_cursor d k w = (p, v)" by fastforce
  have close: "\<And>c. p = Inr () \<Longrightarrow> pending v c = pending w c" using close_cursor_session(2) p by simp
  note defs = with_cursor_def db_bind_def on_world_def db_finally_def db_update_def
  from assms(2) obtain res where res: "q = Inr res"
    by (cases q; cases p) (auto simp: defs k q p)
  let ?t = "u\<lparr>my_world := w, my_last_id := (case cr_lastrowid res of None \<Rightarrow> 0 | Some i \<Rightarrow> i)\<rparr>"
  obtain b where b: "block res ?t = (b, ?t)" using assms(3) [of res ?t] by (cases "block res ?t") simp
  from assms(2) have "p = Inr () \<and> b = Inr x \<and> s' = ?t\<lparr>my_world := v\<rparr>"
    by (cases p) (auto simp: defs k q p res b)
  then show thesis using that [OF u(1,2,3) q [unfolded res]] b close u(2) by (simp add: session_sees_def in_block_def)
qed

lemma select_returns:
  assumes "in_block c D s" and "reads sql" and "mysql_select d sql ps s = (Inr x, s')"
  shows "session_sees s' = session_sees s"
proof -
  from assms(1) assms(3) [unfolded mysql_select_def] show ?thesis
  proof (rule with_cursor_returns)
    fix k u res w assume "conn_of k = c" "in_block c D u" "session_sees u = session_sees s" "session_sees s' = pending w c"
      and "dr_execute d k (join_operation sql) (unwrap_params ps) (my_world u) = (Inr res, w)"
    then show ?thesis
      using query(3) [of "join_operation sql" k "unwrap_params ps" "my_world u" res w] assms(2)
      by (auto simp: session_sees_def in_block_def)
  qed (simp split: option.split)
qed

lemma modify_returns:
  assumes "in_block c D s" and "\<not> reads sql" and "mysql_modify d sql ps s = (Inr n, s')"
  shows "session_sees s' = session_sees s @ [(sent (sql, ps), n)] \<and> 0 \<le> n"
proof -
  from assms(1) assms(3) [unfolded mysql_modify_def] show ?thesis
  proof (rule with_cursor_returns)
    fix k u res w assume "conn_of k = c" "in_block c D u" "session_sees u = session_sees s"
      "dr_execute d k (join_operation sql) (unwrap_params ps) (my_world u) = (Inr res, w)"
      "fst (db_return (cr_rowcount res) (u\<lparr>my_world := w, my_last_id := (case cr_lastrowid res of None \<Rightarrow> 0 | Some i \<Rightarrow> i)\<rparr>)) = Inr n"
      "session_sees s' = pending w c"
    then show ?thesis
      using modification [of "join_operation sql" "my_world u" k "unwrap_params ps" res w] assms(2)
      by (auto simp: session_sees_def in_block_def sent_def)
  qed simp
qed

subsection \<open>The end of a transaction\<close>

text \<open>However a transaction ends, nothing is left pending.\<close>

lemma commit_settles:
  assumes "db_catch (\<lambda>_. True) (db_bind block (\<lambda>x. db_bind (on_conn (dr_commit d)) (\<lambda>_. db_return x)))
      (\<lambda>e. db_bind (db_suppress (\<lambda>_. True) (on_conn (dr_rollback d))) (\<lambda>_. db_raise e)) t = (r, v)"
    and "\<And>x. my_conn (snd (block t)) = my_conn t"
  shows "my_conn v = my_conn t \<and> session_sees v = published v"
proof -
  obtain q u where b: "block t = (q, u)" by fastforce
  have u: "my_conn u = my_conn t" using assms(2) b by simp
  have settled: "my_conn (snd (db_bind (db_suppress (\<lambda>_. True) (on_conn (dr_rollback d))) (\<lambda>_. db_raise e) w)) = my_conn w
      \<and> session_sees (snd (db_bind (db_suppress (\<lambda>_. True) (on_conn (dr_rollback d))) (\<lambda>_. db_raise e) w))
        = published (snd (db_bind (db_suppress (\<lambda>_. True) (on_conn (dr_rollback d))) (\<lambda>_. db_raise e) w))" for w e
    using rollback [of "my_conn w" "my_world w"]
    by (auto simp: db_bind_def db_suppress_def on_conn_def on_world_def session_sees_def published_def split: prod.split sum.split)
  obtain q1 w1 where com: "dr_commit d (my_conn u) (my_world u) = (q1, w1)" by fastforce
  show ?thesis
  proof (cases "\<exists>x. q = Inr x \<and> q1 = Inr ()")
    case True
    then show ?thesis
      using assms(1) b com u commit(1) [of "my_conn u" "my_world u" w1]
      by (auto simp: db_catch_def db_bind_def on_conn_def on_world_def session_sees_def published_def)
  next
    case False
    then obtain e w where "db_bind (db_suppress (\<lambda>_. True) (on_conn (dr_rollback d))) (\<lambda>_. db_raise e) w = (r, v)"
      and "my_conn w = my_conn t"
      using assms(1) b com u by (cases q; cases q1) (auto simp: db_catch_def db_bind_def on_conn_def on_world_def)
    with settled [of e w] show ?thesis by (metis snd_conv)
  qed
qed

lemma protected_block_settles:
  assumes "protected_block d block t = (r, s')" and "my_conn (snd (block t)) = my_conn t"
  shows "session_sees s' = published s'"
proof -
  obtain q v where v: "db_catch (\<lambda>_. True) (db_bind block (\<lambda>x. db_bind (on_conn (dr_commit d)) (\<lambda>_. db_return x)))
      (\<lambda>e. db_bind (db_suppress (\<lambda>_. True) (on_conn (dr_rollback d))) (\<lambda>_. db_raise e)) t = (q, v)" by fastforce
  obtain p w where w: "dr_autocommit d (my_conn v) True (my_world v) = (p, w)" by fastforce
  from assms(1) v w have "s' = v\<lparr>my_in_tx := False, my_world := w\<rparr>"
    by (cases p) (auto simp: protected_block_def db_finally_def db_bind_def db_update_def on_conn_def on_world_def)
  moreover have "session_sees v = published v" using commit_settles [OF v assms(2)] by simp
  ultimately show ?thesis
    using autocommit_on [of "my_conn v" "my_world v", unfolded w]
      autocommit_session [of "my_conn v" True "my_world v", unfolded w]
    by (auto simp: session_sees_def published_def)
qed

lemma transaction_rests:
  assumes s: "at_rest s" and keeps: "\<And>c D t. in_block c D t \<Longrightarrow> in_block c D (snd (block t))"
    and run: "mysql_transaction d block s = (r, s')"
  shows "at_rest s' \<and> (published s' = published s
    \<or> (\<exists>c D t n u. in_block c D t \<and> session_sees t = published s \<and> block t = (Inr n, u) \<and> published s' = session_sees u))"
proof -
  let ?start = "db_bind (on_conn (dr_is_connected d)) (\<lambda>connected. db_bind (if connected then db_return () else mysql_reconnect d)
     (\<lambda>_. on_conn (\<lambda>c. dr_autocommit d c False)))"
  obtain q v where v: "?start s = (q, v)" by fastforce
  have "restful ?start" by (intro restful_intros restful_calls restful_reconnect)
  from restfulD [OF this s v] have v_rest: "at_rest v" "published v = published s" by simp_all
  have split: "mysql_transaction d block s = (case ?start s of (Inl e, v) \<Rightarrow> (Inl e, v)
     | (Inr _, v) \<Rightarrow> protected_block d block (v\<lparr>my_in_tx := True\<rparr>))"
    by (auto simp: mysql_transaction_def db_bind_def db_update_def split: prod.split sum.split)
  show ?thesis
  proof (cases q)
    case (Inl e)
    with run split v v_rest show ?thesis by simp
  next
    case (Inr x)
    let ?t = "v\<lparr>my_in_tx := True\<rparr>"
    from v Inr obtain u where "on_conn (\<lambda>c. dr_autocommit d c False) u = (Inr x, v)"
      by (auto simp: db_bind_Inr_iff)
    then obtain w where "dr_autocommit d (my_conn u) False (my_world u) = (Inr (), w)" "v = u\<lparr>my_world := w\<rparr>"
      by (auto simp: on_conn_def on_world_def split: prod.splits)
    then have "\<not> auto (my_world v) (my_conn v)" using autocommit_off(2) by simp
    with v_rest have t: "in_block (my_conn v) (published s) ?t" "session_sees ?t = published s"
      by (simp_all add: in_block_def at_rest_def session_sees_def published_def)
    from run split v Inr have p: "protected_block d block ?t = (r, s')" by simp
    note ends = committed_block [OF t(1) keeps p]
    have conn: "my_conn (snd (block ?t)) = my_conn ?t" using keeps [OF t(1)] by (simp add: in_block_def)
    have "at_rest s'" using ends(1) protected_block_settles [OF p conn] by (simp add: at_rest_def)
    moreover have "published s' = published s \<or> (\<exists>n u. block ?t = (Inr n, u) \<and> published s' = session_sees u)"
      using ends(2) conn by (auto simp: published_def session_sees_def)
    ultimately show ?thesis using t by blast
  qed
qed

end

text \<open>The model of \<open>database.py\<close> over such a driver is a journaled database.\<close>

sublocale journaling \<subseteq> mysql: journaled "mysql_executor d" published at_rest "\<lambda>(c, D). in_block c D" session_sees "mysql_transaction d"
proof unfold_locales
  show "at_rest s \<Longrightarrow> reads sql \<Longrightarrow> ex_select (mysql_executor d) sql ps s = (r, s')
      \<Longrightarrow> at_rest s' \<and> (published s' = published s \<or> False \<and> (\<exists>e. r = Inl e))" for s sql ps r s'
    using restfulD [OF restful_select] by (simp add: mysql_executor_def)
  show "at_rest s' \<and> (published s' = published s
      \<or> (\<exists>k t n u. (case k of (c, D) \<Rightarrow> in_block c D) t \<and> session_sees t = published s \<and> block t = (Inr n, u)
           \<and> published s' = session_sees u))"
    if "at_rest s" and "\<And>k t. (case k of (c, D) \<Rightarrow> in_block c D) t \<Longrightarrow> (case k of (c, D) \<Rightarrow> in_block c D) (snd (block t))"
      and "mysql_transaction d block s = (r, s')" for s block r s'
    using transaction_rests [OF that(1) _ that(3)] that(2) by auto
qed (auto simp: mysql_executor_def select_block modify_block dest: select_returns modify_returns split: prod.splits)

context journaling
begin

text \<open>The facts by which the ports use the interpretation, over the driver's own functions.\<close>

lemma at_rest_iff: "at_rest s \<longleftrightarrow> \<not> my_in_tx s \<and> pending (my_world s) (my_conn s) = committed (my_world s)"
  by (simp add: at_rest_def session_sees_def published_def)

lemma mysql_contracts:
  "reader (mysql_executor d) published at_rest False"
  "journaled (mysql_executor d) published at_rest (\<lambda>(c, D). in_block c D) session_sees (mysql_transaction d)"
  by (fact mysql.reader_axioms mysql.journaled_axioms)+

end

subsection \<open>A server of that kind\<close>

text \<open>The writes among the statements that \<open>sim_driver\<close> keeps; \<open>answering\<close> is its reply to a statement.\<close>

definition answering :: "(string \<Rightarrow> string list \<times> pyval list list) \<Rightarrow> (string \<Rightarrow> nat) \<Rightarrow> string \<Rightarrow> cursor_result" where
  "answering rows cnt sql =
     \<lparr>cr_lastrowid = Some 7, cr_rowcount = int (cnt sql), cr_description = Some (fst (rows sql)), cr_rows = snd (rows sql)\<rparr>"

definition sim_journal :: "(string \<Rightarrow> cursor_result) \<Rightarrow> statement list \<Rightarrow> journal" where
  "sim_journal reply sts = map (\<lambda>st. (st, cr_rowcount (reply (fst st)))) (filter (\<lambda>st. \<not> reads (fst st)) sts)"

lemma sim_journal_append [simp]:
  "sim_journal reply [] = []"
  "sim_journal reply (sts @ [(sql, ps)]) =
     sim_journal reply sts @ (if reads sql then [] else [((sql, ps), cr_rowcount (reply sql))])"
  by (simp_all add: sim_journal_def)

interpretation journaled_sim: journaling "sim_driver (answering rows cnt)" "\<lambda>w. sim_journal (answering rows cnt) (sim_data w)"
  "\<lambda>w c. sim_journal (answering rows cnt) (sim_session w)" "\<lambda>w c. sim_auto w" "\<lambda>k. k" for rows cnt
  by unfold_locales (auto simp: sim_driver_def sim_call_def Let_def answering_def split: if_splits)

end
