(* ===== verification/Http_Connection_Properties.thy ===== *)
theory Http_Connection_Properties
  imports Http_Connection
begin

section \<open>What holds of a connection\<close>

text \<open>
  A connection ends, and it is the sequence of the messages its client frames: bytes of one request are never
  read as another's.
\<close>

subsection \<open>Bytes are consumed\<close>

lemma read_line_split: "read_line limit stream = (line, rest) \<Longrightarrow> stream = line @ rest"
  by (auto simp: read_line_def Let_def)

lemma read_line_empty: "read_line (Suc n) stream = ([], rest) \<Longrightarrow> stream = []"
  by (auto simp: read_line_def Let_def)

lemma read_header_lines_length:
  "read_header_lines k stream = Some (lines, rest) \<Longrightarrow> length rest \<le> length stream"
proof (induction k arbitrary: stream lines)
  case (Suc k)
  obtain line rest' where l: "read_line (Suc max_line) stream = (line, rest')" by fastforce
  with Suc.prems read_line_split [OF l] show ?case
    by (auto split: if_splits dest: Suc.IH)
qed simp

lemma do_post_length: "length (snd (do_post role path header stream)) \<le> length stream"
  by (auto simp: do_post_def read_request_body_def split: sum.split py_error.split prod.split)

lemma call_method_length: "length (snd (call_method port h stream)) \<le> length stream"
  by (simp add: call_method_def do_get_or_head_def do_post_length)

lemma one_request_consumes:
  assumes "one_request port stream s = (xs, Served False, rest, s')"
  shows "length rest < length stream"
proof -
  obtain line tail where line: "read_line (Suc max_line) stream = (line, tail)" by fastforce
  with assms obtain h body where parsed: "parse_request port line tail = Some (h, body)"
    and rest: "rest = snd (call_method port h body)" and ne: "line \<noteq> []"
    by (auto simp: one_request_def Let_def split: if_splits option.splits prod.splits)
  have "length body \<le> length tail"
    using parsed by (auto simp: parse_request_def split: option.splits dest: read_header_lines_length)
  with call_method_length [of port h body] read_line_split [OF line] ne show ?thesis
    by (simp add: rest) (metis (no_types) le_less_trans length_greater_0_conv less_add_same_cancel2 order_trans)
qed

lemma one_request_exchanges: "length (fst (one_request port stream s)) \<le> min 1 (length stream)"
proof (cases stream)
  case Nil
  then show ?thesis by (simp add: one_request_def read_line_def max_line_def)
next
  case (Cons b bs)
  then show ?thesis by (auto simp: one_request_def Let_def split: option.split prod.split)
qed

lemma serve_connection_returns:
  "\<exists>xs oc s'. serve_connection port stream s = Some (xs, oc, s') \<and> length xs \<le> length stream"
proof (induction "length stream" arbitrary: stream s rule: less_induct)
  case less
  obtain xs r rest s' where one: "one_request port stream s = (xs, r, rest, s')" by (metis prod_cases4)
  have len: "length xs \<le> min 1 (length stream)" using one_request_exchanges [of port stream s] one by simp
  show ?case
  proof (cases "r = Served False")
    case True
    from one_request_consumes [OF one [unfolded True]] have less': "length rest < length stream" .
    with less.hyps obtain ys oc s'' where "serve_connection port rest s' = Some (ys, oc, s'')" "length ys \<le> length rest"
      by blast
    with one True len less' show ?thesis by (subst serve_connection.simps) simp
  next
    case False
    with one len show ?thesis by (subst serve_connection.simps) (auto split: round.split)
  qed
qed

text \<open>
  C17: serving a connection ends, whatever the client sends and whatever the port answers: the loop returns, with
  the database state and an outcome, after at most one exchange for each byte received.
\<close>

theorem connection_ends:
  "\<exists>xs oc s'. handle_bytes port opened stream s = Some (xs, oc, s') \<and> length xs \<le> length stream"
  using serve_connection_returns by (cases opened) (simp_all add: handle_bytes_def)

subsection \<open>Framing\<close>

text \<open>A message as its sender frames it: the lines of its head, the line that ends it, and the body it announces.\<close>

record message =
  ms_line :: "nat list"
  ms_lines :: "nat list list"
  ms_end :: "nat list"
  ms_body :: "nat list"

definition wire :: "message \<Rightarrow> nat list" where
  "wire m = ms_line m @ concat (ms_lines m) @ ms_end m @ ms_body m"

definition complete_line :: "nat list \<Rightarrow> bool" where
  "complete_line l \<longleftrightarrow> l \<noteq> [] \<and> last l = 10 \<and> 10 \<notin> set (butlast l) \<and> length l \<le> max_line"

definition well_formed :: "message \<Rightarrow> bool" where
  "well_formed m \<longleftrightarrow> complete_line (ms_line m)
     \<and> list_all (\<lambda>l. complete_line l \<and> \<not> ends_head l) (ms_lines m)
     \<and> (ms_end m = [13, 10] \<or> ms_end m = [10]) \<and> length (ms_lines m) < max_headers"

definition message_head :: "('s, 'a) port \<Rightarrow> message \<Rightarrow> request_head option" where
  "message_head port m =
     map_option (\<lambda>parsed. make_head port parsed (ms_lines m @ [ms_end m])) (parse_request_line (ms_line m))"

text \<open>The body is the one the head announces: none for GET and HEAD, the Content-Length of a POST.\<close>

definition announced :: "request_head \<Rightarrow> nat list \<Rightarrow> bool" where
  "announced h body \<longleftrightarrow>
     (if hd_command h = ''POST'' then
        (case content_length h of None \<Rightarrow> Inr 0 | Some t \<Rightarrow> py_int_str t) = Inr (int (length body))
        \<and> int (length body) \<le> max_body_size
      else has_method (hd_command h) \<longrightarrow> body = [])"

definition framed :: "('s, 'a) port \<Rightarrow> message \<Rightarrow> bool" where
  "framed port m \<longleftrightarrow>
     well_formed m \<and> (case message_head port m of None \<Rightarrow> True | Some h \<Rightarrow> announced h (ms_body m))"

text \<open>Messages served one by one, each with its own body and nothing else.\<close>

definition serve_message :: "('s, 'a) port \<Rightarrow> message \<Rightarrow> 's \<Rightarrow> 'a exchange \<times> round \<times> 's" where
  "serve_message port m s =
     (case message_head port m of
        None \<Rightarrow> (Refused, Served True, s)
      | Some h \<Rightarrow>
          if \<not> has_method (hd_command h) then (Refused, Served True, s)
          else send_answer port h
                 (handle_request (po_role port h) (hd_command h) (hd_path h)
                    (if hd_command h = ''POST'' then Some (ms_body m) else None)) s)"

primrec serve_messages :: "('s, 'a) port \<Rightarrow> message list \<Rightarrow> 's \<Rightarrow> 'a exchange list \<times> outcome option \<times> 's" where
  "serve_messages port [] s = ([], None, s)"
| "serve_messages port (m # ms) s =
     (case serve_message port m s of
        (x, Served closes, s') \<Rightarrow>
          if closes then ([x], Some Closed, s')
          else (case serve_messages port ms s' of (xs, oc, s'') \<Rightarrow> (x # xs, oc, s''))
      | (x, Failed command_set e, s') \<Rightarrow> ([x], Some (connection_failed command_set e), s'))"

lemma read_line_complete: "complete_line l \<Longrightarrow> read_line (Suc max_line) (l @ rest) = (l, rest)"
proof -
  assume c: "complete_line l"
  then obtain b where l: "l = b @ [10]" and b: "10 \<notin> set b"
    by (metis complete_line_def append_butlast_last_id)
  then have "takeWhile (\<lambda>x. x \<noteq> 10) (l @ rest) = b" by (auto simp: takeWhile_append)
  with c l show ?thesis by (simp add: read_line_def Let_def complete_line_def)
qed

lemma end_complete: "e = [13, 10] \<or> e = [10] \<Longrightarrow> complete_line e \<and> ends_head e"
  by (auto simp: complete_line_def ends_head_def max_line_def)

lemma read_header_lines_complete:
  assumes "list_all (\<lambda>l. complete_line l \<and> \<not> ends_head l) ls" and "complete_line e" and "ends_head e" and "length ls < k"
  shows "read_header_lines k (concat ls @ e @ rest) = Some (ls @ [e], rest)"
  using assms
proof (induction ls arbitrary: k)
  case Nil
  then show ?case
    using read_line_complete [of e rest] by (cases k) (auto simp: complete_line_def)
next
  case (Cons l ls)
  then obtain k' where "k = Suc k'" by (cases k) auto
  with Cons read_line_complete [of l "concat ls @ e @ rest"] show ?case by (auto simp: complete_line_def)
qed

lemma parse_message:
  assumes "well_formed m"
  shows "parse_request port (ms_line m) (concat (ms_lines m) @ ms_end m @ rest) =
    map_option (\<lambda>h. (h, rest)) (message_head port m)"
  using assms read_header_lines_complete [of "ms_lines m" "ms_end m" max_headers rest] end_complete [of "ms_end m"]
  by (cases "parse_request_line (ms_line m)") (simp_all add: parse_request_def message_head_def well_formed_def)

lemma call_method_announced:
  assumes "announced h body" and "has_method (hd_command h)"
  shows "call_method port h (body @ rest) =
    (handle_request (po_role port h) (hd_command h) (hd_path h) (if hd_command h = ''POST'' then Some body else None), rest)"
  using assms
  by (auto simp: announced_def call_method_def do_get_or_head_def do_post_def read_request_body_def split: option.splits)

text \<open>One framed message at the front of the stream: the rest is untouched when the connection goes on.\<close>

lemma one_request_framed:
  assumes "framed port m"
  shows "\<exists>rest'. one_request port (wire m @ rest) s =
      (case serve_message port m s of (x, r, s') \<Rightarrow> ([x], r, rest', s'))
    \<and> (fst (snd (serve_message port m s)) = Served False \<longrightarrow> rest' = rest)"
proof -
  have wf: "well_formed m" and body: "message_head port m = Some h \<Longrightarrow> announced h (ms_body m)" for h
    using assms by (auto simp: framed_def)
  from wf have line: "read_line (Suc max_line) (wire m @ rest) = (ms_line m, concat (ms_lines m) @ ms_end m @ ms_body m @ rest)"
    and len: "\<not> max_line < length (ms_line m)" "ms_line m \<noteq> []"
    using read_line_complete [of "ms_line m" "concat (ms_lines m) @ ms_end m @ ms_body m @ rest"]
    by (simp_all add: wire_def well_formed_def complete_line_def)
  note parsed = parse_message [OF wf, of port "ms_body m @ rest"]
  show ?thesis
  proof (cases "message_head port m")
    case None
    with len show ?thesis by (simp add: one_request_def line parsed serve_message_def)
  next
    case (Some h)
    with len call_method_announced [OF body [OF Some], of port rest] show ?thesis
      by (cases "has_method (hd_command h)")
         (simp_all add: one_request_def line parsed serve_message_def split: prod.split)
  qed
qed

lemma serve_connection_framed:
  assumes "list_all (framed port) ms"
  shows "serve_connection port (concat (map wire ms) @ tail) s =
    (case serve_messages port ms s of
       (xs, Some oc, s') \<Rightarrow> Some (xs, oc, s')
     | (xs, None, s') \<Rightarrow> Option.bind (serve_connection port tail s') (\<lambda>(ys, oc, s''). Some (xs @ ys, oc, s'')))"
  using assms
proof (induction ms arbitrary: s)
  case Nil
  then show ?case by (cases "serve_connection port tail s") auto
next
  case (Cons m ms)
  obtain x r s' where m: "serve_message port m s = (x, r, s')" by (metis prod_cases3)
  from Cons.prems obtain rest' where one: "one_request port (wire m @ concat (map wire ms) @ tail) s = ([x], r, rest', s')"
    and rest: "r = Served False \<longrightarrow> rest' = concat (map wire ms) @ tail"
    using one_request_framed [of port m "concat (map wire ms) @ tail" s] by (auto simp: m)
  have unfold: "serve_connection port (concat (map wire (m # ms)) @ tail) s =
      (case r of Served closes \<Rightarrow> if closes then Some ([x], Closed, s')
           else Option.bind (serve_connection port rest' s') (\<lambda>(ys, oc, s''). Some (x # ys, oc, s''))
         | Failed command_set e \<Rightarrow> Some ([x], connection_failed command_set e, s'))"
    using one by (subst serve_connection.simps) (simp split: round.split)
  show ?case
  proof (cases "r = Served False")
    case True
    with rest Cons.IH [of s'] Cons.prems have "serve_connection port rest' s' =
      (case serve_messages port ms s' of
         (xs, Some oc, s') \<Rightarrow> Some (xs, oc, s')
       | (xs, None, s') \<Rightarrow> Option.bind (serve_connection port tail s') (\<lambda>(ys, oc, s''). Some (xs @ ys, oc, s'')))"
      by simp
    with True show ?thesis unfolding unfold
      by (cases "serve_messages port ms s'" rule: prod_cases3; cases "fst (snd (serve_messages port ms s'))";
          cases "serve_connection port tail (snd (snd (serve_messages port ms s')))")
         (auto simp: m)
  next
    case False
    then show ?thesis unfolding unfold by (cases r) (auto simp: m)
  qed
qed


text \<open>Fields of plain header lines, and a port that answers with the length of the body and counts its answers.\<close>

definition plain_fields :: "nat list list \<Rightarrow> (string \<times> string) list" where
  "plain_fields lines = map (\<lambda>l. case str_partition (CHR '':'') (latin1 l) of (n, _, v) \<Rightarrow> (n, strip v)) (butlast lines)"

definition ascii_line :: "string \<Rightarrow> nat list" where
  "ascii_line s = map of_char s @ [13, 10]"

definition counting_port :: "(nat, nat) port" where
  "counting_port =
     \<lparr>po_fields = plain_fields,
      po_role = (\<lambda>h. \<lparr>ro_route = ''dns'', ro_urlsplit = (\<lambda>path. Inr (path, [])), ro_unquote = (\<lambda>s. s), ro_set_remote_ip = Inr (),
        ro_handle = (\<lambda>command dirs query body. Inr (\<lambda>n. (Inr (case body of None \<Rightarrow> 0 | Some b \<Rightarrow> length b), Suc n)))\<rparr>),
      po_closes = (\<lambda>_. False)\<rparr>"

definition demo_get :: message where
  "demo_get = \<lparr>ms_line = ascii_line ''GET /dns HTTP/1.1'', ms_lines = [], ms_end = [13, 10], ms_body = []\<rparr>"

definition demo_post :: "string \<Rightarrow> nat list \<Rightarrow> message" where
  "demo_post header body = \<lparr>ms_line = ascii_line ''POST /dns HTTP/1.1'', ms_lines = [ascii_line header], ms_end = [13, 10], ms_body = body\<rparr>"

lemma counting_port_ends: "serve_connection counting_port [] n = Some ([], Closed, n)"
  by (subst serve_connection.simps) (simp add: one_request_def read_line_def max_line_def)


text \<open>
  C39: a POST that does not announce its body with Content-Length, so any chunked one, is answered as one without a
  body, and the bytes of its body are then read as the head of the next request.
\<close>

theorem unannounced_body_parsed:
  assumes "well_formed m" and "message_head port m = Some h" and "hd_command h = ''POST''" and "content_length h = None"
    and "serve_message port (m\<lparr>ms_body := []\<rparr>) s = (x, Served False, s')"
  shows "serve_connection port (wire m @ tail) s =
    Option.bind (serve_connection port (ms_body m @ tail) s') (\<lambda>(ys, oc, s''). Some (x # ys, oc, s''))"
proof -
  have "message_head port (m\<lparr>ms_body := []\<rparr>) = Some h" "well_formed (m\<lparr>ms_body := []\<rparr>)"
    using assms(1, 2) by (simp_all add: well_formed_def message_head_def)
  with assms(3, 4) have "framed port (m\<lparr>ms_body := []\<rparr>)"
    by (simp add: framed_def announced_def max_body_size_def)
  then have "list_all (framed port) [m\<lparr>ms_body := []\<rparr>]" by simp
  from serve_connection_framed [OF this, of "ms_body m @ tail" s] show ?thesis
    by (simp add: assms(5) wire_def)
qed

theorem unannounced_body_parsed_witness:
  "map_option (\<lambda>(xs, oc, n). (length xs, oc, n))
     (serve_connection counting_port (wire (demo_post ''Transfer-Encoding: chunked'' (wire demo_get))) 0) = Some (2, Closed, 2)"
proof -
  let ?m = "demo_post ''Transfer-Encoding: chunked'' (wire demo_get)"
  have wf: "well_formed ?m" by code_simp
  have head: "map_option (\<lambda>h. (hd_command h, content_length h)) (message_head counting_port ?m) = Some (''POST'', None)" by code_simp
  then obtain h where h: "message_head counting_port ?m = Some h" "hd_command h = ''POST''" "content_length h = None" by auto
  have "snd (serve_message counting_port (?m\<lparr>ms_body := []\<rparr>) 0) = (Served False, 1)" by code_simp
  then obtain x where x: "serve_message counting_port (?m\<lparr>ms_body := []\<rparr>) 0 = (x, Served False, 1)" by (metis prod.collapse)
  have "list_all (framed counting_port) [demo_get]" by code_simp
  note second = serve_connection_framed [OF this, of "[]" 1]
  have "length (fst (serve_messages counting_port [demo_get] 1)) = 1 \<and> snd (serve_messages counting_port [demo_get] 1) = (None, 2)"
    by code_simp
  then obtain ys where "serve_messages counting_port [demo_get] 1 = (ys, None, 2)" "length ys = 1" by (metis prod.collapse)
  with second have "serve_connection counting_port (wire demo_get) 1 = Some (ys, Closed, 2)" by (simp add: counting_port_ends)
  moreover have "ms_body ?m = wire demo_get" by (simp add: demo_post_def)
  ultimately show ?thesis
    using unannounced_body_parsed [OF wf h x, of "[]"] \<open>length ys = 1\<close> by simp
qed

subsection \<open>From each request to the connection\<close>

lemma serve_connection_keeps:
  assumes "\<And>stream s xs r rest s'. one_request port stream s = (xs, r, rest, s') \<Longrightarrow> R s xs s'"
    and "\<And>s xs u ys t. R s xs u \<Longrightarrow> R u ys t \<Longrightarrow> R s (xs @ ys) t"
    and "serve_connection port stream s = Some (xs, oc, s')"
  shows "R s xs s'"
  using assms(3)
proof (induction "length stream" arbitrary: stream s xs rule: less_induct)
  case less
  obtain ys r rest u where one: "one_request port stream s = (ys, r, rest, u)" by (metis prod_cases4)
  then have su: "R s ys u" by (rule assms(1))
  show ?case
  proof (cases "r = Served False")
    case True
    from less.prems one True obtain zs where "serve_connection port rest u = Some (zs, oc, s')" "xs = ys @ zs"
      by (subst (asm) serve_connection.simps) (auto simp: bind_eq_Some_conv)
    with less.hyps one_request_consumes [OF one [unfolded True]] have "R u zs s'" "xs = ys @ zs" by blast+
    with su assms(2) show ?thesis by blast
  next
    case False
    with less.prems one have "s' = u" "xs = ys" by (subst (asm) serve_connection.simps, auto split: round.splits)+
    with su show ?thesis by simp
  qed
qed

lemma handle_bytes_keeps:
  assumes "\<And>stream s xs r rest s'. one_request port stream s = (xs, r, rest, s') \<Longrightarrow> R s xs s'"
    and "\<And>s xs u ys t. R s xs u \<Longrightarrow> R u ys t \<Longrightarrow> R s (xs @ ys) t" and "R s [] s"
  shows "\<exists>xs oc s'. handle_bytes port opened stream s = Some (xs, oc, s') \<and> R s xs s'"
proof -
  obtain xs oc s' where served: "serve_connection port stream s = Some (xs, oc, s')"
    using serve_connection_returns [of port stream s] by blast
  with serve_connection_keeps [of port R, OF assms(1, 2)] assms(3) show ?thesis
    by (cases opened) (auto simp: handle_bytes_def)
qed

text \<open>A request either leaves the database state or runs the computation that its role answers with.\<close>

fun exchange_head :: "'a exchange \<Rightarrow> request_head option" where
  "exchange_head Refused = None"
| "exchange_head (Answered h _) = Some h"
| "exchange_head (Broken h _) = Some h"

lemma send_answer_cases:
  assumes "send_answer port h q s = (x, r, s')"
  shows "exchange_head x = Some h" and "s' = s \<or> (\<exists>m res. q = Inr (Answer m) \<and> m s = (res, s'))"
  using assms by (auto simp: send_answer_def Let_def split: sum.splits response.splits prod.splits)

lemma call_method_Answer:
  "call_method port h bs = (Inr (Answer m), rest) \<Longrightarrow>
     \<exists>body. handle_request (po_role port h) (hd_command h) (hd_path h) body = Inr (Answer m)"
  by (auto simp: call_method_def do_get_or_head_def do_post_def split: if_splits sum.splits py_error.splits prod.splits)

lemma one_request_runs:
  assumes "one_request port stream s = (xs, r, rest, s')"
  shows "(\<exists>x h. xs = [x] \<and> exchange_head x = Some h
      \<and> (s' = s \<or> (\<exists>body m res. handle_request (po_role port h) (hd_command h) (hd_path h) body = Inr (Answer m) \<and> m s = (res, s'))))
    \<or> s' = s \<and> (xs = [] \<or> xs = [Refused])"
proof -
  from assms consider "s' = s" "xs = [] \<or> xs = [Refused]"
    | h bs q x where "call_method port h bs = (q, rest)" "send_answer port h q s = (x, r, s')" "xs = [x]"
    by (auto simp: one_request_def Let_def split: if_splits option.splits prod.splits)
  then show ?thesis
  proof cases
    case (2 h bs q x)
    with send_answer_cases [OF 2(2)] call_method_Answer [of port h bs] show ?thesis by blast
  qed simp
qed

end
