(* ===== verification/Ports_Properties.thy ===== *)
theory Ports_Properties
  imports Ports Mysql_Journal Http_Connection_Properties PowerDNS_Database_Properties
begin

section \<open>What bytes can do\<close>

text \<open>
  The composition of the connection, the roles and the database: whatever a client sends, the DNS port
  writes nothing, and the admin port writes only what it signs.
\<close>

lemma timed_answer:
  assumes "handle_request (timed role) command path body = Inr (Answer m)" and "m (s, n) = (r, (s', n'))"
  shows "s' = s \<or> (\<exists>dirs query m'. ro_handle (role n) command dirs query body = Inr m' \<and> m' s = (r, s'))"
proof -
  from handle_request_Answer [OF assms(1)] obtain dirs query where
    "ro_handle (timed role) command dirs query body = Inr m" by blast
  with assms(2) show ?thesis
    by (cases "ro_handle (role n) command dirs query body") (auto simp: timed_def split: prod.splits)
qed

subsection \<open>The DNS port\<close>

context reader
begin

lemma silent_db_dns_route:
  "dh_ex h = ex \<Longrightarrow> silent (db_dns_route h status ctx command dirs query)"
  unfolding db_dns_route_def db_dns_content_def db_get_lookup_def db_get_all_domains_def gslb_records_def gslb_domains_def Let_def
  by (intro silent_cases silent_bind silent_return; simp add: silent_select reads_dns)

end

lemma dns_request_silent:
  assumes "reader ex seen fine False" and "\<And>n. dh_ex (handler n) = ex" and "fine (fst s)"
    and one: "one_request (dns_port read_fields handler status split parse_ip parse_net peer) stream s = (xs, r, rest, s')"
  shows "fine (fst s') \<and> seen (fst s') = seen (fst s)"
proof (cases "s' = s")
  case False
  let ?port = "dns_port read_fields handler status split parse_ip parse_net peer"
  from False one_request_runs [OF one] obtain h body m res where
    answer: "handle_request (po_role ?port h) (hd_command h) (hd_path h) body = Inr (Answer m)" and run: "m s = (res, s')" by blast
  obtain a n a' n' where s: "s = (a, n)" "s' = (a', n')" by (cases s, cases s')
  from timed_answer [OF answer [unfolded dns_port_def port.simps] run [unfolded s]] consider "a' = a"
    | ctx command dirs query where "db_dns_route (handler n) (status n) ctx command dirs query a = (res, a')"
    by (auto simp: db_dns_role_def bind_result_Inr_iff)
  then show ?thesis
    using reader.silent_db_dns_route [OF assms(1,2)] assms(3)
    by cases (auto simp: s reader.silent_def [OF assms(1)])
qed (use assms(3) in simp)

text \<open>
  C11: no bytes sent to the DNS port can write. Whatever arrives on a connection to it, whatever the registry, the
  clock and the draws are meanwhile, and however often the database connection fails or is replaced, the loop ends with
  the writes the server had published when it began, and with none pending.
\<close>

theorem dns_connection_reads:
  assumes "journaling d committed pending auto conn_of" and "\<And>n. dh_ex (handler n) = mysql_executor d"
    and "\<not> my_in_tx (fst s)" and "pending (my_world (fst s)) (my_conn (fst s)) = committed (my_world (fst s))"
  shows "\<exists>xs oc s'. handle_bytes (dns_port read_fields handler status split parse_ip parse_net peer) opened stream s
      = Some (xs, oc, s') \<and> committed (my_world (fst s')) = committed (my_world (fst s))
    \<and> pending (my_world (fst s')) (my_conn (fst s')) = committed (my_world (fst s))"
proof -
  note rest = journaling.at_rest_iff [OF assms(1)] and published = journaling.published_def [OF assms(1)]
  let ?rest = "journaling.at_rest committed pending" and ?published = "journaling.published committed"
  have "\<exists>xs oc s'. handle_bytes (dns_port read_fields handler status split parse_ip parse_net peer) opened stream s
      = Some (xs, oc, s') \<and> (?rest (fst s) \<longrightarrow> ?rest (fst s') \<and> ?published (fst s') = ?published (fst s))"
    by (rule handle_bytes_keeps [where R = "\<lambda>s xs s'. ?rest (fst s) \<longrightarrow> ?rest (fst s') \<and> ?published (fst s') = ?published (fst s)"])
       (use dns_request_silent [OF journaling.mysql_contracts(1) [OF assms(1)] assms(2)] in auto)
  with assms(3,4) show ?thesis unfolding rest published by metis
qed

text \<open>A server with one user, \<open>ann\<close>, and one row for every other query, and a request of the DNS port to it.\<close>

definition demo_split :: "string \<Rightarrow> (string \<times> string) result" where
  "demo_split url = (case str_partition (CHR ''?'') url of (path, _, query) \<Rightarrow> Inr (path, query))"

definition demo_lookup :: message where
  "demo_lookup = \<lparr>ms_line = ascii_line ''GET /dns/lookup/a.b/A HTTP/1.1'', ms_lines = [], ms_end = [13, 10], ms_body = []\<rparr>"

definition demo_rows :: "string \<Rightarrow> string list \<times> pyval list list" where
  "demo_rows _ = ([''id'', ''user'', ''name'', ''password'', ''recid''],
     [[PInt 1, PStr ''ann'', PStr ''Ann'', PStr ''$1'', PInt 1]])"

definition demo_mysql_driver :: "sim driver" where
  "demo_mysql_driver = sim_driver (answering demo_rows (\<lambda>_. 1))"

definition demo_published :: "sim \<Rightarrow> journal" where
  "demo_published w = sim_journal (answering demo_rows (\<lambda>_. 1)) (sim_data w)"

definition demo_pending :: "sim \<Rightarrow> nat \<Rightarrow> journal" where
  "demo_pending w c = sim_journal (answering demo_rows (\<lambda>_. 1)) (sim_session w)"

lemma demo_journaling: "journaling demo_mysql_driver demo_published demo_pending (\<lambda>w c. sim_auto w) (\<lambda>k. k)"
  using journaled_sim.journaling_axioms [of demo_rows "\<lambda>_. 1"]
  by (simp add: demo_mysql_driver_def demo_published_def [abs_def] demo_pending_def [abs_def])

definition demo_mysql_handler :: "sim mysql dns_handler" where
  "demo_mysql_handler = \<lparr>dh_ex = mysql_executor demo_mysql_driver, dh_env = demo_env, dh_unquote = (\<lambda>s. s),
     dh_repr = (\<lambda>_. []), dh_now = (\<lambda>_. 0), dh_rng = (\<lambda>_. 0)\<rparr>"

definition demo_dns_port :: "(sim mysql \<times> nat, dns_response) port" where
  "demo_dns_port =
     dns_port plain_fields (\<lambda>n. demo_mysql_handler) (\<lambda>n. {}) demo_split (\<lambda>_. Inr (IPv4 1)) (\<lambda>_. Inr \<lparr>net_ip = IPv4 1, net_prefixlen = 32\<rparr>) ''10.0.0.9''"

lemma demo_sim_rests: "\<not> my_in_tx demo_sim" "demo_pending (my_world demo_sim) c = demo_published (my_world demo_sim)"
    "demo_published (my_world demo_sim) = []"
  by (simp_all add: demo_sim_def demo_pending_def demo_published_def)

theorem dns_connection_reads_witness:
  "\<exists>xs oc s'. handle_bytes demo_dns_port (Inr ()) (wire demo_lookup) (demo_sim, 0) = Some (xs, oc, s')
     \<and> demo_published (my_world (fst s')) = []"
  using dns_connection_reads [OF demo_journaling, of "\<lambda>n. demo_mysql_handler" "(demo_sim, 0)"] demo_sim_rests
  unfolding demo_dns_port_def by (fastforce simp: demo_mysql_handler_def)

subsection \<open>The admin port\<close>

text \<open>The writes of a connection, exchange by exchange.\<close>

definition exchange_accounted :: "'s admin_env \<Rightarrow> string \<Rightarrow> 'a exchange \<Rightarrow> journal \<Rightarrow> bool" where
  "exchange_accounted env ip x ws \<longleftrightarrow>
     (\<forall>w \<in> set ws. snd w = 0)
     \<or> (\<exists>h t r v user data vs rows n. exchange_head x = Some h
          \<and> authenticated env t (header_get (hd_fields h) ''Authorization'') r \<and> map_of r ''user'' = Some v
          \<and> uc_user user = str_of v \<and> uc_client_ip user = ip \<and> data \<in> fst ` set TABLES
          \<and> ws = vs @ [(audit_statement rows, n)] \<and> rows \<noteq> [] \<and> list_all (signed_by user data) rows)"

lemma exchange_accountedI:
  "exchange_head x = Some h \<Longrightarrow> accounted env ip (header_get (hd_fields h) ''Authorization'') t ws
     \<Longrightarrow> exchange_accounted env ip x ws"
  unfolding accounted_def exchange_accounted_def
  by (elim disjE, rule disjI1, assumption, rule disjI2) (elim exE conjE, intro exI conjI)

definition accounted_groups :: "'s admin_env \<Rightarrow> string \<Rightarrow> ('s \<Rightarrow> journal) \<Rightarrow> 's \<Rightarrow> 'a exchange list \<Rightarrow> 's \<Rightarrow> bool" where
  "accounted_groups env ip journal s xs s' \<longleftrightarrow>
     (\<exists>groups. journal s' = journal s @ concat groups \<and> list_all2 (exchange_accounted env ip) xs groups)"

lemma accounted_groups_append:
  "accounted_groups env ip journal s xs u \<Longrightarrow> accounted_groups env ip journal u ys t
     \<Longrightarrow> accounted_groups env ip journal s (xs @ ys) t"
  unfolding accounted_groups_def
  by (elim exE conjE, rule_tac x = "groups @ groupsa" in exI) (simp add: list_all2_appendI)

lemma accounted_groups_nil: "accounted_groups env ip journal s [] s"
  unfolding accounted_groups_def by (intro exI [of _ "[]"]) simp

lemma accounted_groups_none: "journal s' = journal s \<Longrightarrow> accounted_groups env ip journal s [x] s'"
  unfolding accounted_groups_def by (intro exI [of _ "[[]]"]) (simp add: exchange_accounted_def)

lemma admin_request_accounted:
  assumes "journaled (ad_ex env) journal idle inside seen (ad_tx env)" and idle: "idle (fst s)"
    and "one_request (admin_port read_fields env status split parse_ip ip_text peer static_closes) stream s = (xs, r, rest, s')"
  shows "idle (fst s') \<and> accounted_groups env (peer_ip parse_ip ip_text peer) journal (fst s) xs (fst s')"
proof (cases "s' = s")
  case True
  with one_request_runs [OF assms(3)] idle show ?thesis
    using accounted_groups_nil accounted_groups_none by metis
next
  case False
  let ?port = "admin_port read_fields env status split parse_ip ip_text peer static_closes"
  from False one_request_runs [OF assms(3)] obtain x h body m res where x: "xs = [x]" "exchange_head x = Some h"
    and answer: "handle_request (po_role ?port h) (hd_command h) (hd_path h) body = Inr (Answer m)" and run: "m s = (res, s')"
    by blast
  obtain a n a' n' where s: "s = (a, n)" "s' = (a', n')" by (cases s, cases s')
  from timed_answer [OF answer [unfolded admin_port_def port.simps] run [unfolded s]] consider "a' = a"
    | rq where "admin_route env (status n) rq a = (res, a')" "rq_client_ip rq = peer_ip parse_ip ip_text peer"
        "rq_authorization rq = header_get (hd_fields h) ''Authorization''"
    by (auto simp: admin_role_def)
  then show ?thesis
  proof cases
    case (2 rq)
    from admin_route_accounted [OF assms(1) _ 2(1)] idle 2(2, 3) obtain ws where "idle a'"
      "journal a' = journal a @ ws" "accounted env (peer_ip parse_ip ip_text peer) (header_get (hd_fields h) ''Authorization'') a ws"
      by (auto simp: s)
    with exchange_accountedI [OF x(2)] show ?thesis unfolding s x(1) accounted_groups_def fst_conv
      by (intro conjI exI [of _ "[ws]"]) simp_all
  qed (use idle in \<open>simp add: s x accounted_groups_none\<close>)
qed


text \<open>A deletion sent by \<open>ann\<close>.\<close>

definition demo_journaled :: "sim mysql admin_env" where
  "demo_journaled =
     \<lparr>ad_ex = mysql_executor demo_mysql_driver, ad_tx = mysql_transaction demo_mysql_driver,
      ad_table = demo_table_env\<lparr>te_crypt := demo_crypt\<rparr>, ad_check = demo_check_env, ad_loads = demo_loads_policy,
      ad_parse_net = (\<lambda>s. Inl (AddrFormatError s)), ad_unquote = (\<lambda>s. s),
      ad_basic = (\<lambda>s. if s = ''YQ'' then Inr ''ann:pw'' else Inl (ValueError s)), ad_decode = (\<lambda>_. Inr [])\<rparr>"

definition demo_deletion :: message where
  "demo_deletion =
     \<lparr>ms_line = ascii_line ''GET /admin/w2ui?cmd=delete-records&data=domains&selected=1 HTTP/1.1'',
      ms_lines = [ascii_line ''Authorization: Basic YQ''], ms_end = [13, 10], ms_body = []\<rparr>"

definition demo_admin_port :: "(sim mysql \<times> nat, admin_response) port" where
  "demo_admin_port = admin_port plain_fields demo_journaled (\<lambda>n. {}) demo_split (\<lambda>_. Inr (IPv4 1)) (\<lambda>_. ''10.0.0.9'') ''10.0.0.9'' (\<lambda>_. True)"

lemma demo_deletion_served:
  "\<exists>x db. handle_bytes demo_admin_port (Inr ()) (wire demo_deletion) (demo_sim, 0) = Some ([x], Closed, (db, 1))
     \<and> length (demo_published (my_world db)) = 2 \<and> list_all (\<lambda>w. snd w = 1) (demo_published (my_world db))"
proof -
  have framed: "list_all (framed demo_admin_port) [demo_deletion]" by code_simp
  let ?r = "serve_messages demo_admin_port [demo_deletion] (demo_sim, 0)"
  have "length (fst ?r) = 1 \<and> fst (snd ?r) = None \<and> snd (snd (snd ?r)) = 1
      \<and> length (demo_published (my_world (fst (snd (snd ?r))))) = 2
      \<and> list_all (\<lambda>w. snd w = 1) (demo_published (my_world (fst (snd (snd ?r)))))"
    by code_simp
  then obtain x db where r: "?r = ([x], None, (db, 1))"
    and log: "length (demo_published (my_world db)) = 2" "list_all (\<lambda>w. snd w = 1) (demo_published (my_world db))"
    by (cases ?r) (auto simp: length_Suc_conv)
  have "serve_connection demo_admin_port [] t = Some ([], Closed, t)" for t
    by (subst serve_connection.simps) (simp add: one_request_def read_line_def max_line_def)
  with serve_connection_framed [OF framed, of "[]" "(demo_sim, 0)"] r log show ?thesis by (simp add: handle_bytes_def)
qed


end
