(* ===== verification/Monitor_System.thy ===== *)
theory Monitor_System
  imports Monitor_Manager
begin

section \<open>The monitor and its threads running together\<close>

text \<open>
  The monitor thread, the check threads it holds and the ones it has abandoned, as a labelled step relation
  over one registry (\<open>monitor/monitor.py\<close>, \<open>monitor/check/thread.py\<close>). A poll takes three steps, between
  which the check threads run: \<open>Polled\<close> decides what to stop and start, \<open>Swapped\<close> ends the shared join,
  drops the stopped threads and starts the new ones, \<open>Cleaned\<close> retains the status of the desired ids. A
  check thread's run is one step, at its write to the registry or, when it writes nothing, at its test of it: adding or
  removing an id twice is doing it once. The runs before and after one of the monitor's steps do not touch what the
  step reads, the keys, checks and serials of the threads. A stopped thread that outlives the join
  is a straggler; its stop is requested, so it completes at most the run it is in (\<open>Late\<close>).
\<close>

subsection \<open>The parts of a reconciliation\<close>

definition plan_stops :: "(nat \<Rightarrow> bool) \<Rightarrow> (int \<times> check) list \<Rightarrow> monitor \<Rightarrow> running list" where
  "plan_stops alive desired m = map snd (filter (to_stop alive desired) (m_threads m))"

definition plan_starts :: "(nat \<Rightarrow> bool) \<Rightarrow> (int \<times> check) list \<Rightarrow> monitor \<Rightarrow> (int \<times> check) list" where
  "plan_starts alive desired m =
     replacements alive desired (m_threads m)
     @ filter (\<lambda>(content_id, c). map_of (m_threads m) content_id = None) desired"

definition swap_threads :: "running list \<Rightarrow> (int \<times> check) list \<Rightarrow> monitor \<Rightarrow> monitor" where
  "swap_threads stops starts m =
     foldl (\<lambda>m (content_id, c). start_thread content_id c m)
       (m\<lparr>m_threads := foldl (\<lambda>ts r. AList.delete (ct_content_id (rn_thread r)) ts) (m_threads m) stops\<rparr>) starts"

lemma reconcile_parts:
  "reconcile alive alive' desired m =
     (clean_status (fst ` set desired) (swap_threads (plan_stops alive desired m) (plan_starts alive desired m) m),
      stop_threads alive' (plan_stops alive desired m))"
  by (simp add: reconcile_def swap_threads_def plan_stops_def plan_starts_def Let_def)

subsection \<open>The system\<close>

datatype monitor_phase =
    Idle
  | Joining "running list" "(int \<times> check) list" "(int \<times> check) list"
  | Cleaning "int set"

record monitor_system =
  sy_monitor :: monitor
  sy_dead :: "nat set"
  sy_stragglers :: "running list"
  sy_phase :: monitor_phase

abbreviation sy_threads :: "monitor_system \<Rightarrow> (int \<times> running) list" where
  "sy_threads s \<equiv> m_threads (sy_monitor s)"

abbreviation sy_status :: "monitor_system \<Rightarrow> status_registry" where
  "sy_status s \<equiv> m_status (sy_monitor s)"

definition system_init :: monitor_system where
  "system_init = \<lparr>sy_monitor = \<lparr>m_threads = [], m_next = 0, m_status = registry_init\<rparr>,
     sy_dead = {}, sy_stragglers = [], sy_phase = Idle\<rparr>"

text \<open>A completed run of a managed thread: its counters and the registry.\<close>

definition run_thread :: "int \<Rightarrow> running \<Rightarrow> bool result \<Rightarrow> monitor \<Rightarrow> monitor" where
  "run_thread k r outcome m =
     (let (t, status) = check_task outcome (rn_thread r) (m_status m)
      in m\<lparr>m_threads := AList.update k (r\<lparr>rn_thread := t\<rparr>) (m_threads m), m_status := status\<rparr>)"

definition run_straggler :: "running \<Rightarrow> bool result \<Rightarrow> monitor \<Rightarrow> monitor" where
  "run_straggler r outcome m = m\<lparr>m_status := snd (check_task outcome (rn_thread r) (m_status m))\<rparr>"

text \<open>The stopped threads that outlived the join: neither dead nor among the ones that exited in time.\<close>

definition abandoned :: "nat set \<Rightarrow> running list \<Rightarrow> monitor_system \<Rightarrow> running list" where
  "abandoned exited stops s =
     map snd (filter (\<lambda>(k, r). k \<in> (\<lambda>r. ct_content_id (rn_thread r)) ` set stops
                             \<and> rn_serial r \<notin> sy_dead s \<union> exited) (sy_threads s))"

datatype sys_event =
    Poll_Failed
  | Polled
  | Swapped "nat set"
  | Cleaned
  | Ran nat "bool result"
  | Died nat
  | Late int "bool result"
  | Exited nat

inductive sys_step ::
    "check_env \<Rightarrow> (string \<Rightarrow> pyval result) \<Rightarrow> monitor_system \<Rightarrow> sys_event \<Rightarrow> monitor_system \<Rightarrow> bool"
  for env loads where
  poll_failed: "sy_phase s = Idle \<Longrightarrow> desired_checks env loads rows = Inr None \<Longrightarrow>
    sys_step env loads s Poll_Failed s"
| polled: "sy_phase s = Idle \<Longrightarrow> desired_checks env loads rows = Inr (Some d) \<Longrightarrow>
    sys_step env loads s Polled
      (s\<lparr>sy_phase := Joining (plan_stops (\<lambda>n. n \<notin> sy_dead s) d (sy_monitor s))
                        (plan_starts (\<lambda>n. n \<notin> sy_dead s) d (sy_monitor s)) d\<rparr>)"
| swapped: "sy_phase s = Joining stops starts d \<Longrightarrow>
    sys_step env loads s (Swapped exited)
      (s\<lparr>sy_monitor := swap_threads stops starts (sy_monitor s),
         sy_stragglers := sy_stragglers s @ abandoned exited stops s, sy_phase := Cleaning (fst ` set d)\<rparr>)"
| cleaned: "sy_phase s = Cleaning valid_ids \<Longrightarrow>
    sys_step env loads s Cleaned (s\<lparr>sy_monitor := clean_status valid_ids (sy_monitor s), sy_phase := Idle\<rparr>)"
| ran: "map_of (sy_threads s) k = Some r \<Longrightarrow> rn_serial r \<notin> sy_dead s \<Longrightarrow>
    sys_step env loads s (Ran (rn_serial r) outcome) (s\<lparr>sy_monitor := run_thread k r outcome (sy_monitor s)\<rparr>)"
| died: "map_of (sy_threads s) k = Some r \<Longrightarrow>
    sys_step env loads s (Died (rn_serial r)) (s\<lparr>sy_dead := insert (rn_serial r) (sy_dead s)\<rparr>)"
| late: "r \<in> set (sy_stragglers s) \<Longrightarrow>
    sys_step env loads s (Late (ct_content_id (rn_thread r)) outcome)
      (s\<lparr>sy_monitor := run_straggler r outcome (sy_monitor s), sy_stragglers := remove1 r (sy_stragglers s)\<rparr>)"
| exited: "r \<in> set (sy_stragglers s) \<Longrightarrow>
    sys_step env loads s (Exited (rn_serial r)) (s\<lparr>sy_stragglers := remove1 r (sy_stragglers s)\<rparr>)"

inductive_cases sys_step_cases: "sys_step env loads s ev s'"

inductive sys_run ::
    "check_env \<Rightarrow> (string \<Rightarrow> pyval result) \<Rightarrow> monitor_system \<Rightarrow> sys_event list \<Rightarrow> monitor_system \<Rightarrow> bool"
  for env loads s where
  run_nil: "sys_run env loads s [] s"
| run_step: "sys_run env loads s evs s' \<Longrightarrow> sys_step env loads s' ev s'' \<Longrightarrow> sys_run env loads s (evs @ [ev]) s''"

subsection \<open>What the trace says\<close>

fun run_of :: "nat \<Rightarrow> sys_event \<Rightarrow> bool result option" where
  "run_of n (Ran n' outcome) = (if n' = n then Some outcome else None)"
| "run_of n _ = None"

definition runs_of :: "nat \<Rightarrow> sys_event list \<Rightarrow> bool result list" where
  "runs_of n evs = List.map_filter (run_of n) evs"

definition late_for :: "int \<Rightarrow> sys_event \<Rightarrow> bool" where
  "late_for k ev \<longleftrightarrow> (\<exists>outcome. ev = Late k outcome)"

definition late_since_clean :: "sys_event list \<Rightarrow> int set" where
  "late_since_clean evs = {k. list_ex (late_for k) (takeWhile (\<lambda>ev. ev \<noteq> Cleaned) (rev evs))}"

lemma runs_of_simps [simp]:
  "runs_of n [] = []"
  "runs_of n (evs @ [ev]) = runs_of n evs @ (case run_of n ev of None \<Rightarrow> [] | Some x \<Rightarrow> [x])"
  by (auto simp: runs_of_def List.map_filter_def)

lemma late_since_clean_simps [simp]:
  "late_since_clean [] = {}"
  "late_since_clean (evs @ [ev]) =
     (if ev = Cleaned then {} else late_since_clean evs \<union> {k. late_for k ev})"
  by (auto simp: late_since_clean_def)

end
