(* ===== verification/Monitor_System_Properties.thy ===== *)
theory Monitor_System_Properties
  imports Monitor_System Monitor_Properties
begin

section \<open>Properties of the running monitor\<close>

text \<open>
  What holds in every state of \<open>Monitor_System\<close>, whatever the order of the steps: the invariant of the
  threads, the confinement of the registry, and the debounce over a window of an execution.
\<close>

subsection \<open>The invariant\<close>

definition content_ids :: "running list \<Rightarrow> int list" where
  "content_ids rs = map (\<lambda>r. ct_content_id (rn_thread r)) rs"

text \<open>What the plan of a reconciliation reads of the threads: not their counters.\<close>

definition skeleton :: "(int \<times> running) list \<Rightarrow> (int \<times> nat \<times> check \<times> int) list" where
  "skeleton ts = map (\<lambda>(k, r). (k, rn_serial r, ct_check (rn_thread r), ct_content_id (rn_thread r))) ts"

definition phase_inv :: "monitor \<Rightarrow> monitor_phase \<Rightarrow> bool" where
  "phase_inv m p = (case p of
     Idle \<Rightarrow> True
   | Joining stops starts d \<Rightarrow> distinct (map fst d) \<and>
       (\<exists>alive. starts = plan_starts alive d m \<and> content_ids stops = content_ids (plan_stops alive d m))
   | Cleaning valid_ids \<Rightarrow> fst ` set (m_threads m) = valid_ids)"

definition system_inv :: "monitor_system \<Rightarrow> bool" where
  "system_inv s \<longleftrightarrow> monitor_inv (sy_monitor s) \<and> phase_inv (sy_monitor s) (sy_phase s)"

lemma skeleton_keys: "map fst ts = map fst (skeleton ts)"
  by (simp add: skeleton_def case_prod_unfold)

lemma skeleton_none: "skeleton ts = skeleton ts' \<Longrightarrow> map_of ts k = None \<longleftrightarrow> map_of ts' k = None"
  by (metis map_of_eq_None_iff list.set_map skeleton_keys)

lemma skeleton_plan:
  assumes "skeleton (m_threads m) = skeleton (m_threads m')"
  shows "plan_starts alive d m = plan_starts alive d m'"
    and "content_ids (plan_stops alive d m) = content_ids (plan_stops alive d m')"
proof -
  have "replacements alive d ts = replacements alive d ts'
      \<and> content_ids (map snd (filter (to_stop alive d) ts)) = content_ids (map snd (filter (to_stop alive d) ts'))"
    if "skeleton ts = skeleton ts'" for ts ts'
    using that
  proof (induction ts arbitrary: ts')
    case Nil
    then show ?case by (simp add: skeleton_def)
  next
    case (Cons x ts)
    then obtain y us where y: "ts' = y # us" by (cases ts') (auto simp: skeleton_def)
    from Cons.prems y have eq: "skeleton ts = skeleton us" by (simp add: skeleton_def)
    obtain k r k' r' where x: "x = (k, r)" "y = (k', r')" by (cases x, cases y)
    from Cons.prems y x have "k' = k" "rn_serial r' = rn_serial r" "ct_check (rn_thread r') = ct_check (rn_thread r)"
        "ct_content_id (rn_thread r') = ct_content_id (rn_thread r)"
      by (simp_all add: skeleton_def)
    with Cons.IH [OF eq] y x show ?case
      by (auto simp: replacements_def map_filter_simps content_ids_def to_stop_def split: option.splits)
  qed
  from this [OF assms] skeleton_none [OF assms]
  show "plan_starts alive d m = plan_starts alive d m'"
    and "content_ids (plan_stops alive d m) = content_ids (plan_stops alive d m')"
    by (simp_all add: plan_starts_def plan_stops_def)
qed

lemma swap_ids:
  assumes "content_ids stops = content_ids stops'"
  shows "swap_threads stops starts m = swap_threads stops' starts m"
proof -
  have "foldl (\<lambda>ts r. AList.delete (ct_content_id (rn_thread r)) ts) ts rs
      = foldl (\<lambda>ts i. AList.delete i ts) ts (content_ids rs)" for ts :: "(int \<times> running) list" and rs
    by (induction rs arbitrary: ts) (simp_all add: content_ids_def)
  with assms show ?thesis by (simp add: swap_threads_def)
qed

lemma check_task_same:
  assumes "check_task x t status = (t', status')"
  shows "ct_check t' = ct_check t" "ct_content_id t' = ct_content_id t"
    "j \<noteq> ct_content_id t \<Longrightarrow> j \<in> status' \<longleftrightarrow> j \<in> status"
  using assms by (auto simp: check_task_cases check_rise_def check_fall_def Let_def split: if_splits)

lemma run_thread_facts:
  assumes "map_of (m_threads m) k = Some r" "distinct (map fst (m_threads m))"
  shows "skeleton (m_threads (run_thread k r x m)) = skeleton (m_threads m)"
    and "m_next (run_thread k r x m) = m_next m"
    and "map_of (m_threads (run_thread k r x m)) =
       (map_of (m_threads m))(k \<mapsto> r\<lparr>rn_thread := fst (check_task x (rn_thread r) (m_status m))\<rparr>)"
    and "m_status (run_thread k r x m) = snd (check_task x (rn_thread r) (m_status m))"
proof -
  obtain t st where t: "check_task x (rn_thread r) (m_status m) = (t, st)" by (cases "check_task x (rn_thread r) (m_status m)")
  note same = check_task_same(1,2) [OF t]
  have "map_of ts k = Some r \<Longrightarrow> distinct (map fst ts) \<Longrightarrow>
      skeleton (AList.update k (r\<lparr>rn_thread := t\<rparr>) ts) = skeleton ts" for ts
    by (induction ts) (auto simp: skeleton_def same split: if_splits)
  from this [OF assms] show "skeleton (m_threads (run_thread k r x m)) = skeleton (m_threads m)"
    by (simp add: run_thread_def t)
qed (simp_all add: run_thread_def update_conv' split: prod.split)

lemma run_thread_inv:
  assumes "monitor_inv m" "map_of (m_threads m) k = Some r"
  shows "monitor_inv (run_thread k r x m)"
proof -
  have d: "distinct (map fst (m_threads m))" using assms(1) by (simp add: monitor_inv_def)
  note f = run_thread_facts [OF assms(2) d, of x]
  obtain t st where t: "check_task x (rn_thread r) (m_status m) = (t, st)" by (cases "check_task x (rn_thread r) (m_status m)")
  have "map fst (m_threads (run_thread k r x m)) = map fst (m_threads m)"
    by (simp only: skeleton_keys [of "m_threads (run_thread k r x m)"] f(1) skeleton_keys [of "m_threads m"])
  with assms check_task_same(2) [OF t] show ?thesis
    unfolding monitor_inv_def f(2,3) by (auto simp: t)
qed

lemma swap_facts:
  fixes alive :: "nat \<Rightarrow> bool" and d :: "(int \<times> check) list" and m :: monitor
  assumes inv: "monitor_inv m" and d: "distinct (map fst d)"
  defines "m' \<equiv> swap_threads (plan_stops alive d m) (plan_starts alive d m) m"
  shows "monitor_inv m'" and "fst ` set (m_threads m') = fst ` set d" and "m_status m' = m_status m"
    and "m_next m \<le> m_next m'"
    and "map_of (m_threads m') k = Some r \<Longrightarrow> map_of (m_threads m) k = Some r \<or> m_next m \<le> rn_serial r"
proof -
  obtain mc stopped where c: "reconcile alive alive d m = (mc, stopped)" by (cases "reconcile alive alive d m")
  then have mc: "mc = clean_status (fst ` set d) m'" by (simp add: reconcile_parts m'_def)
  then have th: "m_threads mc = m_threads m'" "m_next mc = m_next m'" by (simp_all add: clean_status_def)
  note t = reconcile_thread [OF inv d c]
  show inv': "monitor_inv m'" using t(1) th by (simp add: monitor_inv_def)
  have "map_of (m_threads m') i = None \<longleftrightarrow> map_of d i = None" for i
  proof (cases "map_of d i")
    case (Some c)
    then show ?thesis
      using t(4) [OF Some] t(5) [OF Some] th(1)
      by (cases "\<exists>r. map_of (m_threads m) i = Some r \<and> alive (rn_serial r) \<and> ct_check (rn_thread r) = c") auto
  qed (use t(3) th(1) in simp)
  then show "fst ` set (m_threads m') = fst ` set d"
    by (auto simp: map_of_eq_None_iff)
  have kept: "monitor_inv (m\<lparr>m_threads := foldl (\<lambda>ts r. AList.delete (ct_content_id (rn_thread r)) ts) (m_threads m) (plan_stops alive d m)\<rparr>)"
    by (rule inv_delete_all [OF inv])
  have "distinct (map fst (plan_starts alive d m))"
  proof -
    have T: "distinct (map fst (m_threads m))" using inv by (simp add: monitor_inv_def)
    have "fst ` set (replacements alive d (m_threads m)) \<subseteq> fst ` set (m_threads m)" by (rule replacements_keys)
    moreover have "fst ` set (filter (\<lambda>(i, c). map_of (m_threads m) i = None) d) \<inter> fst ` set (m_threads m) = {}"
      by (force simp: map_of_eq_None_iff)
    ultimately show ?thesis
      using distinct_replacements [OF T] d by (auto simp: plan_starts_def distinct_map_filter)
  qed
  from start_all [OF kept this]
  show "m_status m' = m_status m" "m_next m \<le> m_next m'" by (simp_all add: m'_def swap_threads_def)
  show "map_of (m_threads m) k = Some r \<or> m_next m \<le> rn_serial r" if "map_of (m_threads m') k = Some r"
  proof (cases "map_of d k")
    case None
    with t(3) th that show ?thesis by simp
  next
    case (Some c)
    with t(4) [OF Some] t(5) [OF Some] th that show ?thesis
      by (cases "\<exists>r. map_of (m_threads m) k = Some r \<and> alive (rn_serial r) \<and> ct_check (rn_thread r) = c") auto
  qed
qed

lemma system_inv_init: "system_inv system_init"
  by (simp add: system_inv_def system_init_def monitor_inv_def phase_inv_def)

lemma phase_inv_cong:
  assumes "phase_inv m p" "skeleton (m_threads m') = skeleton (m_threads m)"
  shows "phase_inv m' p"
proof -
  have "fst ` set (m_threads m') = fst ` set (m_threads m)"
    by (metis assms(2) list.set_map skeleton_keys)
  with assms(1) skeleton_plan [OF assms(2)] show ?thesis
    by (cases p) (auto simp: phase_inv_def)
qed

lemma run_straggler_facts [simp]:
  "m_threads (run_straggler r x m) = m_threads m" "m_next (run_straggler r x m) = m_next m"
  "m_status (run_straggler r x m) = snd (check_task x (rn_thread r) (m_status m))"
  by (simp_all add: run_straggler_def)

lemma clean_status_facts [simp]:
  "m_threads (clean_status v m) = m_threads m" "m_next (clean_status v m) = m_next m"
  "m_status (clean_status v m) = m_status m \<inter> v"
  by (simp_all add: clean_status_def registry_retain_def)

lemma monitor_inv_cong:
  "m_threads m' = m_threads m \<Longrightarrow> m_next m' = m_next m \<Longrightarrow> monitor_inv m' = monitor_inv m"
  by (simp add: monitor_inv_def)

text \<open>A reconciliation's swap, in a state whose threads have run since the plan was made.\<close>

lemma swapped_facts:
  assumes "system_inv s" "sy_phase s = Joining stops starts d"
  defines "m' \<equiv> swap_threads stops starts (sy_monitor s)"
  shows "monitor_inv m'" and "fst ` set (m_threads m') = fst ` set d" and "m_status m' = sy_status s"
    and "m_next (sy_monitor s) \<le> m_next m'"
    and "map_of (m_threads m') k = Some r \<Longrightarrow>
       map_of (sy_threads s) k = Some r \<or> m_next (sy_monitor s) \<le> rn_serial r"
proof -
  from assms(1,2) obtain alive where p: "distinct (map fst d)" "starts = plan_starts alive d (sy_monitor s)"
      "content_ids stops = content_ids (plan_stops alive d (sy_monitor s))"
    by (auto simp: system_inv_def phase_inv_def)
  have m': "m' = swap_threads (plan_stops alive d (sy_monitor s)) (plan_starts alive d (sy_monitor s)) (sy_monitor s)"
    unfolding m'_def p(2) by (rule swap_ids [OF p(3)])
  have "monitor_inv (sy_monitor s)" using assms(1) by (simp add: system_inv_def)
  note f = swap_facts [OF this p(1), of alive, folded m']
  show "monitor_inv m'" "fst ` set (m_threads m') = fst ` set d" "m_status m' = sy_status s"
    "m_next (sy_monitor s) \<le> m_next m'" by (rule f)+
  show "map_of (m_threads m') k = Some r \<Longrightarrow>
      map_of (sy_threads s) k = Some r \<or> m_next (sy_monitor s) \<le> rn_serial r" by (rule f)
qed

lemma desired_checks_distinct: "desired_checks env loads rows = Inr (Some d) \<Longrightarrow> distinct (map fst d)"
  by (cases rows) (auto simp: desired_checks_def intro!: distinct_desired_loop split: py_error.splits)

lemma sys_step_inv:
  assumes "sys_step env loads s ev s'" "system_inv s"
  shows "system_inv s'"
  using assms
proof (cases rule: sys_step.cases)
  case (polled rows d)
  then show ?thesis
    using assms(2) desired_checks_distinct by (auto simp: system_inv_def phase_inv_def)
next
  case (swapped stops starts d exited)
  from swapped_facts(1,2) [OF assms(2) swapped(3)] show ?thesis
    by (simp add: swapped(2) system_inv_def phase_inv_def)
next
  case (ran k r outcome)
  have inv: "monitor_inv (sy_monitor s)" "phase_inv (sy_monitor s) (sy_phase s)"
    using assms(2) by (simp_all add: system_inv_def)
  have d: "distinct (map fst (sy_threads s))" using inv(1) by (simp add: monitor_inv_def)
  from run_thread_inv [OF inv(1) ran(3), of outcome]
    phase_inv_cong [OF inv(2) run_thread_facts(1) [OF ran(3) d, of outcome]]
  show ?thesis by (simp add: ran(2) system_inv_def)
next
  case (late r outcome)
  let ?m = "run_straggler r outcome (sy_monitor s)"
  have "monitor_inv ?m = monitor_inv (sy_monitor s)" by (rule monitor_inv_cong) simp_all
  moreover have "phase_inv (sy_monitor s) (sy_phase s) \<Longrightarrow> phase_inv ?m (sy_phase s)"
    by (erule phase_inv_cong) simp
  ultimately show ?thesis using assms(2) by (simp add: system_inv_def late(2))
next
  case (cleaned valid_ids)
  have "monitor_inv (clean_status valid_ids (sy_monitor s)) = monitor_inv (sy_monitor s)"
    by (rule monitor_inv_cong) simp_all
  then show ?thesis using assms(2) by (simp add: system_inv_def phase_inv_def cleaned(2))
qed (simp_all add: system_inv_def)

text \<open>A thread after a step is one from before, with its check, or has a fresh serial.\<close>

lemma sys_step_threads:
  assumes "sys_step env loads s ev s'" "system_inv s"
  shows "m_next (sy_monitor s) \<le> m_next (sy_monitor s')"
    and "map_of (sy_threads s') k = Some r' \<Longrightarrow> rn_serial r' < m_next (sy_monitor s) \<Longrightarrow>
      \<exists>r. map_of (sy_threads s) k = Some r \<and> rn_serial r' = rn_serial r
        \<and> ct_check (rn_thread r') = ct_check (rn_thread r) \<and> ct_content_id (rn_thread r') = ct_content_id (rn_thread r)"
proof -
  have d: "distinct (map fst (sy_threads s))" using assms(2) by (simp add: system_inv_def monitor_inv_def)
  show "m_next (sy_monitor s) \<le> m_next (sy_monitor s')" using assms(1)
  proof (cases rule: sys_step.cases)
    case (swapped stops starts d exited)
    with swapped_facts(4) [OF assms(2) swapped(3)] show ?thesis by simp
  next
    case (ran k r outcome)
    with run_thread_facts(2) [OF ran(3) d] show ?thesis by simp
  qed simp_all
  assume r': "map_of (sy_threads s') k = Some r'" "rn_serial r' < m_next (sy_monitor s)"
  show "\<exists>r. map_of (sy_threads s) k = Some r \<and> rn_serial r' = rn_serial r
      \<and> ct_check (rn_thread r') = ct_check (rn_thread r) \<and> ct_content_id (rn_thread r') = ct_content_id (rn_thread r)"
    using assms(1)
  proof (cases rule: sys_step.cases)
    case (swapped stops starts d exited)
    with swapped_facts(5) [OF assms(2) swapped(3), of k r'] r' show ?thesis by auto
  next
    case (ran j r outcome)
    with r'(1) run_thread_facts(3) [OF ran(3) d, of outcome] check_task_same [OF prod.collapse [symmetric], where x = outcome and t = "rn_thread r"]
    show ?thesis by (auto split: if_splits)
  qed (use r' in simp_all)
qed

subsection \<open>The debounce over a window\<close>

text \<open>
  What the runs of one thread within a window of an execution say of its counters and of its content.
\<close>

definition window_verdict :: "int \<Rightarrow> running \<Rightarrow> bool result list \<Rightarrow> status_registry \<Rightarrow> bool" where
  "window_verdict k r xs status \<longleftrightarrow>
     (let t = rn_thread r; failures = trailing (\<lambda>x. \<not> healthy x) xs; successes = trailing healthy xs
      in failures \<le> ct_fall t \<and> successes \<le> ct_rise t
       \<and> (0 < failures \<and> ck_fall (ct_check t) \<le> int failures \<longrightarrow> k \<in> status)
       \<and> (0 < successes \<and> ck_rise (ct_check t) \<le> int successes \<longrightarrow> k \<notin> status))"

lemma window_verdict_run:
  assumes "window_verdict k r xs status" "check_task x (rn_thread r) status = (t, status')"
    and "ct_content_id (rn_thread r) = k"
  shows "window_verdict k (r\<lparr>rn_thread := t\<rparr>) (xs @ [x]) status'"
  using assms
  by (cases "healthy x")
     (auto simp: window_verdict_def Let_def check_task_cases check_rise_def check_fall_def split: if_splits)

lemma window_verdict_cong:
  assumes "window_verdict k r xs status" "k \<in> status' \<longleftrightarrow> k \<in> status"
  shows "window_verdict k r xs status'"
  using assms by (simp add: window_verdict_def)

text \<open>One step keeps the verdict, unless it is a straggler's run for the same content.\<close>

lemma sys_step_verdict:
  assumes step: "sys_step env loads s ev s'" and inv: "system_inv s"
    and r: "map_of (sy_threads s) k = Some r" and v: "window_verdict k r xs (sy_status s)"
    and r': "map_of (sy_threads s') k = Some r'" "rn_serial r' = rn_serial r" and late: "\<not> late_for k ev"
  shows "window_verdict k r' (xs @ (case run_of (rn_serial r) ev of None \<Rightarrow> [] | Some x \<Rightarrow> [x])) (sy_status s')"
proof -
  have m: "monitor_inv (sy_monitor s)" using inv by (simp add: system_inv_def)
  then have d: "distinct (map fst (sy_threads s))" by (simp add: monitor_inv_def)
  have id: "ct_content_id (rn_thread q) = j" "rn_serial q < m_next (sy_monitor s)"
    if "map_of (sy_threads s) j = Some q" for j q
    using m that by (simp_all add: monitor_inv_def)
  show ?thesis using step
  proof (cases rule: sys_step.cases)
    case (swapped stops starts D exited)
    note f = swapped_facts [OF inv swapped(3)]
    have "r' = r" using f(5) [of k r'] r' id(2) [OF r] by (simp add: swapped(2) r)
    with v show ?thesis by (simp add: swapped f(3))
  next
    case (cleaned valid_ids)
    have "k \<in> valid_ids"
      using inv r by (auto simp: system_inv_def phase_inv_def cleaned(3) dest: map_of_SomeD intro: rev_image_eqI)
    moreover have "r' = r" using r r'(1) by (simp add: cleaned(2))
    ultimately show ?thesis using v by (simp add: cleaned window_verdict_def)
  next
    case (ran j q outcome)
    obtain t status' where t: "check_task outcome (rn_thread q) (sy_status s) = (t, status')"
      by (cases "check_task outcome (rn_thread q) (sy_status s)")
    note f = run_thread_facts [OF ran(3) d, of outcome]
    show ?thesis
    proof (cases "j = k")
      case True
      then have "q = r" using ran(3) r by simp
      have "r' = r\<lparr>rn_thread := t\<rparr>" using r'(1) f(3) t True by (simp add: ran(2) \<open>q = r\<close>)
      with window_verdict_run [OF v t [unfolded \<open>q = r\<close>] id(1) [OF r]] show ?thesis
        by (simp add: ran(1,2) f(4) [unfolded t \<open>q = r\<close>] t [unfolded \<open>q = r\<close>] \<open>q = r\<close>)
    next
      case False
      have "rn_serial q \<noteq> rn_serial r" using m ran(3) r False by (auto simp: monitor_inv_def)
      moreover have "r' = r" using r'(1) f(3) r False by (simp add: ran(2))
      moreover have "k \<in> status' \<longleftrightarrow> k \<in> sy_status s"
        by (rule check_task_same(3) [OF t]) (use id(1) [OF ran(3)] False in simp)
      ultimately show ?thesis using v by (simp add: ran(1,2) f(4) t window_verdict_def)
    qed
  next
    case (late q outcome)
    obtain t status' where t: "check_task outcome (rn_thread q) (sy_status s) = (t, status')"
      by (cases "check_task outcome (rn_thread q) (sy_status s)")
    have "k \<in> status' \<longleftrightarrow> k \<in> sy_status s"
      by (rule check_task_same(3) [OF t]) (use \<open>\<not> late_for k ev\<close> late(1) in \<open>auto simp: late_for_def\<close>)
    moreover have "r' = r" using r r'(1) by (simp add: late(2))
    ultimately show ?thesis using v by (simp add: late(1,2) t window_verdict_def)
  qed (use r r' v in simp_all)
qed

lemma sys_run_verdict:
  assumes "sys_run env loads s evs s'" "system_inv s" "map_of (sy_threads s) k = Some r" "\<not> list_ex (late_for k) evs"
  shows "system_inv s' \<and> m_next (sy_monitor s) \<le> m_next (sy_monitor s') \<and>
    (\<forall>r'. map_of (sy_threads s') k = Some r' \<and> rn_serial r' = rn_serial r \<longrightarrow>
       ct_check (rn_thread r') = ct_check (rn_thread r)
       \<and> window_verdict k r' (runs_of (rn_serial r) evs) (sy_status s'))"
  using assms
proof (induction rule: sys_run.induct)
  case run_nil
  have "window_verdict k r (runs_of (rn_serial r) []) (sy_status s)"
    by (simp add: window_verdict_def trailing_def)
  moreover have "r' = r" if "map_of (sy_threads s) k = Some r'" for r'
    using that run_nil.prems(2) by simp
  ultimately show ?case using run_nil.prems(1) by blast
next
  case (run_step evs s1 ev s2)
  then have IH: "system_inv s1" "m_next (sy_monitor s) \<le> m_next (sy_monitor s1)"
      "\<And>r'. map_of (sy_threads s1) k = Some r' \<Longrightarrow> rn_serial r' = rn_serial r \<Longrightarrow>
         ct_check (rn_thread r') = ct_check (rn_thread r) \<and> window_verdict k r' (runs_of (rn_serial r) evs) (sy_status s1)"
    by auto
  note st = sys_step_threads [OF run_step.hyps(2) IH(1)]
  have old: "rn_serial r < m_next (sy_monitor s)"
    using run_step.prems(1,2) by (simp add: system_inv_def monitor_inv_def)
  have "ct_check (rn_thread r2) = ct_check (rn_thread r)
      \<and> window_verdict k r2 (runs_of (rn_serial r) (evs @ [ev])) (sy_status s2)"
    if r2: "map_of (sy_threads s2) k = Some r2" "rn_serial r2 = rn_serial r" for r2
  proof -
    from st(2) [OF r2(1)] r2(2) old IH(2) obtain r1 where
      r1: "map_of (sy_threads s1) k = Some r1" "rn_serial r2 = rn_serial r1"
        "ct_check (rn_thread r2) = ct_check (rn_thread r1)" by auto
    from r1(2) r2(2) have n: "rn_serial r1 = rn_serial r" by simp
    have late: "\<not> late_for k ev" using run_step.prems(3) by simp
    from IH(3) [OF r1(1) n] have "window_verdict k r1 (runs_of (rn_serial r) evs) (sy_status s1)" by blast
    from sys_step_verdict [OF run_step.hyps(2) IH(1) r1(1) this r2(1) r1(2) late] IH(3) [OF r1(1) n] r1(3) n
    show ?thesis by simp
  qed
  with sys_step_inv [OF run_step.hyps(2) IH(1)] st(1) IH(2) show ?case by simp
qed

subsection \<open>The confinement of the registry\<close>

lemma sys_run_inv: "sys_run env loads s evs s' \<Longrightarrow> system_inv s \<Longrightarrow> system_inv s'"
  by (induction rule: sys_run.induct) (auto dest: sys_step_inv)

definition confined :: "monitor_system \<Rightarrow> int set \<Rightarrow> bool" where
  "confined s late \<longleftrightarrow>
     (\<forall>k. k \<in> sy_status s \<longrightarrow> map_of (sy_threads s) k = None \<longrightarrow> (\<forall>v. sy_phase s \<noteq> Cleaning v) \<longrightarrow> k \<in> late)"

lemma sys_step_confined:
  assumes "sys_step env loads s ev s'" "system_inv s" "confined s (late_since_clean evs)"
  shows "confined s' (late_since_clean (evs @ [ev]))"
  using assms(1)
proof (cases rule: sys_step.cases)
  case (cleaned valid_ids)
  have "fst ` set (sy_threads s) = valid_ids" using assms(2) by (simp add: system_inv_def phase_inv_def cleaned(3))
  then show ?thesis by (auto simp: confined_def cleaned map_of_eq_None_iff)
next
  case (ran j q outcome)
  have m: "monitor_inv (sy_monitor s)" using assms(2) by (simp add: system_inv_def)
  then have d: "distinct (map fst (sy_threads s))" by (simp add: monitor_inv_def)
  obtain t status' where t: "check_task outcome (rn_thread q) (sy_status s) = (t, status')"
    by (cases "check_task outcome (rn_thread q) (sy_status s)")
  have "ct_content_id (rn_thread q) = j" using m ran(3) by (simp add: monitor_inv_def)
  with check_task_same(3) [OF t] run_thread_facts(3,4) [OF ran(3) d, of outcome] assms(3) t
  show ?thesis by (auto simp: confined_def ran(1,2) late_for_def split: if_splits)
next
  case (late q outcome)
  obtain t status' where t: "check_task outcome (rn_thread q) (sy_status s) = (t, status')"
    by (cases "check_task outcome (rn_thread q) (sy_status s)")
  from check_task_same(3) [OF t] assms(3) t show ?thesis
    by (auto simp: confined_def late(1,2) late_for_def)
qed (use assms(3) in \<open>auto simp: confined_def late_for_def\<close>)

lemma sys_run_confined: "sys_run env loads system_init evs s \<Longrightarrow> system_inv s \<and> confined s (late_since_clean evs)"
proof (induction rule: sys_run.induct)
  case run_nil
  then show ?case by (simp add: system_inv_init confined_def) (simp add: system_init_def registry_init_def)
next
  case (run_step evs s1 ev s2)
  then show ?case using sys_step_inv sys_step_confined by blast
qed

subsection \<open>Properties\<close>


text \<open>
  C4: in any window of an execution in which a check thread lives and no abandoned thread writes its content, the
  content is down at the end if the last \<open>fall\<close> runs of the thread failed, and up if the last \<open>rise\<close> ones
  succeeded, whatever the polls and the other threads did in between.
\<close>

theorem window_debounce:
  assumes "sys_run env loads system_init before s" and "sys_run env loads s window s'"
    and "map_of (sy_threads s) k = Some r" and "map_of (sy_threads s') k = Some r'" and "rn_serial r' = rn_serial r"
    and "\<not> list_ex (late_for k) window"
  defines "outcomes \<equiv> runs_of (rn_serial r) window" and "c \<equiv> ct_check (rn_thread r)"
  shows "ct_check (rn_thread r') = c
    \<and> (0 < trailing (\<lambda>x. \<not> healthy x) outcomes \<and> ck_fall c \<le> int (trailing (\<lambda>x. \<not> healthy x) outcomes) \<longrightarrow> k \<in> sy_status s')
    \<and> (0 < trailing healthy outcomes \<and> ck_rise c \<le> int (trailing healthy outcomes) \<longrightarrow> k \<notin> sy_status s')"
proof -
  have "system_inv s" using sys_run_inv [OF assms(1) system_inv_init] .
  from sys_run_verdict [OF assms(2) this assms(3,6)] assms(4,5)
  have "ct_check (rn_thread r') = c" "window_verdict k r' outcomes (sy_status s')"
    unfolding outcomes_def c_def by blast+
  then show ?thesis by (simp add: window_verdict_def Let_def)
qed

text \<open>A demonstration: one monitored record whose check fails three times.\<close>

lemma sys_run_append:
  assumes "sys_run env loads s1 evs' s2" "sys_run env loads s evs s1"
  shows "sys_run env loads s (evs @ evs') s2"
  using assms
proof (induction rule: sys_run.induct)
  case (run_step evs' s1' ev s2)
  then show ?case using sys_run.run_step [of env loads s "evs @ evs'" s1' ev s2] by simp
qed simp

lemma sys_run_one: "sys_step env loads s ev s' \<Longrightarrow> sys_run env loads s [ev] s'"
  using sys_run.run_step [OF sys_run.run_nil] by fastforce

lemma sys_run_Cons: "sys_step env loads s ev s1 \<Longrightarrow> sys_run env loads s1 evs s' \<Longrightarrow> sys_run env loads s (ev # evs) s'"
  using sys_run_append [OF _ sys_run_one] by fastforce

definition demo_running :: "nat \<Rightarrow> running" where
  "demo_running n = \<lparr>rn_thread = (check_thread_init demo_check 1)\<lparr>ct_fall := n\<rparr>, rn_serial = 0\<rparr>"

definition demo_system :: "nat \<Rightarrow> int set \<Rightarrow> monitor_phase \<Rightarrow> monitor_system" where
  "demo_system n status p = \<lparr>sy_monitor = \<lparr>m_threads = [(1, demo_running n)], m_next = 1, m_status = status\<rparr>,
     sy_dead = {}, sy_stragglers = [], sy_phase = p\<rparr>"

lemma demo_desired: "desired_checks demo_check_env demo_loads (Inr demo_raws) = Inr (Some [(1, demo_check)])"
  by code_simp

lemma demo_started: "sys_run demo_check_env demo_loads system_init [Polled, Swapped {}, Cleaned] (demo_system 0 {} Idle)"
proof (intro sys_run_Cons)
  let ?s = "system_init\<lparr>sy_phase := Joining [] [(1, demo_check)] [(1, demo_check)]\<rparr>"
  show "sys_step demo_check_env demo_loads system_init Polled ?s"
    using sys_step.polled [OF _ demo_desired, of system_init]
    by (simp add: system_init_def plan_stops_def plan_starts_def replacements_def map_filter_simps)
  show "sys_step demo_check_env demo_loads ?s (Swapped {}) (demo_system 0 {} (Cleaning {1}))"
    using sys_step.swapped [of ?s "[]" "[(1, demo_check)]" "[(1, demo_check)]" demo_check_env demo_loads "{}"]
    by (simp add: system_init_def registry_init_def demo_system_def demo_running_def swap_threads_def
        start_thread_def abandoned_def check_thread_init_def)
  show "sys_step demo_check_env demo_loads (demo_system 0 {} (Cleaning {1})) Cleaned (demo_system 0 {} Idle)"
    using sys_step.cleaned [of "demo_system 0 {} (Cleaning {1})" "{1}"]
    by (simp add: demo_system_def clean_status_def registry_retain_def)
qed (rule sys_run.run_nil)

lemma demo_failing:
  assumes "status' = (if 3 \<le> Suc n then insert 1 status else status)"
  shows "sys_step demo_check_env demo_loads (demo_system n status p) (Ran 0 (Inr False)) (demo_system (Suc n) status' p)"
  using sys_step.ran [of "demo_system n status p" 1 "demo_running n" demo_check_env demo_loads "Inr False"] assms
  by (auto simp: demo_system_def demo_running_def run_thread_def check_task_def check_fall_def demo_check_def
      check_thread_init_def Let_def insert_absorb split: if_splits)

lemma demo_failed:
  "sys_run demo_check_env demo_loads (demo_system 0 {} Idle) (replicate 3 (Ran 0 (Inr False))) (demo_system 3 {1} Idle)"
proof -
  have "sys_run demo_check_env demo_loads (demo_system 0 {} Idle)
      [Ran 0 (Inr False), Ran 0 (Inr False), Ran 0 (Inr False)] (demo_system (Suc (Suc (Suc 0))) {1} Idle)"
    by (intro sys_run_Cons) ((rule demo_failing, simp)+, rule sys_run.run_nil)
  then show ?thesis by (simp add: eval_nat_numeral)
qed

lemma demo_outcomes: "runs_of 0 (replicate 3 (Ran 0 (Inr False))) = [Inr False, Inr False, Inr False]"
  by code_simp


theorem window_debounce_witness:
  "1 \<in> sy_status (demo_system 3 {1} Idle)"
proof -
  have th: "map_of (sy_threads (demo_system 0 {} Idle)) 1 = Some (demo_running 0)"
    "map_of (sy_threads (demo_system 3 {1} Idle)) 1 = Some (demo_running 3)"
    by (simp_all add: demo_system_def)
  have n: "rn_serial (demo_running 3) = rn_serial (demo_running 0)" by (simp add: demo_running_def)
  have late: "\<not> list_ex (late_for 1) (replicate 3 (Ran 0 (Inr False)))"
    by (simp add: late_for_def numeral_eq_Suc)
  have c: "ck_fall (ct_check (rn_thread (demo_running 0))) = 3" "rn_serial (demo_running 0) = 0"
    by (simp_all add: demo_running_def check_thread_init_def demo_check_def)
  have f: "trailing (\<lambda>x. \<not> healthy x) [Inr False, Inr False, Inr False] = 3" by code_simp
  from window_debounce [OF demo_started demo_failed th n late] show ?thesis
    unfolding c demo_outcomes f by simp
qed

end
