(* ===== verification/Monitor_Shutdown.thy ===== *)
theory Monitor_Shutdown
  imports Monitor_System_Properties
begin

section \<open>Shutting the monitor down\<close>

text \<open>
  \<open>shutdown\<close> of \<open>monitor/monitor.py\<close> during an execution of \<open>Monitor_System\<close>: it signals the check threads the monitor
  holds at that moment, then the monitor itself, and waits for neither. By the loop of \<open>monitor/thread.py\<close> a signalled
  thread completes at most the task it is in: a check thread one more run, the monitor the reconciliation that it
  has begun, or the poll whose rows it is reading. The threads that reconciliation starts are not signalled.
\<close>

record winding =
  wd_system :: monitor_system
  wd_signalled :: "nat set"
  wd_spent :: "nat set"
  wd_poll :: bool

definition signal_shutdown :: "monitor_system \<Rightarrow> winding" where
  "signal_shutdown s =
     \<lparr>wd_system = s, wd_signalled = set (monitor_shutdown (sy_monitor s)), wd_spent = {}, wd_poll = (sy_phase s = Idle)\<rparr>"

fun may_happen :: "winding \<Rightarrow> sys_event \<Rightarrow> bool" where
  "may_happen w (Ran n _) = (n \<notin> wd_spent w)"
| "may_happen w Polled = wd_poll w"
| "may_happen w Poll_Failed = wd_poll w"
| "may_happen w _ = True"

fun wind :: "sys_event \<Rightarrow> winding \<Rightarrow> winding" where
  "wind (Ran n _) w = (if n \<in> wd_signalled w then w\<lparr>wd_spent := insert n (wd_spent w)\<rparr> else w)"
| "wind Polled w = w\<lparr>wd_poll := False\<rparr>"
| "wind Poll_Failed w = w\<lparr>wd_poll := False\<rparr>"
| "wind _ w = w"

inductive down_run ::
    "check_env \<Rightarrow> (string \<Rightarrow> pyval result) \<Rightarrow> winding \<Rightarrow> sys_event list \<Rightarrow> winding \<Rightarrow> bool"
  for env loads w where
  down_nil: "down_run env loads w [] w"
| down_step: "down_run env loads w evs u \<Longrightarrow> sys_step env loads (wd_system u) ev s' \<Longrightarrow> may_happen u ev \<Longrightarrow>
    down_run env loads w (evs @ [ev]) (wind ev (u\<lparr>wd_system := s'\<rparr>))"

subsection \<open>What can still happen\<close>

fun is_poll :: "sys_event \<Rightarrow> bool" where
  "is_poll Polled = True"
| "is_poll Poll_Failed = True"
| "is_poll _ = False"

fun is_swap :: "sys_event \<Rightarrow> bool" where
  "is_swap (Swapped _) = True"
| "is_swap _ = False"

fun is_joining :: "monitor_phase \<Rightarrow> bool" where
  "is_joining (Joining _ _ _) = True"
| "is_joining _ = False"

definition winding_inv :: "nat \<Rightarrow> nat set \<Rightarrow> sys_event list \<Rightarrow> winding \<Rightarrow> bool" where
  "winding_inv next held evs w \<longleftrightarrow>
     system_inv (wd_system w) \<and> next \<le> m_next (sy_monitor (wd_system w)) \<and> wd_signalled w = held
     \<and> (\<forall>k r. map_of (sy_threads (wd_system w)) k = Some r \<longrightarrow> rn_serial r < next \<longrightarrow> rn_serial r \<in> held)
     \<and> (wd_poll w \<longrightarrow> sy_phase (wd_system w) = Idle)
     \<and> length (filter is_poll evs) \<le> 1 \<and> (wd_poll w \<longrightarrow> filter is_poll evs = [])
     \<and> length (filter is_swap evs) \<le> 1
     \<and> (wd_poll w \<or> is_joining (sy_phase (wd_system w)) \<longrightarrow> filter is_swap evs = [])
     \<and> (\<forall>n \<in> held. length (runs_of n evs) \<le> of_bool (n \<in> wd_spent w))
     \<and> (\<forall>n < next. n \<notin> held \<longrightarrow> runs_of n evs = [])"

lemma wind_simps [simp]:
  "wd_system (wind ev w) = wd_system w" "wd_signalled (wind ev w) = wd_signalled w"
  "wd_poll (wind ev w) = (wd_poll w \<and> \<not> is_poll ev)"
  by (cases ev; simp)+

lemma down_run_sys_run:
  "down_run env loads w evs u \<Longrightarrow> sys_run env loads (wd_system w) evs (wd_system u)"
proof (induction rule: down_run.induct)
  case down_nil
  then show ?case by (rule sys_run.run_nil)
next
  case (down_step evs u ev s')
  from sys_run.run_step [OF down_step.IH down_step.hyps(2)] show ?case by simp
qed

lemma winding_threads:
  assumes "winding_inv next held evs u" and "sys_step env loads (wd_system u) ev s'"
  shows "system_inv s'" and "next \<le> m_next (sy_monitor s')"
    and "map_of (sy_threads s') k = Some r \<Longrightarrow> rn_serial r < next \<Longrightarrow> rn_serial r \<in> held"
proof -
  have inv: "system_inv (wd_system u)" "next \<le> m_next (sy_monitor (wd_system u))"
    using assms(1) by (simp_all add: winding_inv_def)
  show "system_inv s'" by (rule sys_step_inv [OF assms(2) inv(1)])
  show "next \<le> m_next (sy_monitor s')" using sys_step_threads(1) [OF assms(2) inv(1)] inv(2) by simp
  assume "map_of (sy_threads s') k = Some r" "rn_serial r < next"
  with sys_step_threads(2) [OF assms(2) inv(1)] inv(2) obtain r0 where
    "map_of (sy_threads (wd_system u)) k = Some r0" "rn_serial r = rn_serial r0" by fastforce
  with \<open>rn_serial r < next\<close> assms(1) show "rn_serial r \<in> held" by (simp add: winding_inv_def)
qed

text \<open>Only a thread the monitor holds runs.\<close>

lemma winding_runs:
  assumes "winding_inv next held evs u" and "sys_step env loads (wd_system u) (Ran n outcome) s'" and "n < next"
  shows "n \<in> held"
  using assms(2)
proof (cases rule: sys_step.cases)
  case (ran k r)
  with assms(1, 3) show ?thesis by (auto simp: winding_inv_def)
qed

lemma winding_phase:
  assumes "sys_step env loads s ev s'"
  shows "is_poll ev \<Longrightarrow> sy_phase s = Idle" and "is_swap ev \<Longrightarrow> is_joining (sy_phase s) \<and> \<not> is_joining (sy_phase s')"
    and "is_joining (sy_phase s') \<Longrightarrow> is_joining (sy_phase s) \<or> is_poll ev" and "sy_phase s = Idle \<Longrightarrow> \<not> is_poll ev \<Longrightarrow> sy_phase s' = Idle"
  using assms by (cases rule: sys_step.cases; auto)+

lemma winding_inv_step:
  assumes inv: "winding_inv next held evs u" and step: "sys_step env loads (wd_system u) ev s'" and ok: "may_happen u ev"
  shows "winding_inv next held (evs @ [ev]) (wind ev (u\<lparr>wd_system := s'\<rparr>))"
proof -
  note phase = winding_phase [OF step]
  let ?w = "wind ev (u\<lparr>wd_system := s'\<rparr>)"
  have old: "wd_signalled u = held" "wd_poll u \<longrightarrow> sy_phase (wd_system u) = Idle"
    "length (filter is_poll evs) \<le> 1" "wd_poll u \<longrightarrow> filter is_poll evs = []" "length (filter is_swap evs) \<le> 1"
    "wd_poll u \<or> is_joining (sy_phase (wd_system u)) \<longrightarrow> filter is_swap evs = []"
    using inv by (simp_all add: winding_inv_def)
  have poll: "is_poll ev \<Longrightarrow> wd_poll u" using ok by (cases ev) simp_all
  have "length (filter is_poll (evs @ [ev])) \<le> 1 \<and> (wd_poll ?w \<longrightarrow> filter is_poll (evs @ [ev]) = [])"
    using old(3, 4) poll by (cases "is_poll ev") auto
  moreover have "wd_poll ?w \<longrightarrow> sy_phase (wd_system ?w) = Idle"
    using phase(4) old(2) by auto
  moreover have "length (filter is_swap (evs @ [ev])) \<le> 1
      \<and> (wd_poll ?w \<or> is_joining (sy_phase (wd_system ?w)) \<longrightarrow> filter is_swap (evs @ [ev]) = [])"
  proof (cases "is_swap ev")
    case True
    with phase(2) have j: "is_joining (sy_phase (wd_system u))" "\<not> is_joining (sy_phase s')" by blast+
    with old(2) have "\<not> wd_poll u" by auto
    with j True old(6) show ?thesis by simp
  next
    case False
    with phase(3) poll old(5, 6) show ?thesis by auto
  qed
  moreover have "\<forall>n \<in> held. length (runs_of n (evs @ [ev])) \<le> of_bool (n \<in> wd_spent ?w)"
    using inv ok by (cases ev) (auto simp: winding_inv_def split: if_splits)
  moreover have "\<forall>n < next. n \<notin> held \<longrightarrow> runs_of n (evs @ [ev]) = []"
  proof (intro allI impI)
    fix n
    assume n: "n < next" "n \<notin> held"
    then have "runs_of n evs = []" using inv by (simp add: winding_inv_def)
    moreover have "run_of n ev = None"
      using winding_runs [OF inv, of env loads n _ s'] step n by (cases ev) auto
    ultimately show "runs_of n (evs @ [ev]) = []" by simp
  qed
  ultimately show ?thesis
    using winding_threads [OF inv step] old(1) unfolding winding_inv_def by simp
qed

lemma winding_inv_start:
  assumes "system_inv s"
  shows "winding_inv (m_next (sy_monitor s)) (set (monitor_shutdown (sy_monitor s))) [] (signal_shutdown s)"
  using assms
  by (force simp: winding_inv_def signal_shutdown_def monitor_shutdown_def runs_of_def map_filter_simps split: monitor_phase.split
      dest!: map_of_SomeD)

lemma down_run_inv:
  "down_run env loads w evs u \<Longrightarrow> winding_inv next held [] w \<Longrightarrow> winding_inv next held evs u"
  by (induction rule: down_run.induct) (auto intro: winding_inv_step)



end
