(* ===== verification/Failover.thy ===== *)
theory Failover
  imports Monitor_System_Properties PowerDNS_Properties
begin

section \<open>Failover\<close>

text \<open>
  The health checks and the DNS side together: what the runs of a check thread mean for the answers of a
  lookup made on the same registry.
\<close>

lemma get_lookup_live:
  assumes "env_ok env (ctx_ip ctx)" and "records_ok records"
    and "get_lookup env status records ctx rng = Inr answers" and "a \<in> set answers"
    and "z \<in> set records" and "r_qtype z = a_qtype a" and "admits env ctx z" and "r_id z \<notin> status"
  shows "\<exists>y \<in> set records. a = shape_answer (a_scope a) y \<and> admits env ctx y \<and> r_id y \<notin> status"
proof -
  from get_lookup_source [OF assms(1-4)] obtain y where
    y: "y \<in> set records" "a = shape_answer (a_scope a) y" "admits env ctx y"
    "y \<in> set (candidates_of env status ctx (group_of records (a_qtype a)))" by blast
  have "list_ex (\<lambda>x. \<not> registry_is_down (r_id x) status) (filter (admits env ctx) (group_of records (a_qtype a)))"
    using assms(5-8) by (auto simp: list_ex_iff group_of_def)
  with candidates_precede [OF y(4)] have "r_id y \<notin> status" by (simp add: precedes_correctly_def Let_def)
  with y show ?thesis by blast
qed



end
