(* ===== verification/Service_Thread.thy ===== *)
theory Service_Thread
  imports Py_Prelude
begin

section \<open>The contract of a service thread\<close>

text \<open>
  \<open>system/thread.py\<close>: what the supervisor requires of a thread it starts, polls and stops. The code
  states it as a protocol, here it is a locale over the step relation of the thread: once the
  shutdown is signalled some step always brings the thread nearer its end. \<open>prompt_thread\<close> is the
  stronger contract of a thread that can make no other step. Both are interpreted by the monitor's
  thread loop and by the HTTP server.
\<close>

locale service_thread =
  fixes step :: "'s \<Rightarrow> 's \<Rightarrow> bool"
    and good :: "'s \<Rightarrow> bool"
    and signalled :: "'s \<Rightarrow> bool"
    and finished :: "'s \<Rightarrow> bool"
    and distance :: "'s \<Rightarrow> nat"
  assumes good_step: "good s \<Longrightarrow> step s t \<Longrightarrow> good t"
    and signalled_step: "good s \<Longrightarrow> signalled s \<Longrightarrow> step s t \<Longrightarrow> signalled t"
    and progress: "good s \<Longrightarrow> signalled s \<Longrightarrow> \<not> finished s \<Longrightarrow> \<exists>t. step s t \<and> distance t < distance s"
begin

lemma finishes:
  "good s \<Longrightarrow> signalled s \<Longrightarrow> \<exists>n t. n \<le> distance s \<and> (step ^^ n) s t \<and> finished t"
proof (induction "distance s" arbitrary: s rule: less_induct)
  case less
  show ?case
  proof (cases "finished s")
    case True
    then show ?thesis by (intro exI [of _ 0] exI [of _ s]) simp
  next
    case False
    with progress less.prems obtain t where t: "step s t" "distance t < distance s" by blast
    with less.hyps good_step signalled_step less.prems
    obtain n u where u: "n \<le> distance t" "(step ^^ n) t u" "finished u" by blast
    from t(1) u(2) have "(step ^^ Suc n) s u" by (rule relpowp_Suc_I2)
    with t(2) u show ?thesis by (intro exI [of _ "Suc n"] exI [of _ u]) simp
  qed
qed

end

locale prompt_thread = service_thread +
  assumes prompt: "good s \<Longrightarrow> signalled s \<Longrightarrow> step s t \<Longrightarrow> distance t < distance s"
begin

lemma runs:
  "(step ^^ n) s t \<Longrightarrow> good s \<Longrightarrow> signalled s \<Longrightarrow> good t \<and> signalled t \<and> n + distance t \<le> distance s"
proof (induction n arbitrary: t)
  case (Suc n)
  from Suc.prems(1) obtain u where u: "(step ^^ n) s u" "step u t" by (rule relpowp_Suc_E)
  with Suc.IH Suc.prems(2, 3) have ih: "good u" "signalled u" "n + distance u \<le> distance s" by blast+
  with prompt [OF ih(1, 2) u(2)] good_step [OF ih(1) u(2)] signalled_step [OF ih(1, 2) u(2)]
  show ?case by simp
qed simp

lemma drains:
  assumes "good s" and "signalled s" and "(step ^^ n) s t"
  shows "n + distance t \<le> distance s" and "finished t \<or> (\<exists>u. step t u)"
  using runs [OF assms(3, 1, 2)] progress by blast+

end

end
