(* ===== verification/Http_Server.thy ===== *)
theory Http_Server
  imports Config Service_Thread
begin

section \<open>The HTTP server thread\<close>

text \<open>
  \<open>server/http/server.py\<close>: the constructor, and the race between \<open>run\<close> in its thread and \<open>shutdown\<close> in
  the supervisor's. Each step below is one lock region or one call on the server; \<open>serve_forever\<close> and
  \<open>BaseServer.shutdown\<close> are taken apart as the standard library has them: entering clears the event
  \<open>is_shut_down\<close>, each poll tests the request, leaving resets the request and sets the event.
\<close>

subsection \<open>Configuration\<close>

record server_config =
  hs_address :: pyval
  hs_port :: pyval
  hs_ssl :: pyval
  hs_cert :: pyval
  hs_key :: pyval
  hs_ciphers :: pyval
  hs_root :: pyval
  hs_keep_alive :: pyval

definition section_item :: "(string \<times> pyval) list \<Rightarrow> string \<Rightarrow> pyval result" where
  "section_item items option = (case map_of items option of None \<Rightarrow> Inl (KeyError option) | Some v \<Rightarrow> Inr v)"

text \<open>\<open>get\<close> is the section's, with its default and environment override.\<close>

definition server_init ::
    "(string \<times> pyval) list \<Rightarrow> (string \<Rightarrow> pyval \<Rightarrow> pyval result) \<Rightarrow> string \<Rightarrow> server_config result" where
  "server_init items get default_root =
     bind_result (section_item items ''address'') (\<lambda>address.
     bind_result (section_item items ''port'') (\<lambda>port.
     bind_result (get ''ssl'' (PBool False)) (\<lambda>ssl.
     bind_result (get ''cert'' PNone) (\<lambda>cert.
     bind_result (get ''key'' PNone) (\<lambda>key.
       if truthy ssl \<and> \<not> truthy cert then Inl (ValueError ''TLS is enabled but no certificate is configured'')
       else
         bind_result (get ''ciphers'' PNone) (\<lambda>ciphers.
         bind_result (get ''root'' PNone) (\<lambda>root.
         bind_result (get ''keep_alive_timeout'' (PInt 300)) (\<lambda>keep_alive.
           Inr \<lparr>hs_address = address, hs_port = port, hs_ssl = ssl, hs_cert = cert, hs_key = key,
                hs_ciphers = ciphers, hs_root = (if truthy root then root else PStr default_root),
                hs_keep_alive = keep_alive\<rparr>))))))))"

subsection \<open>Running and stopping\<close>

datatype run_pc = Binding | Setup | Publish | Enter | Polling | Resetting | Setting | Closing | Dead

datatype stop_pc = Idle | Requesting | Awaiting | Joining | Returned

record http_state =
  h_run :: run_pc
  h_stop :: stop_pc
  h_stopping :: bool
  h_server :: bool
  h_request :: bool
  h_shut_down :: bool

definition http_init :: http_state where
  "http_init = \<lparr>h_run = Binding, h_stop = Idle, h_stopping = False, h_server = False,
     h_request = False, h_shut_down = False\<rparr>"

text \<open>\<open>with self._lock\<close> of \<open>run\<close>.\<close>

definition run_publish :: "http_state \<Rightarrow> http_state" where
  "run_publish s = (if h_stopping s then s\<lparr>h_run := Closing\<rparr> else s\<lparr>h_server := True, h_run := Enter\<rparr>)"

text \<open>\<open>with self._lock\<close> of \<open>shutdown\<close>, and the test of the server it found.\<close>

definition stop_lock :: "http_state \<Rightarrow> http_state" where
  "stop_lock s = s\<lparr>h_stopping := True, h_stop := (if h_server s then Requesting else Joining)\<rparr>"

text \<open>The constructor and the TLS setup may raise; so may a poll, and the \<open>finally\<close> of \<open>serve_forever\<close> runs.\<close>

inductive http_step :: "http_state \<Rightarrow> http_state \<Rightarrow> bool" where
  bind: "h_run s = Binding \<Longrightarrow> http_step s (s\<lparr>h_run := (if raised then Dead else Setup)\<rparr>)"
| wrap_tls: "h_run s = Setup \<Longrightarrow> http_step s (s\<lparr>h_run := (if raised then Closing else Publish)\<rparr>)"
| publish: "h_run s = Publish \<Longrightarrow> http_step s (run_publish s)"
| enter: "h_run s = Enter \<Longrightarrow> http_step s (s\<lparr>h_shut_down := False, h_run := Polling\<rparr>)"
| poll: "h_run s = Polling \<Longrightarrow> \<not> h_request s \<Longrightarrow> http_step s (s\<lparr>h_run := (if raised then Resetting else Polling)\<rparr>)"
| leave: "h_run s = Polling \<Longrightarrow> h_request s \<Longrightarrow> http_step s (s\<lparr>h_run := Resetting\<rparr>)"
| reset: "h_run s = Resetting \<Longrightarrow> http_step s (s\<lparr>h_request := False, h_run := Setting\<rparr>)"
| set_event: "h_run s = Setting \<Longrightarrow> http_step s (s\<lparr>h_shut_down := True, h_run := Closing\<rparr>)"
| close: "h_run s = Closing \<Longrightarrow> http_step s (s\<lparr>h_run := Dead\<rparr>)"
| stop: "h_stop s = Idle \<Longrightarrow> http_step s (stop_lock s)"
| request: "h_stop s = Requesting \<Longrightarrow> http_step s (s\<lparr>h_request := True, h_stop := Awaiting\<rparr>)"
| await: "h_stop s = Awaiting \<Longrightarrow> h_shut_down s \<Longrightarrow> http_step s (s\<lparr>h_stop := Joining\<rparr>)"
| join: "h_stop s = Joining \<Longrightarrow> h_run s = Dead \<or> timed_out \<Longrightarrow> http_step s (s\<lparr>h_stop := Returned\<rparr>)"

inductive_cases http_stepE: "http_step s s'"

inductive http_reachable :: "http_state \<Rightarrow> bool" where
  init: "http_reachable http_init"
| step: "http_reachable s \<Longrightarrow> http_step s s' \<Longrightarrow> http_reachable s'"

subsection \<open>The invariant\<close>

definition serving_pcs :: "run_pc set" where
  "serving_pcs = {Enter, Polling, Resetting, Setting}"

definition http_inv :: "http_state \<Rightarrow> bool" where
  "http_inv s \<longleftrightarrow>
     (h_stop s \<noteq> Idle \<longleftrightarrow> h_stopping s)
     \<and> (h_run s \<in> serving_pcs \<longrightarrow> h_server s)
     \<and> (h_server s \<longrightarrow> h_run s \<in> serving_pcs \<union> {Closing, Dead})
     \<and> (h_stop s \<in> {Requesting, Awaiting} \<longrightarrow> h_server s)
     \<and> (h_server s \<and> h_run s \<in> {Closing, Dead} \<longrightarrow> h_shut_down s)
     \<and> (h_shut_down s \<longrightarrow> h_run s \<in> {Closing, Dead})
     \<and> (h_stop s = Awaiting \<and> h_run s \<in> {Enter, Polling, Resetting} \<longrightarrow> h_request s)
     \<and> (h_stop s \<in> {Joining, Returned} \<and> h_server s \<longrightarrow> h_run s \<in> {Closing, Dead})"

lemma http_inv_step [invariants]: "http_inv s \<Longrightarrow> http_step s s' \<Longrightarrow> http_inv s'"
  by (erule http_stepE)
     (auto simp: http_inv_def serving_pcs_def run_publish_def stop_lock_def split: if_splits)

lemma http_reachable_inv: "http_reachable s \<Longrightarrow> http_inv s"
proof (induction rule: http_reachable.induct)
  case init
  then show ?case by (simp add: http_inv_def http_init_def serving_pcs_def)
qed (rule http_inv_step)

subsection \<open>Shutting down\<close>

fun run_rank :: "run_pc \<Rightarrow> nat" where
  "run_rank Binding = 8"
| "run_rank Setup = 7"
| "run_rank Publish = 6"
| "run_rank Enter = 5"
| "run_rank Polling = 4"
| "run_rank Resetting = 3"
| "run_rank Setting = 2"
| "run_rank Closing = 1"
| "run_rank Dead = 0"

fun stop_rank :: "stop_pc \<Rightarrow> nat" where
  "stop_rank Idle = 4"
| "stop_rank Requesting = 3"
| "stop_rank Awaiting = 2"
| "stop_rank Joining = 1"
| "stop_rank Returned = 0"

definition http_rank :: "http_state \<Rightarrow> nat" where
  "http_rank s = run_rank (h_run s) + stop_rank (h_stop s)"

lemma http_step_rank:
  "http_step s s' \<Longrightarrow> http_rank s' < http_rank s \<or> (h_run s = Polling \<and> \<not> h_request s)"
  by (erule http_stepE) (auto simp: http_rank_def run_publish_def stop_lock_def)

text \<open>The step the thread can make, in the order of its program.\<close>

lemma run_progress:
  assumes "h_run s \<noteq> Dead" and "h_run s = Polling \<Longrightarrow> h_request s"
  shows "\<exists>s'. http_step s s' \<and> http_rank s' < http_rank s"
proof (cases "h_run s")
  case Binding
  show ?thesis by (rule exI, rule conjI, rule http_step.bind [OF Binding, of True]) (simp add: http_rank_def Binding)
next
  case Setup
  show ?thesis by (rule exI, rule conjI, rule http_step.wrap_tls [OF Setup, of True]) (simp add: http_rank_def Setup)
next
  case Publish
  show ?thesis by (rule exI, rule conjI, rule http_step.publish [OF Publish]) (simp add: http_rank_def run_publish_def Publish)
next
  case Enter
  show ?thesis by (rule exI, rule conjI, rule http_step.enter [OF Enter]) (simp add: http_rank_def Enter)
next
  case Polling
  show ?thesis
    by (rule exI, rule conjI, rule http_step.leave [OF Polling assms(2) [OF Polling]]) (simp add: http_rank_def Polling)
next
  case Resetting
  show ?thesis by (rule exI, rule conjI, rule http_step.reset [OF Resetting]) (simp add: http_rank_def Resetting)
next
  case Setting
  show ?thesis by (rule exI, rule conjI, rule http_step.set_event [OF Setting]) (simp add: http_rank_def Setting)
next
  case Closing
  show ?thesis by (rule exI, rule conjI, rule http_step.close [OF Closing]) (simp add: http_rank_def Closing)
next
  case Dead
  with assms(1) show ?thesis by simp
qed

text \<open>What the invariant says at the waits of \<open>shutdown\<close>.\<close>

lemma http_inv_polling:
  "http_inv s \<Longrightarrow> h_stop s \<in> {Awaiting, Joining, Returned} \<Longrightarrow> h_run s = Polling \<Longrightarrow> h_request s"
  by (cases "h_stop s") (auto simp: http_inv_def serving_pcs_def)

lemma http_inv_awaiting:
  "http_inv s \<Longrightarrow> h_stop s = Awaiting \<Longrightarrow> h_run s = Dead \<or> (h_run s = Polling \<and> \<not> h_request s) \<Longrightarrow> h_shut_down s"
  by (cases "h_run s") (simp_all add: http_inv_def serving_pcs_def)

lemma http_inv_joining: "http_inv s \<Longrightarrow> h_stop s \<in> {Joining, Returned} \<Longrightarrow> h_run s \<notin> serving_pcs"
  by (cases "h_run s") (auto simp: http_inv_def serving_pcs_def)

lemma awaiting_step_rank:
  assumes "http_inv s" and "h_stop s \<in> {Awaiting, Joining, Returned}" and "http_step s s'"
  shows "http_rank s' < http_rank s"
  using http_step_rank [OF assms(3)] http_inv_polling [OF assms(1, 2)] by blast

lemma shutdown_progress:
  assumes inv: "http_inv s" and stop: "h_stop s \<noteq> Idle" and busy: "h_stop s \<noteq> Returned \<or> h_run s \<noteq> Dead"
  shows "\<exists>s'. http_step s s' \<and> http_rank s' < http_rank s"
proof (cases "h_run s = Dead \<or> (h_run s = Polling \<and> \<not> h_request s)")
  case False
  then show ?thesis by (intro run_progress) simp_all
next
  case True
  show ?thesis
  proof (cases "h_stop s")
    case Idle
    with stop show ?thesis by simp
  next
    case Requesting
    show ?thesis
      by (rule exI, rule conjI, rule http_step.request [OF Requesting]) (simp add: http_rank_def Requesting)
  next
    case Awaiting
    show ?thesis
      by (rule exI, rule conjI, rule http_step.await [OF Awaiting http_inv_awaiting [OF inv Awaiting True]])
         (simp add: http_rank_def Awaiting)
  next
    case Joining
    show ?thesis
      by (rule exI, rule conjI, rule http_step.join [OF Joining, of True]) (simp_all add: http_rank_def Joining)
  next
    case Returned
    with True busy have "h_run s = Polling" "\<not> h_request s" by simp_all
    with http_inv_polling [OF inv] Returned show ?thesis by simp
  qed
qed

lemma http_rank_bound: "h_stop s \<noteq> Idle \<Longrightarrow> http_rank s \<le> 11"
  unfolding http_rank_def by (cases "h_run s"; cases "h_stop s") simp_all

lemma past_wait_step:
  "http_step s t \<Longrightarrow> h_stop s \<in> {Joining, Returned} \<Longrightarrow> h_stop t \<in> {Joining, Returned}"
  by (erule http_stepE) (simp_all add: run_publish_def)

lemma past_wait_steps:
  assumes "http_step\<^sup>*\<^sup>* s t" and "http_inv s" and "h_stop s \<in> {Joining, Returned}"
  shows "http_inv t \<and> h_stop t \<in> {Joining, Returned}"
  using assms(1)
proof (induction rule: rtranclp_induct)
  case (step t u)
  then show ?case using http_inv_step past_wait_step by blast
qed (use assms in simp)

lemma stop_step: "http_step s t \<Longrightarrow> h_stop s \<noteq> Idle \<Longrightarrow> h_stop t \<noteq> Idle"
  by (erule http_stepE) (simp_all add: run_publish_def)

lemma awaiting_step:
  "http_step s t \<Longrightarrow> h_stop s \<in> {Awaiting, Joining, Returned} \<Longrightarrow> h_stop t \<in> {Awaiting, Joining, Returned}"
  by (erule http_stepE) (simp_all add: run_publish_def)

text \<open>The contract of a service thread, and the prompt one from the request on.\<close>

interpretation server: service_thread http_step http_inv "\<lambda>s. h_stop s \<noteq> Idle"
  "\<lambda>s. h_stop s = Returned \<and> h_run s = Dead" http_rank
  using http_inv_step stop_step shutdown_progress by unfold_locales blast+

interpretation requested: prompt_thread http_step http_inv "\<lambda>s. h_stop s \<in> {Awaiting, Joining, Returned}"
  "\<lambda>s. h_stop s = Returned \<and> h_run s = Dead" http_rank
proof unfold_locales
  fix s t :: http_state
  show "http_inv s \<Longrightarrow> http_step s t \<Longrightarrow> http_inv t" by (rule http_inv_step)
  assume inv: "http_inv s" and stop: "h_stop s \<in> {Awaiting, Joining, Returned}"
  show "http_step s t \<Longrightarrow> h_stop t \<in> {Awaiting, Joining, Returned}" by (rule awaiting_step [OF _ stop])
  show "http_step s t \<Longrightarrow> http_rank t < http_rank s" by (rule awaiting_step_rank [OF inv stop])
  show "\<exists>t. http_step s t \<and> http_rank t < http_rank s" if "\<not> (h_stop s = Returned \<and> h_run s = Dead)"
    using inv stop that by (intro shutdown_progress) auto
qed

text \<open>
  C15: shutting the server down ends. From every reachable state in which \<open>shutdown\<close> has taken the
  lock, at whatever point of its start the thread was, at most eleven steps lead to a state where the
  call has returned and the thread is dead; and once the request is placed every run of the two threads,
  in whatever order they step, is at most that long.
\<close>

theorem shutdown_terminates:
  assumes "http_reachable s" and "h_stop s \<noteq> Idle"
  shows "(\<exists>n t. n \<le> 11 \<and> (http_step ^^ n) s t \<and> h_stop t = Returned \<and> h_run t = Dead)
     \<and> (h_stop s \<noteq> Requesting \<longrightarrow> (\<forall>n t. (http_step ^^ n) s t \<longrightarrow> n \<le> 11))"
proof
  note inv = http_reachable_inv [OF assms(1)]
  show "\<exists>n t. n \<le> 11 \<and> (http_step ^^ n) s t \<and> h_stop t = Returned \<and> h_run t = Dead"
    using server.finishes [OF inv assms(2)] http_rank_bound [OF assms(2)] le_trans by blast
  have "h_stop s \<in> {Awaiting, Joining, Returned}" if "h_stop s \<noteq> Requesting"
    using that assms(2) by (cases "h_stop s") simp_all
  then show "h_stop s \<noteq> Requesting \<longrightarrow> (\<forall>n t. (http_step ^^ n) s t \<longrightarrow> n \<le> 11)"
    using requested.drains(1) [OF inv] http_rank_bound [OF assms(2)] by fastforce
qed


text \<open>The shutdown that arrives while the thread sets up TLS.\<close>

definition early_stop :: http_state where
  "early_stop = \<lparr>h_run = Setup, h_stop = Joining, h_stopping = True, h_server = False,
     h_request = False, h_shut_down = False\<rparr>"

lemma early_stop_reachable: "http_reachable early_stop"
proof -
  have "http_step http_init (http_init\<lparr>h_run := Setup\<rparr>)"
    using http_step.bind [of http_init False] by (simp add: http_init_def)
  moreover have "http_step (http_init\<lparr>h_run := Setup\<rparr>) early_stop"
    using http_step.stop [of "http_init\<lparr>h_run := Setup\<rparr>"]
    by (simp add: http_init_def stop_lock_def early_stop_def)
  ultimately show ?thesis by (blast intro: http_reachable.intros)
qed

theorem shutdown_terminates_witness:
  "\<exists>n t. n \<le> 11 \<and> (http_step ^^ n) early_stop t \<and> h_stop t = Returned \<and> h_run t = Dead"
  using shutdown_terminates [OF early_stop_reachable] by (simp add: early_stop_def)


end
