(* ===== verification/System_Service.thy ===== *)
theory System_Service
  imports Py_Strings Complex_Main
begin

section \<open>The service supervisor\<close>

text \<open>
  \<open>system/service.py\<close>. The supervisor reads the shutdown event and the liveness of its threads at points
  of its own; what happens between two of them, signals handled in the main thread and threads that
  die, is a list of events. A round is such a list, with the number of threads of the process when
  the status is sent. \<open>booted\<close> is \<open>systemd.daemon.booted()\<close>. An interval is in seconds and exact, where
  the code has the nearest float.
\<close>

datatype event = Signal int | Died nat

record service_state =
  sv_signum :: "int option"
  sv_shutdown :: bool
  sv_alive :: "bool list"

datatype service_action =
    Start string | Notify string | Wait rat | Shutdown string | Log_Received int | Log_Died "string list"

datatype ending = Exit int | Raised py_error

subsection \<open>Events\<close>

definition on_signal :: "int \<Rightarrow> service_state \<Rightarrow> service_state" where
  "on_signal signum s = s\<lparr>sv_signum := Some signum, sv_shutdown := True\<rparr>"

fun occur :: "service_state \<Rightarrow> event \<Rightarrow> service_state" where
  "occur s (Signal signum) = on_signal signum s"
| "occur s (Died i) = s\<lparr>sv_alive := (sv_alive s)[i := False]\<rparr>"

definition is_threads_alive :: "service_state \<Rightarrow> bool" where
  "is_threads_alive s \<longleftrightarrow> list_all id (sv_alive s)"

definition systemd_notify :: "bool \<Rightarrow> string \<Rightarrow> service_action list" where
  "systemd_notify booted status = (if booted then [Notify status] else [])"

definition watchdog_interval :: "string option \<Rightarrow> rat \<Rightarrow> rat result" where
  "watchdog_interval watchdog_usec default_interval =
     (case watchdog_usec of
        None \<Rightarrow> Inr default_interval
      | Some v \<Rightarrow> bind_result (py_int_str v) (\<lambda>n. Inr (min default_interval (of_int n / 1000000 / 2))))"

subsection \<open>Supervision\<close>

definition status_text :: "nat \<Rightarrow> nat \<Rightarrow> string" where
  "status_text active service =
     ''STATUS=Total threads: '' @ str_int (int active) @ ''; Service threads: '' @ str_int (int service)
       @ [CHR 0x0A] @ ''WATCHDOG=1''"

definition watch :: "bool \<Rightarrow> rat \<Rightarrow> nat \<Rightarrow> nat \<Rightarrow> service_action list" where
  "watch booted interval service active = systemd_notify booted (status_text active service) @ [Wait interval]"

text \<open>The loop: its actions, the state that ended it and the rounds not read yet; \<open>None\<close> if it still runs.\<close>

fun supervise ::
    "bool \<Rightarrow> rat \<Rightarrow> service_state \<Rightarrow> (event list \<times> nat) list
       \<Rightarrow> (service_action list \<times> service_state \<times> (event list \<times> nat) list) option" where
  "supervise booted interval s [] = None"
| "supervise booted interval s ((events, active) # rounds) =
     (let s' = foldl occur s events
      in if \<not> sv_shutdown s' \<and> is_threads_alive s'
         then map_option (\<lambda>(acts, r). (watch booted interval (length (sv_alive s')) active @ acts, r))
                (supervise booted interval s' rounds)
         else Some ([], s', rounds))"

text \<open>What \<open>start\<close> does after \<open>STOPPING=1\<close>, from the state it reads then.\<close>

definition service_stop :: "string list \<Rightarrow> service_state \<Rightarrow> service_action list \<times> ending" where
  "service_stop names s =
     (let dead = map fst (filter (\<lambda>(_, alive). \<not> alive) (zip names (sv_alive s)));
          stops = map Shutdown names
      in if sv_shutdown s then
           (case sv_signum s of
              None \<Rightarrow> (stops, Raised AssertionError)
            | Some n \<Rightarrow> (stops @ [Log_Received n], Exit 0))
         else (stops @ [Log_Died dead], Exit 1))"

definition service_init :: "string list \<Rightarrow> service_state" where
  "service_init names = \<lparr>sv_signum = None, sv_shutdown = False, sv_alive = map (\<lambda>_. True) names\<rparr>"

definition service_start ::
    "bool \<Rightarrow> rat \<Rightarrow> string list \<Rightarrow> (event list \<times> nat) list \<Rightarrow> (service_action list \<times> ending) option" where
  "service_start booted interval names rounds =
     (case supervise booted interval (service_init names) rounds of
        Some (acts, s, (events, _) # _) \<Rightarrow>
          (case service_stop names (foldl occur s events) of
             (stops, e) \<Rightarrow>
               Some (map Start names @ systemd_notify booted ''READY=1'' @ acts
                     @ systemd_notify booted ''STOPPING=1'' @ stops, e))
      | _ \<Rightarrow> None)"

subsection \<open>What the events do to the state\<close>

text \<open>An event that ends the loop when \<open>n\<close> threads are supervised.\<close>

definition halting :: "nat \<Rightarrow> event \<Rightarrow> bool" where
  "halting n event = (case event of Signal _ \<Rightarrow> True | Died i \<Rightarrow> i < n)"

definition quiet :: "nat \<Rightarrow> event list \<Rightarrow> bool" where
  "quiet n events = list_all (\<lambda>event. \<not> halting n event) events"

fun signals :: "event list \<Rightarrow> int list" where
  "signals [] = []"
| "signals (Signal n # events) = n # signals events"
| "signals (Died _ # events) = signals events"

definition survivors :: "bool list \<Rightarrow> event list \<Rightarrow> bool list" where
  "survivors alive events = map (\<lambda>i. alive ! i \<and> Died i \<notin> set events) [0..<length alive]"

lemma signals_Nil_iff: "signals events = [] \<longleftrightarrow> (\<forall>n. Signal n \<notin> set events)"
  by (induction events rule: signals.induct) auto

lemma survivors_Nil [simp]: "survivors alive [] = alive"
  by (simp add: survivors_def map_nth)

lemma survivors_Died: "survivors (alive[i := False]) events = survivors alive (Died i # events)"
  by (cases "i < length alive") (auto simp: survivors_def nth_list_update split: if_splits intro!: map_cong)

lemma survivors_Signal: "survivors alive (Signal n # events) = survivors alive events"
  by (simp add: survivors_def)

lemma all_survivors: "list_all id (survivors alive events)
    \<longleftrightarrow> list_all id alive \<and> (\<forall>i < length alive. Died i \<notin> set events)"
  by (auto simp: survivors_def list_all_length)

text \<open>The state after a list of events, in closed form.\<close>

lemma foldl_occur:
  "foldl occur s events =
     \<lparr>sv_signum = (if signals events = [] then sv_signum s else Some (last (signals events))),
      sv_shutdown = (sv_shutdown s \<or> signals events \<noteq> []),
      sv_alive = survivors (sv_alive s) events\<rparr>"
proof (induction events arbitrary: s)
  case (Cons event events)
  show ?case by (cases event) (simp_all add: Cons.IH on_signal_def survivors_Died survivors_Signal)
qed simp

lemma quiet_running:
  "\<not> sv_shutdown (foldl occur s events) \<and> is_threads_alive (foldl occur s events)
     \<longleftrightarrow> \<not> sv_shutdown s \<and> is_threads_alive s \<and> quiet (length (sv_alive s)) events"
proof -
  have "quiet n events \<longleftrightarrow> signals events = [] \<and> (\<forall>i < n. Died i \<notin> set events)" for n
    by (induction events rule: signals.induct) (auto simp: quiet_def halting_def)
  then show ?thesis by (auto simp: foldl_occur is_threads_alive_def all_survivors)
qed

lemma length_survivors [simp]: "length (survivors alive events) = length alive"
  by (simp add: survivors_def)

subsection \<open>The loop ends at the first halting event\<close>

lemma supervise_spec:
  assumes "\<not> sv_shutdown s" and "is_threads_alive s" and "length (sv_alive s) = n"
  shows "supervise booted interval s rounds =
     (let calm = takeWhile (\<lambda>r. quiet n (fst r)) rounds
      in case dropWhile (\<lambda>r. quiet n (fst r)) rounds of
           [] \<Rightarrow> None
         | (events, _) # rest \<Rightarrow>
             Some (concat (map (\<lambda>r. watch booted interval n (snd r)) calm),
                   foldl occur s (concat (map fst calm) @ events), rest))"
  using assms
proof (induction rounds arbitrary: s)
  case (Cons r rounds)
  obtain events active where r: "r = (events, active)" by force
  show ?case
  proof (cases "quiet n events")
    case True
    with Cons.prems quiet_running [of s events]
    have run: "\<not> sv_shutdown (foldl occur s events)" "is_threads_alive (foldl occur s events)" by blast+
    have len: "length (sv_alive (foldl occur s events)) = n" using Cons.prems(3) by (simp add: foldl_occur)
    show ?thesis using run True len
      by (cases "dropWhile (\<lambda>r. quiet n (fst r)) rounds")
         (simp_all add: r Let_def Cons.IH [OF run len] case_prod_beta del: dropWhile_eq_Nil_conv)
  next
    case False
    with Cons.prems quiet_running [of s events]
    have "\<not> (\<not> sv_shutdown (foldl occur s events) \<and> is_threads_alive (foldl occur s events))" by blast
    with False show ?thesis by (auto simp: r Let_def)
  qed
qed simp

lemma dead_names:
  "map fst (filter (\<lambda>(_, alive). \<not> alive) (zip names (survivors (map (\<lambda>_. True) names) events)))
     = map (\<lambda>i. names ! i) (filter (\<lambda>i. Died i \<in> set events) [0..<length names])"
proof -
  have "zip names (survivors (map (\<lambda>_. True) names) events)
      = map (\<lambda>i. (names ! i, Died i \<notin> set events)) [0..<length names]"
    by (rule nth_equalityI) (simp_all add: survivors_def)
  then show ?thesis by (simp add: filter_map comp_def)
qed

lemma service_stop_spec:
  "service_stop names (foldl occur (service_init names) events) =
     (map Shutdown names
        @ [if signals events \<noteq> [] then Log_Received (last (signals events))
           else Log_Died (map (\<lambda>i. names ! i) (filter (\<lambda>i. Died i \<in> set events) [0..<length names]))],
      Exit (if signals events \<noteq> [] then 0 else 1))"
  using dead_names [of names events] by (simp add: service_stop_def foldl_occur service_init_def Let_def)

lemma service_init_running:
  "\<not> sv_shutdown (service_init names)" "is_threads_alive (service_init names)"
  "length (sv_alive (service_init names)) = length names"
  by (simp_all add: service_init_def is_threads_alive_def list_all_length)

text \<open>The rounds \<open>start\<close> reads: those the loop passes, the one that ends it and one more.\<close>

lemma two_cases: "(xs = [] \<Longrightarrow> P) \<Longrightarrow> (\<And>x. xs = [x] \<Longrightarrow> P) \<Longrightarrow> (\<And>x y ys. xs = x # y # ys \<Longrightarrow> P) \<Longrightarrow> P"
  by (metis list.exhaust)

lemma service_start_reads:
  assumes "takeWhile (\<lambda>r. quiet (length names) (fst r)) rounds = calm"
    and "dropWhile (\<lambda>r. quiet (length names) (fst r)) rounds = rest"
  shows "service_start booted interval names rounds =
     (case rest of
        r # r' # _ \<Rightarrow>
          (case service_stop names (foldl occur (service_init names) (concat (map fst calm) @ fst r @ fst r')) of
             (stops, e) \<Rightarrow>
               Some (map Start names @ systemd_notify booted ''READY=1''
                     @ concat (map (\<lambda>r. watch booted interval (length names) (snd r)) calm)
                     @ systemd_notify booted ''STOPPING=1'' @ stops, e))
      | _ \<Rightarrow> None)"
  by (cases rest rule: two_cases)
     (simp_all add: service_start_def supervise_spec [OF service_init_running] assms case_prod_beta)

text \<open>The first reading that is not quiet has the event that ends the program.\<close>

lemma halting_reading:
  assumes "length (takeWhile (\<lambda>r. quiet cnt (fst r)) rounds) < length rounds"
  shows "\<exists>event \<in> set (concat (map fst (take (length (takeWhile (\<lambda>r. quiet cnt (fst r)) rounds) + 2) rounds))). halting cnt event"
proof -
  let ?k = "length (takeWhile (\<lambda>r. quiet cnt (fst r)) rounds)"
  have "\<not> quiet cnt (fst (rounds ! ?k))" by (rule nth_length_takeWhile [OF assms])
  moreover have "rounds ! ?k \<in> set (take (?k + 2) rounds)" using assms by (auto simp: in_set_conv_nth)
  ultimately show ?thesis by (auto simp: quiet_def list_all_iff)
qed

lemma halting_cause:
  "event \<in> set events \<Longrightarrow> halting cnt event \<Longrightarrow> signals events \<noteq> [] \<or> (\<exists>i < cnt. Died i \<in> set events)"
  by (cases event) (auto simp: signals_Nil_iff halting_def)

text \<open>
  C16: the supervisor ends exactly when a signal has come or a supervised thread has died, and says so.
  It starts every thread and then reports ready; each quiet round sends the watchdog ping and waits; from
  the first round with a signal or a death it reports stopping, shuts every thread down once and exits,
  with 0 when a signal has been received until then and with 1 otherwise, and in that case it names
  the threads that died, of which there is one. It neither exits earlier nor, rounds permitting, later.
\<close>

theorem service_start_exits:
  assumes "k = length (takeWhile (\<lambda>r. quiet (length names) (fst r)) rounds)"
    and "events = concat (map fst (take (k + 2) rounds))"
  shows "service_start booted interval names rounds =
      (if length rounds < k + 2 then None
       else Some (map Start names @ systemd_notify booted ''READY=1''
                  @ concat (map (\<lambda>r. watch booted interval (length names) (snd r)) (take k rounds))
                  @ systemd_notify booted ''STOPPING=1'' @ map Shutdown names
                  @ [if signals events \<noteq> [] then Log_Received (last (signals events))
                     else Log_Died (map (\<lambda>i. names ! i) (filter (\<lambda>i. Died i \<in> set events) [0..<length names]))],
                  Exit (if signals events \<noteq> [] then 0 else 1)))
    \<and> (k < length rounds \<longrightarrow> signals events \<noteq> [] \<or> (\<exists>i < length names. Died i \<in> set events))"
    (is "?start = ?result \<and> ?cause")
proof
  have calm: "takeWhile (\<lambda>r. quiet (length names) (fst r)) rounds = take k rounds"
    and rest: "dropWhile (\<lambda>r. quiet (length names) (fst r)) rounds = drop k rounds"
    unfolding assms(1) by (rule takeWhile_eq_take, rule dropWhile_eq_drop)
  have evs: "events = concat (map fst (take k rounds)) @ concat (map fst (take 2 (drop k rounds)))"
    unfolding assms(2) take_add by simp
  show "?start = ?result"
  proof (cases "drop k rounds" rule: two_cases)
    case 1
    then have "length rounds < k + 2" by simp
    with 1 show ?thesis by (simp add: service_start_reads [OF calm rest])
  next
    case (2 r)
    then have "length (drop k rounds) = 1" by simp
    then have "length rounds < k + 2" by simp
    with 2 show ?thesis by (simp add: service_start_reads [OF calm rest])
  next
    case (3 r r' rs)
    then have "2 \<le> length (drop k rounds)" by simp
    then have "\<not> length rounds < k + 2" by simp
    moreover have "events = concat (map fst (take k rounds)) @ fst r @ fst r'" by (simp add: evs 3)
    ultimately show ?thesis
      by (simp only: service_start_reads [OF calm rest] 3 list.case service_stop_spec prod.case if_False append_assoc)
  qed
  show ?cause using halting_reading [of "length names" rounds] halting_cause unfolding assms by blast
qed

theorem service_start_exits_witness:
  "service_start True 1 [''Monitor'', ''Server''] [([], 3), ([Died 1], 2), ([Died 7], 2)] =
     Some ([Start ''Monitor'', Start ''Server'', Notify ''READY=1'', Notify (status_text 3 2), Wait 1,
            Notify ''STOPPING=1'', Shutdown ''Monitor'', Shutdown ''Server'', Log_Died [''Server'']], Exit 1)"
  using service_start_exits [of 1 "[''Monitor'', ''Server'']" "[([], 3), ([Died 1], 2), ([Died 7], 2)]" "[Died 1, Died 7]" True 1]
  by (simp add: quiet_def halting_def systemd_notify_def watch_def upt_conv_Cons numeral_2_eq_2)

text \<open>
  The sleep of the loop is the default without a watchdog, and else never longer than half of what
  systemd allows between two pings nor than the default; a limit that is not an integer raises.
\<close>

theorem watchdog_interval_bound:
  assumes "watchdog_interval watchdog_usec default_interval = r"
  shows "case watchdog_usec of
      None \<Rightarrow> r = Inr default_interval
    | Some v \<Rightarrow>
        (case py_int_str v of
           Inl e \<Rightarrow> r = Inl e
         | Inr usec \<Rightarrow> (\<exists>interval. r = Inr interval \<and> interval \<le> default_interval
             \<and> 2 * interval * 1000000 \<le> of_int usec
             \<and> (interval = default_interval \<or> 2 * interval * 1000000 = of_int usec)))"
  using assms by (auto simp: watchdog_interval_def min_def split: option.split sum.split)

lemma usec_literal: "py_int_str ''30000000'' = Inr 30000000"
  by code_simp

theorem watchdog_interval_bound_witness:
  "\<exists>interval. watchdog_interval (Some ''30000000'') 1 = Inr interval \<and> interval \<le> 1 \<and> 2 * interval * 1000000 \<le> 30000000"
  using watchdog_interval_bound [OF refl, of "Some ''30000000''" 1]
  by (auto simp: usec_literal)

end
