(* ===== verification/Program.thy ===== *)
theory Program
  imports Monitor_Manager Http_Server System_Service View_Rule
begin

section \<open>The program\<close>

text \<open>
  \<open>main.py\<close>: the configuration, logging, the shared registry, the GeoIP reader and the three service threads, in this
  order, under the supervisor. \<open>documents\<close> are the parsed files of \<open>--config\<close>, which is one; the parsing of the
  arguments is left to \<open>argparse\<close>. The formatter of \<open>logging\<close> is a parameter that accepts a format or raises, opening a
  GeoIP database another. The threads are built before the supervisor, whose constructor reads the watchdog interval;
  nothing runs before \<open>start\<close>.
\<close>

record main_env =
  mn_py_float :: "string \<Rightarrow> (int \<times> int) option"
  mn_environ :: environ
  mn_formatter :: "pyval \<Rightarrow> unit result"
  mn_open_database :: "pyval \<Rightarrow> geo_db result"
  mn_default_root :: string
  mn_check_options :: check_options
  mn_booted :: bool

subsection \<open>Logging\<close>

definition level_names :: "string list" where
  "level_names = [''CRITICAL'', ''FATAL'', ''ERROR'', ''WARN'', ''WARNING'', ''INFO'', ''DEBUG'', ''NOTSET'']"

text \<open>The level of \<open>basicConfig\<close>: none, a number, or the name of a level.\<close>

definition check_level :: "pyval \<Rightarrow> unit result" where
  "check_level level = (case level of
     PNone \<Rightarrow> Inr ()
   | PInt _ \<Rightarrow> Inr ()
   | PBool _ \<Rightarrow> Inr ()
   | PStr s \<Rightarrow> if s \<in> set level_names then Inr () else Inl (ValueError (''Unknown level: '' @ s))
   | _ \<Rightarrow> Inl (TypeError ''Level not an integer or a valid string''))"

definition basic_config :: "(pyval \<Rightarrow> unit result) \<Rightarrow> pyval \<Rightarrow> pyval \<Rightarrow> unit result" where
  "basic_config formatter format level = bind_result (formatter format) (\<lambda>_. check_level level)"

subsection \<open>Wiring\<close>

record program =
  pg_database :: "(string \<times> pyval) list"
  pg_geoip :: geoip_reader
  pg_interval :: pyval
  pg_check_options :: check_options
  pg_monitor :: monitor
  pg_admin :: server_config
  pg_server :: server_config

text \<open>\<open>ViewRule.configure\<close>: the reader of the \<open>geoip\<close> section.\<close>

definition view_configure :: "(pyval \<Rightarrow> geo_db result) \<Rightarrow> (string \<Rightarrow> pyval \<Rightarrow> pyval result) \<Rightarrow> geoip_reader result" where
  "view_configure open_database get = geoip_init open_database get"

definition section_server :: "main_env \<Rightarrow> config_data \<Rightarrow> string \<Rightarrow> server_config result" where
  "section_server env data section =
     bind_result (config_items (mn_py_float env) (mn_environ env) data section)
       (\<lambda>items. server_init items (section_get (mn_py_float env) (mn_environ env) data section) (mn_default_root env))"

definition program_init :: "main_env \<Rightarrow> (string \<times> pyval) list list \<Rightarrow> program result" where
  "program_init env documents =
     (let py_float = mn_py_float env; environ = mn_environ env
      in bind_result (config_load documents) (\<lambda>data.
         bind_result (config_get py_float environ data ''logging'' ''format'' PNone) (\<lambda>format.
         bind_result (config_get py_float environ data ''logging'' ''level'' PNone) (\<lambda>level.
         bind_result (basic_config (mn_formatter env) format level) (\<lambda>_.
         bind_result (config_items py_float environ data ''database'') (\<lambda>database.
         bind_result (config_items py_float environ data ''geoip'') (\<lambda>_.
         bind_result (view_configure (mn_open_database env) (section_get py_float environ data ''geoip'')) (\<lambda>reader.
         bind_result (config_items py_float environ data ''monitor'') (\<lambda>monitor_config.
         bind_result (monitor_init py_float environ data monitor_config (mn_check_options env) registry_init)
           (\<lambda>(interval, (options, _), monitor).
         bind_result (section_server env data ''admin'') (\<lambda>admin.
         bind_result (section_server env data ''server'') (\<lambda>server.
           Inr \<lparr>pg_database = database, pg_geoip = reader, pg_interval = interval, pg_check_options = options,
                pg_monitor = monitor, pg_admin = admin, pg_server = server\<rparr>))))))))))))"

definition service_names :: "string list" where
  "service_names = [''Monitor'', ''Admin'', ''Server'']"

text \<open>\<open>main\<close>: the program, and what its supervisor does in the rounds given; no result while it runs.\<close>

definition main :: "main_env \<Rightarrow> (string \<times> pyval) list list \<Rightarrow> (event list \<times> nat) list
    \<Rightarrow> (program \<times> (service_action list \<times> ending) option) result" where
  "main env documents rounds =
     bind_result (program_init env documents)
       (\<lambda>p. bind_result (watchdog_interval (map_of (mn_environ env) ''WATCHDOG_USEC'') 1)
          (\<lambda>interval. Inr (p, service_start (mn_booted env) interval service_names rounds)))"

subsection \<open>What a started program has\<close>

lemma server_init_tls: "server_init items get dflt_root = Inr c \<Longrightarrow> truthy (hs_ssl c) \<Longrightarrow> truthy (hs_cert c)"
  by (auto simp: server_init_def bind_result_Inr_iff split: if_splits)

lemma server_init_items:
  "server_init items get dflt_root = Inr c \<Longrightarrow> map_of items ''address'' = Some (hs_address c) \<and> map_of items ''port'' = Some (hs_port c)"
  by (auto simp: server_init_def section_item_def bind_result_Inr_iff split: if_splits option.splits)

lemma monitor_init_facts:
  "monitor_init py_float environ data items opts status = Inr (interval, configured, m) \<Longrightarrow>
     below_one interval = Inr False \<and> m = \<lparr>m_threads = [], m_next = 0, m_status = status\<rparr>"
  by (auto simp: monitor_init_def bind_result_Inr_iff split: if_splits)

lemma service_start_starts:
  "service_start booted interval names rounds = Some (acts, e) \<Longrightarrow> take (length names) acts = map Start names"
  by (auto simp: service_start_def split: option.splits prod.splits list.splits)

text \<open>
  C28: a program that starts has a valid configuration: the poll interval is at least one second, both ports have their
  address and port from the configuration and a certificate if they speak TLS, no content is down
  and no check runs yet; and it starts the monitor, the admin port and the DNS port, in this order.
\<close>

theorem main_starts:
  assumes "main env documents rounds = Inr (p, run)"
  shows "below_one (pg_interval p) = Inr False
    \<and> pg_monitor p = \<lparr>m_threads = [], m_next = 0, m_status = {}\<rparr>
    \<and> (truthy (hs_ssl (pg_admin p)) \<longrightarrow> truthy (hs_cert (pg_admin p)))
    \<and> (truthy (hs_ssl (pg_server p)) \<longrightarrow> truthy (hs_cert (pg_server p)))
    \<and> (\<exists>data admin_items server_items. config_load documents = Inr data
        \<and> config_items (mn_py_float env) (mn_environ env) data ''admin'' = Inr admin_items
        \<and> config_items (mn_py_float env) (mn_environ env) data ''server'' = Inr server_items
        \<and> map_of admin_items ''address'' = Some (hs_address (pg_admin p)) \<and> map_of admin_items ''port'' = Some (hs_port (pg_admin p))
        \<and> map_of server_items ''address'' = Some (hs_address (pg_server p)) \<and> map_of server_items ''port'' = Some (hs_port (pg_server p)))
    \<and> (\<forall>acts e. run = Some (acts, e) \<longrightarrow> take 3 acts = [Start ''Monitor'', Start ''Admin'', Start ''Server''])"
proof -
  from assms obtain interval where init: "program_init env documents = Inr p"
    and run: "run = service_start (mn_booted env) interval service_names rounds"
    by (auto simp: main_def bind_result_Inr_iff)
  from init obtain data opts unknown items where parts: "config_load documents = Inr data"
      "monitor_init (mn_py_float env) (mn_environ env) data items (mn_check_options env) registry_init
         = Inr (pg_interval p, (opts, unknown), pg_monitor p)"
      "section_server env data ''admin'' = Inr (pg_admin p)" "section_server env data ''server'' = Inr (pg_server p)"
    by (auto simp: program_init_def Let_def bind_result_Inr_iff)
  from parts(3,4) obtain admin_items server_items where
    "config_items (mn_py_float env) (mn_environ env) data ''admin'' = Inr admin_items"
    "config_items (mn_py_float env) (mn_environ env) data ''server'' = Inr server_items"
    and ports: "server_init admin_items (section_get (mn_py_float env) (mn_environ env) data ''admin'') (mn_default_root env) = Inr (pg_admin p)"
      "server_init server_items (section_get (mn_py_float env) (mn_environ env) data ''server'') (mn_default_root env) = Inr (pg_server p)"
    by (auto simp: section_server_def bind_result_Inr_iff)
  moreover have "take 3 acts = [Start ''Monitor'', Start ''Admin'', Start ''Server'']" if "run = Some (acts, e)" for acts e
    using service_start_starts [of "mn_booted env" interval service_names rounds acts e] that
    by (simp add: run service_names_def numeral_3_eq_3)
  ultimately show ?thesis
    using parts(1) monitor_init_facts [OF parts(2)] server_init_tls [OF ports(1)] server_init_tls [OF ports(2)]
      server_init_items [OF ports(1)] server_init_items [OF ports(2)]
    by (simp add: registry_init_def)
qed

definition demo_main_env :: main_env where
  "demo_main_env = \<lparr>mn_py_float = (\<lambda>_. None), mn_environ = [(''POWERGSLB_ADMIN_PORT'', ''8443'')], mn_formatter = (\<lambda>_. Inr ()),
     mn_open_database = (\<lambda>_. Inl (OtherError ''OSError'')), mn_default_root = ''/r'', mn_check_options = default_options ''1'',
     mn_booted = False\<rparr>"

definition demo_documents :: "(string \<times> pyval) list list" where
  "demo_documents =
     [[(''logging'', PDict [(KStr ''level'', PStr ''INFO'')]),
       (''admin'', PDict [(KStr ''address'', PStr ''::''), (KStr ''port'', PInt 443), (KStr ''ssl'', PBool True), (KStr ''cert'', PStr ''c'')]),
       (''server'', PDict [(KStr ''address'', PStr ''::1''), (KStr ''port'', PInt 8080)])]]"

lemma demo_main_runs:
  "\<exists>p run. main demo_main_env demo_documents [([], 4), ([Signal 15], 4), ([], 4)] = Inr (p, run)
    \<and> hs_port (pg_admin p) = PInt 8443 \<and> truthy (hs_ssl (pg_admin p))"
proof -
  have "case main demo_main_env demo_documents [([], 4), ([Signal 15], 4), ([], 4)] of
      Inl _ \<Rightarrow> False | Inr (p, run) \<Rightarrow> hs_port (pg_admin p) = PInt 8443 \<and> truthy (hs_ssl (pg_admin p))"
    by code_simp
  then show ?thesis by (auto split: sum.splits)
qed

theorem main_starts_witness:
  "\<exists>p run. main demo_main_env demo_documents [([], 4), ([Signal 15], 4), ([], 4)] = Inr (p, run)
    \<and> hs_port (pg_admin p) = PInt 8443 \<and> truthy (hs_cert (pg_admin p)) \<and> below_one (pg_interval p) = Inr False"
proof -
  obtain p run where r: "main demo_main_env demo_documents [([], 4), ([Signal 15], 4), ([], 4)] = Inr (p, run)"
    "hs_port (pg_admin p) = PInt 8443" "truthy (hs_ssl (pg_admin p))" using demo_main_runs by blast
  with main_starts [OF r(1)] show ?thesis by blast
qed

end
