(* ===== verification/Build_Backend.thy ===== *)
theory Build_Backend
  imports Py_Strings
begin

section \<open>The build backend\<close>

text \<open>
  \<open>build_backend/backend.py\<close>: the compressed siblings of the admin assets. The files under the asset root are an
  association list from paths to bytes, in the order \<open>rglob\<close> lists them; the compressors and the hooks of
  \<open>setuptools\<close> are parameters.
\<close>

type_synonym asset_files = "(string \<times> nat list) list"

definition compressible_suffixes :: "string list" where
  "compressible_suffixes = [''.js'', ''.css'', ''.html'', ''.svg'']"

definition path_name :: "string \<Rightarrow> string" where
  "path_name path = last (split_on (CHR ''/'') path)"

text \<open>\<open>Path.suffix\<close>: from the last dot of the name, unless it is its first or last character.\<close>

definition path_suffix :: "string \<Rightarrow> string" where
  "path_suffix path =
     (let name = path_name path; ext = rev (takeWhile (\<lambda>c. c \<noteq> CHR ''.'') (rev name));
          i = length name - length ext
      in if 1 < i \<and> ext \<noteq> [] then CHR ''.'' # ext else [])"

definition compressible :: "string \<Rightarrow> bool" where
  "compressible path \<longleftrightarrow> path_suffix path \<in> set compressible_suffixes"

text \<open>\<open>_write_if_smaller\<close>.\<close>

definition write_if_smaller :: "string \<Rightarrow> nat list \<Rightarrow> nat list \<Rightarrow> asset_files \<Rightarrow> asset_files" where
  "write_if_smaller sibling encoded original files =
     (if length encoded < length original then AList.update sibling encoded files
      else if map_of files sibling \<noteq> None then AList.delete sibling files
      else files)"

text \<open>The body of the loop; \<open>read_bytes\<close> of a missing file raises.\<close>

definition compress_asset ::
    "(nat list \<Rightarrow> nat list) \<Rightarrow> (nat list \<Rightarrow> nat list) \<Rightarrow> asset_files \<Rightarrow> string \<Rightarrow> asset_files result" where
  "compress_asset gzip brotli files path =
     (if \<not> compressible path then Inr files
      else (case map_of files path of
              None \<Rightarrow> Inl (OtherError ''FileNotFoundError'')
            | Some content \<Rightarrow>
                Inr (write_if_smaller (path @ ''.br'') (brotli content) content
                      (write_if_smaller (path @ ''.gz'') (gzip content) content files))))"

definition compress_admin_assets ::
    "(nat list \<Rightarrow> nat list) \<Rightarrow> (nat list \<Rightarrow> nat list) \<Rightarrow> asset_files \<Rightarrow> asset_files result" where
  "compress_admin_assets gzip brotli files = foldr_result (compress_asset gzip brotli) files (map fst files)"

definition build_wheel ::
    "(nat list \<Rightarrow> nat list) \<Rightarrow> (nat list \<Rightarrow> nat list) \<Rightarrow> (asset_files \<Rightarrow> 'a result) \<Rightarrow> asset_files \<Rightarrow> 'a result" where
  "build_wheel gzip brotli setuptools_build files = bind_result (compress_admin_assets gzip brotli files) setuptools_build"

definition build_editable ::
    "(nat list \<Rightarrow> nat list) \<Rightarrow> (nat list \<Rightarrow> nat list) \<Rightarrow> (asset_files \<Rightarrow> 'a result) \<Rightarrow> asset_files \<Rightarrow> 'a result" where
  "build_editable gzip brotli setuptools_build files = bind_result (compress_admin_assets gzip brotli files) setuptools_build"

subsection \<open>Siblings\<close>

lemma split_on_snoc:
  "c \<notin> set t \<Longrightarrow> split_on c (s @ t) = butlast (split_on c s) @ [last (split_on c s) @ t]"
proof (induction s)
  case Nil
  then show ?case using split_on_single [of c t] by simp
next
  case (Cons x s)
  have "split_on c s \<noteq> []" by (induction s) (auto split: list.split)
  then obtain y ys where y: "split_on c s = y # ys" by (meson neq_Nil_conv)
  with Cons show ?case by (cases "ys = []") (auto split: list.split)
qed

lemma sibling_suffix: "ext \<in> {''gz'', ''br''} \<Longrightarrow> \<not> compressible (path @ CHR ''.'' # ext)"
proof -
  assume e: "ext \<in> {''gz'', ''br''}"
  have "path_name (path @ CHR ''.'' # ext) = path_name path @ CHR ''.'' # ext"
    using e split_on_snoc [of "CHR ''/''" "CHR ''.'' # ext" path] by (auto simp: path_name_def)
  with e show ?thesis by (auto simp: compressible_def path_suffix_def compressible_suffixes_def Let_def)
qed

lemma map_of_write:
  "map_of (write_if_smaller p e d files) q =
     (if q = p then if length e < length d then Some e else None else map_of files q)"
  by (auto simp: write_if_smaller_def update_conv' delete_conv')

text \<open>What a file becomes, from its name and the files before.\<close>

definition sibling_of :: "string \<Rightarrow> string \<Rightarrow> string \<Rightarrow> bool" where
  "sibling_of ext path q \<longleftrightarrow> compressible path \<and> q = path @ ext"

definition packed :: "(nat list \<Rightarrow> nat list) \<Rightarrow> nat list \<Rightarrow> nat list option" where
  "packed compress content = (if length (compress content) < length content then Some (compress content) else None)"

lemma compress_asset_files:
  assumes "compressible path \<Longrightarrow> map_of files path = Some content"
  shows "\<exists>files'. compress_asset gzip brotli files path = Inr files' \<and>
    map_of files' q = (if sibling_of ''.gz'' path q then packed gzip content
                       else if sibling_of ''.br'' path q then packed brotli content else map_of files q)"
  using assms by (auto simp: compress_asset_def map_of_write sibling_of_def packed_def)

lemma compress_assets_aux:
  assumes "distinct paths" and "\<And>p. p \<in> set paths \<Longrightarrow> compressible p \<Longrightarrow> map_of files p = Some (content p)"
  shows "\<exists>files'. foldr_result (compress_asset gzip brotli) files paths = Inr files'
    \<and> (\<forall>q. map_of files' q =
         (if \<exists>p \<in> set paths. sibling_of ''.gz'' p q then packed gzip (content (take (length q - 3) q))
          else if \<exists>p \<in> set paths. sibling_of ''.br'' p q then packed brotli (content (take (length q - 3) q))
          else map_of files q))"
  using assms
proof (induction paths arbitrary: files)
  case (Cons path paths)
  obtain files1 where f1: "compress_asset gzip brotli files path = Inr files1"
    using compress_asset_files [of path files "content path" gzip brotli] Cons.prems(2) by fastforce
  have m1: "map_of files1 q = (if sibling_of ''.gz'' path q then packed gzip (content path)
        else if sibling_of ''.br'' path q then packed brotli (content path) else map_of files q)" for q
    using compress_asset_files [of path files "content path" gzip brotli q] Cons.prems(2) f1 by simp
  have "map_of files1 p = Some (content p)" if "p \<in> set paths" "compressible p" for p
    using m1 [of p] that Cons.prems(2) [of p] sibling_suffix [of "''gz''" path] sibling_suffix [of "''br''" path]
    by (auto simp: sibling_of_def)
  with Cons.IH [of files1] Cons.prems(1) obtain files2 where
    f2: "foldr_result (compress_asset gzip brotli) files1 paths = Inr files2"
      "\<forall>q. map_of files2 q =
         (if \<exists>p \<in> set paths. sibling_of ''.gz'' p q then packed gzip (content (take (length q - 3) q))
          else if \<exists>p \<in> set paths. sibling_of ''.br'' p q then packed brotli (content (take (length q - 3) q))
          else map_of files1 q)" by auto
  have "path @ ''.gz'' \<noteq> p @ ''.br''" for p by simp
  then show ?case using f1 f2(1) by (auto simp: f2(2) m1 sibling_of_def)
qed simp

text \<open>
  A build leaves the assets as they are and gives each compressible one its compressed siblings exactly when they are
  smaller; a sibling that an earlier build left behind, of another version of the asset or for no gain, does not
  survive, and no other file is touched.
\<close>

theorem compress_assets_siblings:
  assumes "distinct (map fst files)"
  shows "\<exists>files'. compress_admin_assets gzip brotli files = Inr files'
    \<and> (compressible path \<and> map_of files path = Some content \<longrightarrow>
         map_of files' path = Some content
         \<and> map_of files' (path @ ''.gz'') = (if length (gzip content) < length content then Some (gzip content) else None)
         \<and> map_of files' (path @ ''.br'') = (if length (brotli content) < length content then Some (brotli content) else None))
    \<and> ((\<forall>p. compressible p \<and> p \<in> fst ` set files \<longrightarrow> q \<noteq> p @ ''.gz'' \<and> q \<noteq> p @ ''.br'') \<longrightarrow> map_of files' q = map_of files q)"
proof -
  let ?content = "\<lambda>p. the (map_of files p)"
  have "map_of files p = Some (?content p)" if "p \<in> set (map fst files)" for p
    using that by (metis map_of_eq_None_iff option.collapse list.set_map)
  with compress_assets_aux [OF assms, of files ?content gzip brotli] obtain files' where
    f: "compress_admin_assets gzip brotli files = Inr files'"
      "\<forall>q. map_of files' q =
         (if \<exists>p \<in> set (map fst files). sibling_of ''.gz'' p q then packed gzip (?content (take (length q - 3) q))
          else if \<exists>p \<in> set (map fst files). sibling_of ''.br'' p q then packed brotli (?content (take (length q - 3) q))
          else map_of files q)"
    unfolding compress_admin_assets_def by blast
  have "map_of files' path = Some content
      \<and> map_of files' (path @ ''.gz'') = packed gzip content \<and> map_of files' (path @ ''.br'') = packed brotli content"
    if p: "compressible path" "map_of files path = Some content"
  proof -
    have "path \<in> set (map fst files)" using p(2) by (force dest: map_of_SomeD)
    moreover have "\<not> sibling_of ''.gz'' r path" "\<not> sibling_of ''.br'' r path" for r
      using p(1) sibling_suffix [of "''gz''" r] sibling_suffix [of "''br''" r] by (auto simp: sibling_of_def)
    ultimately show ?thesis using p f(2) by (auto simp: sibling_of_def)
  qed
  then show ?thesis using f by (auto simp: packed_def sibling_of_def)
qed

theorem compress_assets_siblings_witness:
  "\<exists>files'. compress_admin_assets (take 1) (\<lambda>bs. bs @ [0]) [(''a/w.js'', [1, 2, 3]), (''a/w.js.br'', [9])] = Inr files'
    \<and> map_of files' ''a/w.js'' = Some [1, 2, 3] \<and> map_of files' ''a/w.js.gz'' = Some [1] \<and> map_of files' ''a/w.js.br'' = None"
proof -
  have "compressible ''a/w.js''" by code_simp
  with compress_assets_siblings [of "[(''a/w.js'', [1, 2, 3]), (''a/w.js.br'', [9])]" "take 1" "\<lambda>bs. bs @ [0]" "''a/w.js''" "[1, 2, 3]"]
  show ?thesis by auto
qed

end
