(* ===== verification/Routing_Properties.thy ===== *)
theory Routing_Properties
  imports Demo_Env
begin

section \<open>Properties of the routing policies\<close>

text \<open>
  Validation, fairness and stability of the three policies, over the operations of \<open>Routing_Base\<close>,
  \<open>Round_Robin\<close>, \<open>Weighted_Random\<close> and \<open>Sticky_Hash\<close>.
\<close>

subsection \<open>Validation\<close>

definition policy_spec :: "routing_policy \<Rightarrow> (string \<times> pyval) list" where
  "policy_spec p = (case p of
     RoundRobin n \<Rightarrow> [(''type'', PStr ''round-robin''), (''max_answers'', PInt n)]
   | WeightedRandom n \<Rightarrow> [(''type'', PStr ''weighted-random''), (''max_answers'', PInt n)]
   | StickyHash n p4 p6 \<Rightarrow> [(''type'', PStr ''sticky-hash''), (''max_answers'', PInt n),
       (''ipv4_prefix'', PInt p4), (''ipv6_prefix'', PInt p6)])"

lemma routing_create_policy_spec: "policy_wf p \<Longrightarrow> routing_create (policy_spec p) = Inr p"
  by (cases p)
     (simp_all add: policy_spec_def routing_create_def create_fields_def routing_registry_def Let_def
       spec_params_def check_names_def required_fields_def field_value_def policy_wf_def routing_build_def)

text \<open>
  The policies that can be configured are exactly the well-formed ones: at least one answer, and
  prefixes within the widths of the two families.
\<close>

theorem routing_create_iff: "(\<exists>spec. routing_create spec = Inr p) \<longleftrightarrow> policy_wf p"
  using routing_create_wf routing_create_policy_spec by blast

text \<open>
  No JSON value crashes the policy resolver with anything but the exception of the JSON parser or a
  \<open>ValueError\<close>.
\<close>

theorem routing_resolve_errors:
  assumes "routing_resolve loads s = Inl e"
  shows "loads s = Inl e \<or> (\<exists>m. e = ValueError m)"
proof (cases "loads s")
  case (Inr v)
  with assms show ?thesis
    by (cases v) (auto simp: routing_resolve_def dest: routing_create_InlD)
qed (use assms in \<open>simp add: routing_resolve_def\<close>)

theorem routing_resolve_errors_witness:
  "(\<lambda>_. Inr (PList [])) ''[]'' = Inl (ValueError ''policy_json must be a JSON object'') \<or>
     (\<exists>m. ValueError ''policy_json must be a JSON object'' = ValueError m)"
  by (rule routing_resolve_errors [where loads = "\<lambda>_. Inr (PList [])"]) (simp add: routing_resolve_def)

subsection \<open>Fairness\<close>

text \<open>
  A round-robin answer over a tier larger than \<open>max_answers\<close> is any choice of that many records
  of the highest tier, in any order, and nothing else.
\<close>

theorem round_robin_reachable:
  assumes "0 \<le> cap" and "cap < int (length (highest_tier cs))"
  shows "(\<exists>r r'. round_robin_select cap cs r = (Inr ys, r')) \<longleftrightarrow>
    mset ys \<subseteq># mset (highest_tier cs) \<and> int (length ys) = cap"
proof
  assume "\<exists>r r'. round_robin_select cap cs r = (Inr ys, r')"
  then obtain r r' where "round_robin_select cap cs r = (Inr ys, r')" by blast
  from round_robin_InrD [OF assms(1) this] assms
  show "mset ys \<subseteq># mset (highest_tier cs) \<and> int (length ys) = cap" by auto
next
  assume y: "mset ys \<subseteq># mset (highest_tier cs) \<and> int (length ys) = cap"
  then obtain r where "sample (highest_tier cs) (int (length ys)) r = (Inr ys, (\<lambda>_. 0))"
    using sample_complete by blast
  with y assms(2) have "round_robin_select cap cs r = (Inr ys, (\<lambda>_. 0))"
    by (simp add: round_robin_select_def Let_def)
  then show "\<exists>r r'. round_robin_select cap cs r = (Inr ys, r')" by blast
qed

theorem round_robin_reachable_witness:
  "(\<exists>r r'. round_robin_select 1 [demo_record 1 ''rr'' ''ten'', demo_record 2 ''rr'' ''ten''] r
      = (Inr [demo_record 2 ''rr'' ''ten''], r'))
   \<longleftrightarrow> mset [demo_record 2 ''rr'' ''ten''] \<subseteq># mset (highest_tier [demo_record 1 ''rr'' ''ten'', demo_record 2 ''rr'' ''ten''])
     \<and> int (length [demo_record 2 ''rr'' ''ten'']) = 1"
  by (rule round_robin_reachable) (simp_all add: highest_tier_eq)

lemma weighted_select_one:
  assumes "weights_nonneg cs" "d < nat (total_weight cs)"
  shows "\<exists>x. weighted_pick (sort_key r_content cs) (int d) = Inr x \<and>
    weighted_random_select 1 cs (rng_cons d r) = (Inr [x], r)"
proof -
  let ?s = "sort_key r_content cs"
  have tot: "total_weight ?s = total_weight cs"
    unfolding total_weight_def sum_mset_sum_list [symmetric] by simp
  have nn: "weights_nonneg ?s" using assms(1) by (simp add: weights_nonneg_def)
  have d: "0 \<le> int d" "int d < total_weight ?s" using assms(2) tot by linarith+
  obtain x where x: "weighted_pick ?s (int d) = Inr x"
    using weighted_pick_positive [OF nn d] by blast
  have ne: "cs \<noteq> []" using assms(2) by auto
  then have one: "min 1 (int (length cs)) = 1" by (cases cs) simp_all
  have "randrange (total_weight ?s) (rng_cons d r) = (Inr (int d), r)"
    using randrange_all [OF d] by simp
  then have "weighted_loop 1 [] ?s (rng_cons d r) = weighted_loop 1 [x] (remove1 x ?s) r"
    using d x by (subst weighted_loop.simps) simp
  then show ?thesis using x by (simp add: weighted_random_select_def one weighted_loop.simps)
qed

text \<open>
  C21: with \<open>max_answers\<close> 1, a record is answered by exactly as many of the equally likely draws as its
  weight says, out of as many draws as the weights add up to.
\<close>

theorem weighted_random_share:
  assumes "weights_nonneg cs" and "distinct cs" and "c \<in> set cs"
  shows "card {d. d < nat (total_weight cs) \<and> weighted_random_select 1 cs (rng_cons d r) = (Inr [c], r)}
    = nat (r_weight c)"
proof -
  let ?s = "sort_key r_content cs"
  let ?A = "{draw. 0 \<le> draw \<and> draw < total_weight ?s \<and> weighted_pick ?s draw = Inr c}"
  have tot: "total_weight ?s = total_weight cs"
    unfolding total_weight_def sum_mset_sum_list [symmetric] by simp
  let ?D = "{d. d < nat (total_weight cs) \<and> weighted_random_select 1 cs (rng_cons d r) = (Inr [c], r)}"
  have e: "d \<in> ?D \<longleftrightarrow> int d \<in> ?A" for d
    using weighted_select_one [OF assms(1), of d r] tot by auto
  have "?A = int ` ?D"
  proof (intro set_eqI iffI)
    fix x assume x: "x \<in> ?A"
    then have "0 \<le> x" by blast
    then have n: "x = int (nat x)" by simp
    have "nat x \<in> ?D" by (rule iffD2 [OF e]) (use x n in metis)
    with n show "x \<in> int ` ?D" by (rule image_eqI)
  qed (use e in blast)
  then have "card ?A = card {d. d < nat (total_weight cs) \<and> weighted_random_select 1 cs (rng_cons d r) = (Inr [c], r)}"
    by (simp add: card_image)
  then show ?thesis
    using card_weighted_pick [of ?s c] assms by (simp add: weights_nonneg_def)
qed

theorem weighted_random_share_witness:
  "card {d. d < nat (total_weight [demo_record 1 ''w'' ''v'', (demo_record 2 ''w'' ''v'')\<lparr>r_weight := 3\<rparr>]) \<and>
     weighted_random_select 1 [demo_record 1 ''w'' ''v'', (demo_record 2 ''w'' ''v'')\<lparr>r_weight := 3\<rparr>]
       (rng_cons d (\<lambda>_. 0)) = (Inr [(demo_record 2 ''w'' ''v'')\<lparr>r_weight := 3\<rparr>], (\<lambda>_. 0))}
   = nat (r_weight ((demo_record 2 ''w'' ''v'')\<lparr>r_weight := 3\<rparr>))"
  by (rule weighted_random_share) (simp_all add: demo_record_def weights_nonneg_def)

text \<open>
  A weighted-random answer is a sub-multiset of the candidates of size \<open>max_answers\<close>, or all of
  them; a zero-weight record is answered only together with every record of positive weight.
\<close>

theorem weighted_random_zero_last:
  assumes "weights_nonneg cs" and "weighted_random_select cap cs r = (Inr ys, r')"
  shows "mset ys \<subseteq># mset cs \<and> int (length ys) = max 0 (min cap (int (length cs))) \<and>
    ((\<exists>y \<in> set ys. r_weight y = 0) \<longrightarrow> mset (filter (\<lambda>c. 0 < r_weight c) cs) \<subseteq># mset ys)"
  using weighted_random_outcome [OF assms(1), of cap r] assms(2)
  by (auto simp: weighted_outcome_def positives_def)

theorem weighted_random_zero_last_witness:
  "mset (filter (\<lambda>c. 0 < r_weight c) [(demo_record 2 ''w'' ''v'')\<lparr>r_weight := 0\<rparr>, demo_record 1 ''w'' ''v''])
     \<subseteq># mset [demo_record 1 ''w'' ''v'', (demo_record 2 ''w'' ''v'')\<lparr>r_weight := 0\<rparr>]"
proof -
  have "weights_nonneg [(demo_record 2 ''w'' ''v'')\<lparr>r_weight := 0\<rparr>, demo_record 1 ''w'' ''v'']"
    by (simp add: demo_record_def weights_nonneg_def)
  moreover have "weighted_random_select 2 [(demo_record 2 ''w'' ''v'')\<lparr>r_weight := 0\<rparr>, demo_record 1 ''w'' ''v''] (\<lambda>_. 0)
      = (Inr [demo_record 1 ''w'' ''v'', (demo_record 2 ''w'' ''v'')\<lparr>r_weight := 0\<rparr>], rng_tail (rng_tail (\<lambda>_. 0)))"
    by (simp add: weighted_random_select_def weighted_loop.simps demo_record_def randrange_def
        weighted_pick_def sample_def rng_tail_def str_int_def digits_of.simps Let_def numeral_2_eq_2)
  ultimately show ?thesis
    using weighted_random_zero_last by fastforce
qed

text \<open>Two buffers are equal only for the same network and the same content, so the digest never mixes up pairs.\<close>

theorem hash_buffer_injective:
  assumes "hash_buffer net1 content1 = Inr b" and "hash_buffer net2 content2 = Inr b"
  shows "net1 = net2 \<and> content1 = content2"
  using hash_buffer_inj [OF assms] .

theorem hash_buffer_injective_witness: "[192, 0, 2 :: nat] = [192, 0, 2] \<and> ''a'' = ''a''"
  by (rule hash_buffer_injective [where b = "[0, 3, 192, 0, 2, 0, 0, 0, 1, 97]"])
     code_simp+

lemma highest_tier_mset_cong: "mset cs = mset ds \<Longrightarrow> mset (highest_tier cs) = mset (highest_tier ds)"
proof -
  assume m: "mset cs = mset ds"
  then have "set cs = set ds" by (rule mset_eq_setD)
  with m show ?thesis by (simp add: highest_tier_eq mset_filter)
qed

text \<open>
  The contents a client is given, and their order, depend on the multiset of candidates and the
  client's masked network only: not on the order the database returned the rows in, nor on the host bits.
\<close>

theorem sticky_hash_stable:
  assumes "content_ok cs" and "prefixes_ok p4 p6" and "0 \<le> cap" and "mset cs = mset ds"
    and "ip_version (ctx_ip ctx) = ip_version (ctx_ip ctx')"
    and "leading_bits (family_prefix (ctx_ip ctx) p4 p6) (ctx_ip ctx)
      = leading_bits (family_prefix (ctx_ip ctx) p4 p6) (ctx_ip ctx')"
  shows "\<exists>ys zs. sticky_hash_select digest cap p4 p6 cs ctx = Inr ys
    \<and> sticky_hash_select digest cap p4 p6 ds ctx' = Inr zs \<and> map r_content ys = map r_content zs"
proof -
  obtain network where n: "masked_network (ctx_ip ctx) p4 p6 = Inr network"
    using masked_network_returns [OF assms(2)] by blast
  then have n': "masked_network (ctx_ip ctx') p4 p6 = Inr network"
    using masked_network_cong [OF assms(2,5,6)] by simp
  have ok: "content_ok ds" using assms(1) mset_eq_setD [OF assms(4)] by (simp add: content_ok_def)
  show ?thesis
    using sticky_hash_select_eq [OF assms(1,2,3) n] sticky_hash_select_eq [OF ok assms(2,3) n']
      hrw_rank_contents_cong [OF highest_tier_mset_cong [OF assms(4)], of digest network]
    by (simp add: take_map [symmetric])
qed

theorem sticky_hash_stable_witness:
  "\<exists>ys zs. sticky_hash_select (\<lambda>bs. bs) 1 24 64 [demo_record 1 ''s'' ''v'', demo_record 2 ''s'' ''v''] (demo_client 0xC0000201) = Inr ys
    \<and> sticky_hash_select (\<lambda>bs. bs) 1 24 64 [demo_record 2 ''s'' ''v'', demo_record 1 ''s'' ''v''] (demo_client 0xC00002FF) = Inr zs
    \<and> map r_content ys = map r_content zs"
proof (rule sticky_hash_stable)
  show "content_ok [demo_record 1 ''s'' ''v'', demo_record 2 ''s'' ''v'']"
    using demo_records_ok by (simp add: records_ok_def)
  show "leading_bits (family_prefix (ctx_ip (demo_client 0xC0000201)) 24 64) (ctx_ip (demo_client 0xC0000201))
      = leading_bits (family_prefix (ctx_ip (demo_client 0xC0000201)) 24 64) (ctx_ip (demo_client 0xC00002FF))"
    by code_simp
qed (simp_all add: prefixes_ok_def demo_client_def)

lemma highest_tier_filter:
  assumes "x \<in> set (highest_tier cs)" "P x"
  shows "highest_tier (filter P cs) = filter P (highest_tier cs)"
proof -
  have x: "x \<in> set cs" "r_weight x = Max (r_weight ` set cs)" using assms(1) by (auto simp: highest_tier_eq)
  have "Max (r_weight ` set (filter P cs)) = Max (r_weight ` set cs)"
  proof (rule Max_eqI)
    fix y assume "y \<in> r_weight ` set (filter P cs)"
    then show "y \<le> Max (r_weight ` set cs)" by (auto intro: Max_ge)
  qed (use x assms(2) in \<open>auto simp: image_iff\<close>)
  then show ?thesis by (simp add: highest_tier_eq conj_commute)
qed

text \<open>
  C20: minimal disruption: removing records that a client was not given (a failed or deleted backend)
  leaves the client's answer as it is.
\<close>

theorem sticky_hash_minimal_disruption:
  assumes "content_ok cs" and "prefixes_ok p4 p6" and "1 \<le> cap"
    and "sticky_hash_select digest cap p4 p6 cs ctx = Inr ys" and "\<forall>y \<in> set ys. P y" and "cs \<noteq> []"
  shows "sticky_hash_select digest cap p4 p6 (filter P cs) ctx = Inr ys"
proof -
  obtain network where n: "masked_network (ctx_ip ctx) p4 p6 = Inr network"
    using masked_network_returns [OF assms(2)] by blast
  let ?rank = "hrw_rank digest network"
  have ys: "ys = take (nat cap) (?rank (highest_tier cs))"
    using sticky_hash_select_eq [OF assms(1,2) _ n] assms(3,4) by simp
  have "?rank (highest_tier cs) \<noteq> []"
    using highest_tier_nonempty [OF assms(6)] by (metis length_hrw_rank length_0_conv)
  with assms(3) have "ys \<noteq> []" by (simp add: ys)
  then obtain x where "x \<in> set ys" by (cases ys) auto
  then have x: "x \<in> set (highest_tier cs)" "P x"
    using assms(5) ys by (auto dest: in_set_takeD)
  have "content_ok (filter P cs)" using assms(1) by (simp add: content_ok_def)
  from sticky_hash_select_eq [OF this assms(2) _ n, of cap] assms(3)
  have "sticky_hash_select digest cap p4 p6 (filter P cs) ctx =
      Inr (take (nat cap) (filter P (?rank (highest_tier cs))))"
    by (simp add: highest_tier_filter [where x = x and P = P, OF x] hrw_rank_filter)
  also have "\<dots> = Inr ys" using take_filter_same [of "nat cap" "?rank (highest_tier cs)" P] assms(5) ys by simp
  finally show ?thesis .
qed

theorem sticky_hash_minimal_disruption_witness:
  "sticky_hash_select (\<lambda>bs. bs) 1 24 64
     (filter (\<lambda>x. r_id x \<noteq> 1) [demo_record 1 ''s'' ''v'', demo_record 2 ''s'' ''v'']) (demo_client 0xC0000201)
   = Inr [demo_record 2 ''s'' ''v'']"
proof (rule sticky_hash_minimal_disruption)
  show "sticky_hash_select (\<lambda>bs. bs) 1 24 64 [demo_record 1 ''s'' ''v'', demo_record 2 ''s'' ''v'']
      (demo_client 0xC0000201) = Inr [demo_record 2 ''s'' ''v'']"
    by code_simp
  show "content_ok [demo_record 1 ''s'' ''v'', demo_record 2 ''s'' ''v'']"
    using demo_records_ok by (simp add: records_ok_def)
qed (simp_all add: prefixes_ok_def)

end
