(* ===== verification/View_Properties.thy ===== *)
theory View_Properties
  imports Demo_Env
begin

section \<open>Properties of view rules\<close>

text \<open>
  What a rule text compiles to and which clients a compiled rule matches, over the operations of
  \<open>View_Rule\<close> and \<open>GeoIP\<close>.
\<close>

definition token_network :: "(string \<Rightarrow> ip_network result) \<Rightarrow> string \<Rightarrow> ip_network option" where
  "token_network parse_net t =
     (case parse_geo_token t of
        Inr None \<Rightarrow> (case parse_net t of Inr n \<Rightarrow> Some n | Inl _ \<Rightarrow> None)
      | _ \<Rightarrow> None)"

definition token_selector :: "string \<Rightarrow> (string \<times> string) option" where
  "token_selector t = (case parse_geo_token t of Inr g \<Rightarrow> g | Inl _ \<Rightarrow> None)"

lemma add_token_eq:
  "add_token parse_net (cs, gs) t = Inr st \<longleftrightarrow>
     (token_network parse_net t \<noteq> None \<or> token_selector t \<noteq> None) \<and>
     st = (cs @ List.map_filter (token_network parse_net) [t], gs @ List.map_filter token_selector [t])"
  by (cases "parse_geo_token t"; cases "parse_net t")
     (auto simp: add_token_def token_network_def token_selector_def map_filter_simps
       split: option.splits py_error.splits)

lemma foldr_tokens_eq:
  "foldr_result (add_token parse_net) (cs, gs) ts = Inr st \<longleftrightarrow>
     (\<forall>t \<in> set ts. token_network parse_net t \<noteq> None \<or> token_selector t \<noteq> None) \<and>
     st = (cs @ List.map_filter (token_network parse_net) ts, gs @ List.map_filter token_selector ts)"
proof (induction ts arbitrary: cs gs)
  case (Cons t ts)
  have "foldr_result (add_token parse_net) (cs, gs) (t # ts) = Inr st \<longleftrightarrow>
      (token_network parse_net t \<noteq> None \<or> token_selector t \<noteq> None) \<and>
      foldr_result (add_token parse_net)
        (cs @ List.map_filter (token_network parse_net) [t], gs @ List.map_filter token_selector [t]) ts = Inr st"
    by (auto simp: bind_result_Inr_iff add_token_eq)
  then show ?case unfolding Cons.IH by (auto simp: map_filter_simps split: option.splits)
qed (auto simp: map_filter_simps)

text \<open>
  A rule compiles exactly when it has a token and each token is a geo selector or a network; the
  compiled rule holds the networks and the selectors in order, and the match-all flag they imply.
\<close>

theorem view_resolve_iff:
  "view_resolve parse_net rule = Inr v \<longleftrightarrow>
     split_ws rule \<noteq> [] \<and>
     (\<forall>t \<in> set (split_ws rule). token_network parse_net t \<noteq> None \<or> token_selector t \<noteq> None) \<and>
     v = make_view_rule (List.map_filter (token_network parse_net) (split_ws rule))
           (List.map_filter token_selector (split_ws rule))"
  by (auto simp: view_resolve_def Let_def bind_result_Inr_iff foldr_tokens_eq)

theorem view_resolve_iff_witness:
  "view_resolve (e_parse_net demo_env) ''ten country:de'' =
     Inr (make_view_rule [\<lparr>net_ip = IPv4 0x0A000000, net_prefixlen = 8\<rparr>] [(''country'', ''DE'')])"
  by (subst view_resolve_iff) code_simp

lemma selected_iff:
  "(\<exists>x \<in> S. case x of (kind, val) \<Rightarrow> (kind = K \<and> Some val = a) \<or> (kind = L \<and> Some val = b)) \<longleftrightarrow>
     (\<exists>c. a = Some c \<and> (K, c) \<in> S) \<or> (\<exists>c. b = Some c \<and> (L, c) \<in> S)"
  by (cases a; cases b) fastforce+

text \<open>
  C34: a client matches a compiled rule exactly when one of the rule's networks contains it or its
  country or continent is selected. The match-all shortcut changes nothing, and a geo selector never
  matches a client whose location no database gives.
\<close>

theorem view_matches_spec:
  assumes "contains_all_of_family contains" and "geo_lookup_ok geoip (ctx_ip ctx)"
    and "view_resolve parse_net text = Inr rule"
  shows "fst (view_matches contains geoip rule ctx) =
    Inr ((\<exists>net \<in> set (cidrs rule). contains (ctx_ip ctx) net) \<or>
         (\<exists>g. client_geo_of geoip ctx = Some g \<and>
            ((\<exists>c. country g = Some c \<and> (''country'', c) \<in> set (geos rule)) \<or>
             (\<exists>c. continent g = Some c \<and> (''continent'', c) \<in> set (geos rule)))))"
proof -
  have wf: "rule_wf rule" using view_resolve_wf [OF assms(3)] .
  have geo: "geo_matches rule g \<longleftrightarrow> (\<exists>c. country g = Some c \<and> (''country'', c) \<in> set (geos rule)) \<or>
             (\<exists>c. continent g = Some c \<and> (''continent'', c) \<in> set (geos rule))" for g
    unfolding geo_matches_def list_ex_iff by (rule selected_iff)
  obtain ctx' where "view_matches contains geoip rule ctx =
      (Inr (rule_admits contains rule (ctx_ip ctx) (client_geo_of geoip ctx)), ctx')"
    using view_matches_correct [OF assms(2)] by blast
  moreover have "rule_admits contains rule (ctx_ip ctx) (client_geo_of geoip ctx) \<longleftrightarrow>
      (\<exists>net \<in> set (cidrs rule). contains (ctx_ip ctx) net) \<or>
      (\<exists>g. client_geo_of geoip ctx = Some g \<and> geo_matches rule g)"
    using match_all_contains [OF assms(1) wf, of "ctx_ip ctx"]
    by (cases "client_geo_of geoip ctx") (auto simp: rule_admits_def)
  ultimately show ?thesis by (simp add: geo)
qed

theorem view_matches_spec_witness:
  "fst (view_matches demo_contains None (make_view_rule [\<lparr>net_ip = IPv4 0x0A000000, net_prefixlen = 8\<rparr>] [(''country'', ''DE'')])
      (demo_client 0x0A000001)) =
    Inr ((\<exists>net \<in> set (cidrs (make_view_rule [\<lparr>net_ip = IPv4 0x0A000000, net_prefixlen = 8\<rparr>] [(''country'', ''DE'')])).
            demo_contains (ctx_ip (demo_client 0x0A000001)) net) \<or>
         (\<exists>g. client_geo_of None (demo_client 0x0A000001) = Some g \<and>
            ((\<exists>c. country g = Some c \<and> (''country'', c) \<in>
                set (geos (make_view_rule [\<lparr>net_ip = IPv4 0x0A000000, net_prefixlen = 8\<rparr>] [(''country'', ''DE'')]))) \<or>
             (\<exists>c. continent g = Some c \<and> (''continent'', c) \<in>
                set (geos (make_view_rule [\<lparr>net_ip = IPv4 0x0A000000, net_prefixlen = 8\<rparr>] [(''country'', ''DE'')]))))))"
proof (rule view_matches_spec)
  have "leading_bits 0 a = 0" for a
    using ip_value_bounds [of a] by (simp add: leading_bits_def drop_bit_eq_div)
  then show "contains_all_of_family demo_contains"
    by (simp add: contains_all_of_family_def demo_contains_def)
  show "view_resolve (e_parse_net demo_env) ''ten country:de'' =
      Inr (make_view_rule [\<lparr>net_ip = IPv4 0x0A000000, net_prefixlen = 8\<rparr>] [(''country'', ''DE'')])"
    by code_simp
qed (simp add: geo_lookup_ok_def)

end
