(* ===== verification/Check_Properties.thy ===== *)
theory Check_Properties
  imports Check_Base
begin

section \<open>Properties of check construction\<close>

text \<open>
  \<open>Check.create\<close> accepts exactly the well-formed checks, and what it raises otherwise; the codes an
  \<open>expected_status\<close> specification covers.
\<close>

lemma validators_return_check [simp]:
  "returns (check_validate_positive n) \<longleftrightarrow> 1 \<le> n"
  "returns (check_validate_port n) \<longleftrightarrow> 1 \<le> n \<and> n \<le> 65535"
  by (auto simp: check_validate_positive_def check_validate_port_def)

lemma check_field_simps [simp]:
  "f_name (positive_field n d) = n" "f_default (positive_field n d) = Some (PInt d)"
  "field_ok (positive_field n d) v \<longleftrightarrow> (\<exists>i. v = PInt i \<and> 1 \<le> i)"
  "f_name (port_field n) = n" "f_default (port_field n) = None"
  "field_ok (port_field n) v \<longleftrightarrow> (\<exists>i. v = PInt i \<and> 1 \<le> i \<and> i \<le> 65535)"
  "f_name (ip_field env n) = n" "f_default (ip_field env n) = None"
  "field_ok (ip_field env n) v \<longleftrightarrow> (\<exists>s. v = PStr s \<and> ce_ip_ok env s)"
  "f_name (regex_field env n) = n" "f_default (regex_field env n) = Some (PStr [])"
  "field_ok (regex_field env n) v \<longleftrightarrow> (\<exists>s. v = PStr s \<and> ce_regex_ok env s)"
  "f_name (plain_field n t d') = n" "f_default (plain_field n t d') = d'"
  "field_ok (plain_field n t d') v \<longleftrightarrow> type_ok t v"
  by (auto simp: positive_field_def port_field_def ip_field_def regex_field_def plain_field_def
      field_ok_def type_ok_simps)

definition kind_wf :: "check_env \<Rightarrow> check_kind \<Rightarrow> bool" where
  "kind_wf env k = (case k of
     NoCheck \<Rightarrow> True
   | IcmpCheck ip \<Rightarrow> ce_ip_ok env ip
   | TcpCheck ip port \<Rightarrow> ce_ip_ok env ip \<and> 1 \<le> port \<and> port \<le> 65535
   | TlsCheck ip port _ _ \<Rightarrow> ce_ip_ok env ip \<and> 1 \<le> port \<and> port \<le> 65535
   | HttpCheck url meth expected body_match _ _ statuses \<Rightarrow>
       (\<exists>parts. ce_urlsplit env url = Inr parts \<and> u_scheme parts \<in> {''http'', ''https''} \<and> u_netloc parts \<noteq> [])
       \<and> parse_status_spec expected = Inr statuses \<and> meth \<in> {''GET'', ''HEAD''}
       \<and> (meth = ''HEAD'' \<longrightarrow> body_match = []) \<and> ce_regex_ok env body_match
   | ExecCheck args excode output_match _ \<Rightarrow>
       args \<noteq> [] \<and> 0 \<le> excode \<and> excode \<le> 255 \<and> ce_regex_ok env output_match)"

definition check_wf :: "check_env \<Rightarrow> check \<Rightarrow> bool" where
  "check_wf env c \<longleftrightarrow> 1 \<le> ck_timeout c \<and> ck_timeout c \<le> ck_interval c \<and> 1 \<le> ck_fall c \<and> 1 \<le> ck_rise c
     \<and> kind_wf env (ck_kind c)"

lemma check_registry_cases:
  assumes "check_registry env t = Some fs"
  obtains "t = ''none''" "fs = base_fields"
    | "t = ''icmp''" "fs = base_fields @ [ip_field env ''ip'']"
    | "t = ''tcp''" "fs = base_fields @ [ip_field env ''ip'', port_field ''port'']"
    | "t = ''tls''" "fs = base_fields @ [ip_field env ''ip'', port_field ''port'',
         plain_field ''tls_verify'' TBool (Some (PBool True)), plain_field ''host'' TStr (Some (PStr []))]"
    | "t = ''http''" "fs = base_fields @ [plain_field ''url'' TStr None,
         plain_field ''method'' TStr (Some (PStr ''GET'')),
         plain_field ''expected_status'' TStr (Some (PStr ''200-399'')), regex_field env ''body_match'',
         plain_field ''tls_verify'' TBool (Some (PBool True)), plain_field ''host'' TStr (Some (PStr []))]"
    | "t = ''exec''" "fs = base_fields @ [plain_field ''args'' TList None,
         plain_field ''expected_code'' TInt (Some (PInt 0)), regex_field env ''output_match'',
         plain_field ''redirect_error'' TBool (Some (PBool True))]"
  using assms by (auto simp: check_registry_def split: if_splits)

lemma base_fields_ok:
  assumes "\<forall>f \<in> set (base_fields @ own). field_ok f (val (f_name f))"
  shows "\<exists>i j k l. val ''interval'' = PInt i \<and> 1 \<le> i \<and> val ''timeout'' = PInt j \<and> 1 \<le> j
    \<and> val ''fall'' = PInt k \<and> 1 \<le> k \<and> val ''rise'' = PInt l \<and> 1 \<le> l"
  using assms by (simp add: base_fields_def)

lemma build_kind_wf:
  assumes "check_registry env t = Some fs" "\<forall>f \<in> set fs. field_ok f (val (f_name f))"
    and "build_kind env t val = Inr k"
  shows "kind_wf env k"
  using assms(1)
proof (cases rule: check_registry_cases)
  case 5
  with assms(2) obtain u m b h s where v: "val ''url'' = PStr u" "val ''method'' = PStr m" "val ''body_match'' = PStr b"
    "val ''host'' = PStr h" "val ''expected_status'' = PStr s" "ce_regex_ok env b"
    by (auto simp: type_ok_simps)
  have "post_init_http env val = Inr k" using assms(3) by (simp add: 5 build_kind_def)
  then show ?thesis using v(6)
    by (auto simp: v(1-5) post_init_http_def Let_def bind_result_Inr_iff kind_wf_def split: if_splits)
next
  case 6
  with assms(2) obtain b where v: "val ''output_match'' = PStr b" "ce_regex_ok env b"
    by (auto simp: type_ok_simps)
  have "post_init_exec val = Inr k" using assms(3) by (simp add: 6 build_kind_def)
  then show ?thesis using v
    by (auto simp: post_init_exec_def Let_def kind_wf_def split: if_splits)
qed (use assms(2,3) in \<open>auto simp: build_kind_def kind_wf_def type_ok_simps\<close>)

lemma check_create_wf [invariants]:
  assumes "check_create env spec = Inr c" shows "check_wf env c"
proof -
  from assms obtain t val k where c: "create_fields ''check'' (check_registry env) spec = Inr (t, val)"
    "build_kind env t val = Inr k"
    "c = \<lparr>ck_interval = int_of (val ''interval''),
          ck_timeout = (if int_of (val ''interval'') < int_of (val ''timeout'') then int_of (val ''interval'')
                        else int_of (val ''timeout'')),
          ck_fall = int_of (val ''fall''), ck_rise = int_of (val ''rise''), ck_kind = k\<rparr>"
    by (auto simp: check_create_def Let_def bind_result_Inr_iff)
  from c(1) obtain fs where fs: "check_registry env t = Some fs" "\<forall>f \<in> set fs. field_ok f (val (f_name f))"
    by (auto simp: create_fields_Inr_iff)
  then obtain own where "fs = base_fields @ own" by (auto simp: check_registry_def)
  with fs(2) base_fields_ok [of own val] c(3) build_kind_wf [OF fs c(2)] show ?thesis
    by (auto simp: check_wf_def)
qed

definition kind_spec :: "check_kind \<Rightarrow> (string \<times> pyval) list" where
  "kind_spec k = (case k of
     NoCheck \<Rightarrow> [(''type'', PStr ''none'')]
   | IcmpCheck ip \<Rightarrow> [(''type'', PStr ''icmp''), (''ip'', PStr ip)]
   | TcpCheck ip port \<Rightarrow> [(''type'', PStr ''tcp''), (''ip'', PStr ip), (''port'', PInt port)]
   | TlsCheck ip port verify host \<Rightarrow> [(''type'', PStr ''tls''), (''ip'', PStr ip), (''port'', PInt port),
       (''tls_verify'', PBool verify), (''host'', PStr host)]
   | HttpCheck url meth expected body_match verify host _ \<Rightarrow> [(''type'', PStr ''http''), (''url'', PStr url),
       (''method'', PStr meth), (''expected_status'', PStr expected), (''body_match'', PStr body_match),
       (''tls_verify'', PBool verify), (''host'', PStr host)]
   | ExecCheck args excode output_match redirect \<Rightarrow> [(''type'', PStr ''exec''), (''args'', PList (map PStr args)),
       (''expected_code'', PInt excode), (''output_match'', PStr output_match), (''redirect_error'', PBool redirect)])"

definition check_spec_of :: "check \<Rightarrow> (string \<times> pyval) list" where
  "check_spec_of c = kind_spec (ck_kind c) @
     [(''interval'', PInt (ck_interval c)), (''timeout'', PInt (ck_timeout c)),
      (''fall'', PInt (ck_fall c)), (''rise'', PInt (ck_rise c))]"

lemma check_create_spec_of:
  assumes "check_wf env c" shows "check_create env (check_spec_of c) = Inr c"
  using assms
  by (cases c; cases "ck_kind c")
     (auto simp: check_spec_of_def kind_spec_def check_wf_def kind_wf_def check_create_def create_fields_def
       check_registry_def base_fields_def Let_def spec_params_def check_names_def required_fields_def
       field_value_def type_ok_simps build_kind_def post_init_http_def post_init_exec_def list_all_iff comp_def)


text \<open>
  C37: the checks that can be configured are exactly the well-formed ones: positive counts and durations,
  a timeout capped at the interval, ports, codes, methods and patterns within their ranges.
\<close>

theorem check_create_iff: "(\<exists>spec. check_create env spec = Inr c) \<longleftrightarrow> check_wf env c"
  using check_create_wf check_create_spec_of by blast

subsection \<open>The accepted statuses\<close>

definition status_accepts :: "string \<Rightarrow> int \<Rightarrow> bool" where
  "status_accepts token n = (case status_bounds token of Inl _ \<Rightarrow> False | Inr (l, h) \<Rightarrow> l \<le> n \<and> n \<le> h)"

lemma parse_statuses_aux:
  "foldr_result (\<lambda>statuses token. bind_result (status_bounds token) (\<lambda>(l, h). Inr (statuses @ [l..h]))) acc ts = Inr ns
    \<Longrightarrow> (\<forall>t \<in> set ts. returns (status_bounds t)) \<and> set ns = set acc \<union> {n. \<exists>t \<in> set ts. status_accepts t n}"
proof (induction ts arbitrary: acc)
  case (Cons t ts)
  then obtain l h where b: "status_bounds t = Inr (l, h)"
    "foldr_result (\<lambda>statuses token. bind_result (status_bounds token) (\<lambda>(l, h). Inr (statuses @ [l..h])))
      (acc @ [l..h]) ts = Inr ns"
    by (auto simp: bind_result_Inr_iff)
  from Cons.IH [OF b(2)] b(1) show ?case by (auto simp: status_accepts_def)
qed simp

lemma status_bounds_range: "status_bounds t = Inr (l, h) \<Longrightarrow> 100 \<le> l \<and> l \<le> h \<and> h \<le> 599"
  by (auto simp: status_bounds_def Let_def split: prod.splits option.splits if_splits)

text \<open>
  An accepted status specification covers exactly the codes of its comma-separated codes and
  inclusive ranges; every token covers at least one code and all lie in 100 to 599.
\<close>

theorem parse_status_spec_codes:
  assumes "parse_status_spec spec = Inr ns"
  shows "(n \<in> set ns \<longleftrightarrow> (\<exists>token \<in> set (split_on (CHR '','') spec). status_accepts token n))
    \<and> set ns \<subseteq> {100..599} \<and> ns \<noteq> []
    \<and> (\<forall>token \<in> set (split_on (CHR '','') spec). \<exists>m. status_accepts token m)"
proof -
  let ?ts = "split_on (CHR '','') spec"
  note p = parse_statuses_aux [OF assms [unfolded parse_status_spec_def]]
  have some: "\<exists>m. status_accepts t m" if t: "t \<in> set ?ts" for t
  proof -
    from p t obtain l h where b: "status_bounds t = Inr (l, h)" by (auto simp: returns_iff)
    with status_bounds_range [OF b] have "status_accepts t l" by (simp add: status_accepts_def)
    then show ?thesis ..
  qed
  have rng: "100 \<le> m \<and> m \<le> 599" if "status_accepts t m" for t m
    using that status_bounds_range [of t] by (fastforce simp: status_accepts_def split: sum.splits prod.splits)
  obtain t where t: "t \<in> set ?ts" by (cases ?ts) auto
  then obtain m where "m \<in> set ns" using p some by blast
  then have "ns \<noteq> []" by auto
  with p some rng show ?thesis by auto
qed

theorem parse_status_spec_codes_witness:
  "list_ex (\<lambda>token. status_accepts token 204) (split_on (CHR '','') ''101, 200-204'')"
proof -
  have "parse_status_spec ''101, 200-204'' = Inr [101, 200, 201, 202, 203, 204]" by code_simp
  from parse_status_spec_codes [OF this, of 204] show ?thesis by (simp add: list_ex_iff)
qed

text \<open>
  A rejected check specification raises a \<open>ValueError\<close>, or what the URL splitter raises; nothing
  else escapes the validators.
\<close>

theorem check_create_errors:
  assumes "check_create env spec = Inl e"
  shows "(\<exists>m. e = ValueError m) \<or> (\<exists>url. ce_urlsplit env url = Inl e)"
proof -
  have st: "\<exists>m. f = ValueError m" if "parse_status_spec s = Inl f" for f s
  proof -
    have "foldr_result (\<lambda>statuses token. bind_result (status_bounds token) (\<lambda>(l, h). Inr (statuses @ [l..h]))) acc ts
        = Inl f \<Longrightarrow> f = status_invalid" for acc ts
      by (induction ts arbitrary: acc)
         (auto simp: bind_result_Inl_iff status_bounds_def Let_def split: prod.splits option.splits if_splits)
    then show ?thesis using that by (auto simp: parse_status_spec_def status_invalid_def invalid_parameter_def)
  qed
  have bk: "(\<exists>m. f = ValueError m) \<or> (\<exists>url. ce_urlsplit env url = Inl f)" if "build_kind env t val = Inl f" for t val f
    using that
    by (auto simp: build_kind_def post_init_http_def post_init_exec_def Let_def bind_result_Inl_iff
        invalid_parameter_def dest: st split: if_splits)
  from assms show ?thesis
    by (auto simp: check_create_def Let_def bind_result_Inl_iff dest: create_fields_InlD bk)
qed

theorem check_create_errors_witness:
  "(\<exists>m. invalid_parameter ''check'' ''type'' = ValueError m) \<or>
     (\<exists>url. ce_urlsplit \<lparr>ce_ip_ok = (\<lambda>_. True), ce_regex_ok = (\<lambda>_. True),
        ce_urlsplit = (\<lambda>_. Inl (OtherError ''e'')), ce_urlunsplit = (\<lambda>p q. p)\<rparr> url = Inl (invalid_parameter ''check'' ''type''))"
  by (rule check_create_errors [where spec = "[]"]) (simp add: check_create_def create_fields_def)

end
