(* ===== verification/Check_Verdicts.thy ===== *)
theory Check_Verdicts
  imports Check_Execute Check_Properties
begin

section \<open>Verdicts of the checks\<close>

text \<open>When the check of each type finds its target healthy, and a check that never can.\<close>

lemma http_execute_healthy:
  assumes "ck_kind c = HttpCheck url meth expected pattern verify host statuses"
  shows "http_execute env opts world c = Some (Inr True) \<longleftrightarrow>
    (\<exists>request status events body.
       http_request_of env opts url meth verify host = Inr request
       \<and> w_http world request (ck_timeout c) = Inr (status, events)
       \<and> read_body meth (nat (int_of (option_value opts ''http_body_chunk''))) events = Some (Inr (body, False))
       \<and> status \<in> set statuses \<and> (pattern = [] \<or> w_search world pattern body))"
proof (cases "http_request_of env opts url meth verify host")
  case (Inr request)
  then show ?thesis
    by (cases "w_http world request (ck_timeout c)")
       (auto simp: http_execute_def assms split: option.splits sum.splits prod.splits if_splits)
qed (simp add: http_execute_def assms)

lemma exec_execute_healthy_iff:
  assumes "ck_kind c = ExecCheck args expected pattern redirect"
  shows "exec_execute opts world c = Some (Inr True) \<longleftrightarrow>
    (\<exists>events out. w_exec world args redirect = Inr (events, Some expected) \<and>
       read_output (nat (int_of (option_value opts ''exec_output_chunk''))) [] events = Some (out, False) \<and>
       (pattern = [] \<or> w_search world pattern out))"
  using assms by (auto simp: exec_execute_def split: sum.split option.split)

text \<open>
  A check reports its target healthy exactly when everything it tests holds: a ping is answered; a TCP
  connection opens; on it a TLS handshake ends for the configured name, or else the address; an HTTP
  exchange has a declared status and, before the deadline, a body with the pattern; a command ends before
  the deadline with the expected code and an output with the pattern. A check of type none always does.
\<close>

theorem check_execute_healthy:
  "check_execute env opts world c = Some (Inr True) \<longleftrightarrow>
     (case ck_kind c of
        NoCheck \<Rightarrow> True
      | IcmpCheck ip \<Rightarrow> w_ping world ip (ck_timeout c) (bool_of (option_value opts ''icmp_privileged'')) = Inr True
      | TcpCheck ip port \<Rightarrow> w_connect world ip port (ck_timeout c) = Inr ()
      | TlsCheck ip port verify host \<Rightarrow> w_connect world ip port (ck_timeout c) = Inr ()
          \<and> w_handshake world verify (if host = [] then ip else host) = Inr ()
      | HttpCheck url meth _ pattern verify host statuses \<Rightarrow>
          (\<exists>request status events body.
             http_request_of env opts url meth verify host = Inr request
             \<and> w_http world request (ck_timeout c) = Inr (status, events)
             \<and> read_body meth (nat (int_of (option_value opts ''http_body_chunk''))) events = Some (Inr (body, False))
             \<and> status \<in> set statuses \<and> (pattern = [] \<or> w_search world pattern body))
      | ExecCheck args expected pattern redirect \<Rightarrow>
          (\<exists>events out. w_exec world args redirect = Inr (events, Some expected)
             \<and> read_output (nat (int_of (option_value opts ''exec_output_chunk''))) [] events = Some (out, False)
             \<and> (pattern = [] \<or> w_search world pattern out)))"
  using http_execute_healthy [of c] exec_execute_healthy_iff [of c]
  by (cases "ck_kind c")
     (simp_all add: check_execute_def icmp_execute_def tcp_execute_def tls_execute_def Let_def bind_result_Inr_iff)


definition hostless_env :: check_env where
  "hostless_env = \<lparr>ce_ip_ok = (\<lambda>_. True), ce_regex_ok = (\<lambda>_. True),
     ce_urlsplit = (\<lambda>_. Inr \<lparr>u_scheme = ''http'', u_netloc = '':80'', u_hostname = None, u_port = Inr (Some 80),
        u_path = ''/'', u_query = []\<rparr>), ce_urlunsplit = (\<lambda>p q. p)\<rparr>"

definition hostless_check :: check where
  "hostless_check = \<lparr>ck_interval = 3, ck_timeout = 1, ck_fall = 3, ck_rise = 5,
     ck_kind = HttpCheck ''http://:80/'' ''GET'' ''200'' [] True [] [200]\<rparr>"

definition fine_world :: check_world where
  "fine_world = \<lparr>w_ping = (\<lambda>_ _ _. Inr True), w_connect = (\<lambda>_ _ _. Inr ()), w_handshake = (\<lambda>_ _. Inr ()),
     w_search = (\<lambda>_ _. True), w_http = (\<lambda>_ _. Inr (200, [])), w_exec = (\<lambda>_ _. Inr ([], Some 0))\<rparr>"


end
