(* ===== verification/Config_Properties.thy ===== *)
theory Config_Properties
  imports Config
begin

section \<open>Properties of the configuration\<close>

text \<open>Which file an option's value comes from, and what an environment override may do to it.\<close>

lemma map_of_dict_update: "map_of (dict_update d opts) = map_of d ++ map_of (rev opts)"
  by (induction opts arbitrary: d) (auto simp: dict_update_def update_conv' map_add_def fun_eq_iff split: option.split)

lemma map_of_rev: "distinct (map fst xs) \<Longrightarrow> map_of (rev xs) = map_of xs"
  by (metis map_of_inject_set distinct_rev rev_map set_rev)

text \<open>The value a document gives an option, if any.\<close>

definition document_value :: "(string \<times> pyval) list \<Rightarrow> string \<Rightarrow> string \<Rightarrow> pyval option" where
  "document_value doc section option =
     (case map_of doc section of Some (PDict d) \<Rightarrow> map_of (str_items d) option | _ \<Rightarrow> None)"

definition document_ok :: "(string \<times> pyval) list \<Rightarrow> bool" where
  "document_ok doc \<longleftrightarrow> distinct (map fst doc) \<and>
     list_all (\<lambda>(_, v). case v of PDict d \<Rightarrow> distinct (map fst (str_items d)) | _ \<Rightarrow> False) doc"

lemma load_section_raw:
  assumes "distinct (map fst (str_items d))"
  shows "\<exists>data'. load_section data (sec, PDict d) = Inr data' \<and>
    config_raw data' section option dflt =
      (case (if section = sec then map_of (str_items d) option else None) of
         Some v \<Rightarrow> v | None \<Rightarrow> config_raw data section option dflt)"
  using map_of_rev [OF assms]
  by (auto simp: load_section_def config_raw_def update_conv' map_of_dict_update map_add_def split: option.split)

lemma load_document_raw:
  "document_ok doc \<Longrightarrow> \<exists>data'. foldr_result load_section data doc = Inr data' \<and>
     config_raw data' section option dflt =
       (case document_value doc section option of Some v \<Rightarrow> v | None \<Rightarrow> config_raw data section option dflt)"
proof (induction doc arbitrary: data)
  case (Cons item doc)
  obtain sec d where item: "item = (sec, PDict d)" "distinct (map fst (str_items d))"
    using Cons.prems by (cases item; cases "snd item") (auto simp: document_ok_def)
  have ok: "document_ok doc" "sec \<notin> fst ` set doc" using Cons.prems by (auto simp: document_ok_def item)
  obtain data1 where d1: "load_section data item = Inr data1" "config_raw data1 section option dflt =
      (case (if section = sec then map_of (str_items d) option else None) of
         Some v \<Rightarrow> v | None \<Rightarrow> config_raw data section option dflt)"
    using load_section_raw [OF item(2)] item(1) by blast
  obtain data2 where d2: "foldr_result load_section data1 doc = Inr data2" "config_raw data2 section option dflt =
      (case document_value doc section option of Some v \<Rightarrow> v | None \<Rightarrow> config_raw data1 section option dflt)"
    using Cons.IH [OF ok(1)] by blast
  have "map_of doc sec = None" using ok(2) by (simp add: map_of_eq_None_iff)
  then have "document_value (item # doc) section option =
      (if section = sec then map_of (str_items d) option else document_value doc section option)"
    "section = sec \<Longrightarrow> document_value doc section option = None"
    by (simp_all add: document_value_def item)
  with d1 d2 show ?case by (auto split: option.split)
qed (simp add: document_value_def)

text \<open>
  Without an override, an option has the value of the last file that defines it, else the default;
  files of well-formed tables load without an error.
\<close>

theorem config_last_file_wins:
  assumes "list_all document_ok documents"
  shows "\<exists>data. config_load documents = Inr data \<and>
    config_get py_float [] data section option dflt =
      Inr (foldl (\<lambda>v doc. case document_value doc section option of Some w \<Rightarrow> w | None \<Rightarrow> v) dflt documents)"
proof -
  have "list_all document_ok docs \<Longrightarrow> \<exists>data'. foldr_result (foldr_result load_section) data docs = Inr data' \<and>
      config_raw data' section option dflt =
      foldl (\<lambda>v doc. case document_value doc section option of Some w \<Rightarrow> w | None \<Rightarrow> v)
        (config_raw data section option dflt) docs" for docs data
  proof (induction docs arbitrary: data)
    case (Cons doc docs)
    then have "document_ok doc" by simp
    then obtain data1 where "foldr_result load_section data doc = Inr data1" "config_raw data1 section option dflt =
       (case document_value doc section option of Some v \<Rightarrow> v | None \<Rightarrow> config_raw data section option dflt)"
      using load_document_raw by blast
    with Cons show ?case by fastforce
  qed simp
  from this [OF assms, of "[]"] show ?thesis
    by (auto simp: config_load_def config_get_def Let_def config_raw_def)
qed

theorem config_last_file_wins_witness:
  "\<exists>data. config_load [[(''server'', PDict [(KStr ''port'', PInt 80)])], [(''server'', PDict [(KStr ''port'', PInt 443)])]] = Inr data \<and>
    config_get (\<lambda>_. None) [] data ''server'' ''port'' PNone =
      Inr (foldl (\<lambda>v doc. case document_value doc ''server'' ''port'' of Some w \<Rightarrow> w | None \<Rightarrow> v) PNone
        [[(''server'', PDict [(KStr ''port'', PInt 80)])], [(''server'', PDict [(KStr ''port'', PInt 443)])]])"
  by (rule config_last_file_wins) (simp add: document_ok_def)

text \<open>
  An environment override replaces the configured value and never its type: the result is the raw
  text only where the configured value is a string or absent.
\<close>

theorem config_override_typed:
  assumes "config_get py_float environ data section option dflt = Inr v"
    and "map_of environ (config_env_key section option) = Some s"
  shows "if type_name (config_raw data section option dflt) \<in> {''str'', ''NoneType''} then v = PStr s
    else type_name v = type_name (config_raw data section option dflt)"
proof -
  let ?cur = "config_raw data section option dflt"
  have conv: "type_name w = type_name ?cur"
    if "convert_as py_float ?cur s = Some w" "\<not> is_str ?cur" "?cur \<noteq> PNone" "\<forall>b. ?cur \<noteq> PBool b" for w
    using that by (cases ?cur) (auto split: if_splits)
  have "coerce_env py_float (PStr s) ?cur (config_env_key section option) = Inr v"
    using assms by (simp add: config_get_def Let_def)
  then show ?thesis
    using conv by (cases ?cur) (auto simp: coerce_env_def split: option.splits if_splits)
qed

theorem config_override_typed_witness:
  "if type_name (config_raw [(''server'', [(''port'', PInt 80)])] ''server'' ''port'' PNone) \<in> {''str'', ''NoneType''}
    then PInt 8080 = PStr ''8080''
    else type_name (PInt 8080) = type_name (config_raw [(''server'', [(''port'', PInt 80)])] ''server'' ''port'' PNone)"
  by (rule config_override_typed [where py_float = "\<lambda>_. None"
        and environ = "[(''POWERGSLB_SERVER_PORT'', ''8080'')]"]) code_simp+

end
