(* ===== verification/Abstract_Thread.thy ===== *)
theory Abstract_Thread
  imports Service_Thread
begin

section \<open>The thread loop\<close>

text \<open>
  \<open>monitor/thread.py\<close>: \<open>run\<close> repeats \<open>task()\<close> until a shutdown is requested; \<open>shutdown\<close>, called from
  other threads at any moment, sets the request and waits. The state is the program counter of \<open>run\<close>,
  the two events and the number of tasks begun, with the number begun when the request came. The step
  relation interleaves the thread's steps with requests: the loop test, a task that returns or raises,
  the sleep (which the request ends at once, and the interval otherwise), and the \<open>finally\<close> block.
\<close>

datatype loop_pc = AtTest | InTask | Sleeping | InFinally | Exited

record loop_state =
  l_pc :: loop_pc
  l_request :: bool
  l_stopped :: bool
  l_tasks :: nat
  l_tasks_at_request :: nat

definition loop_init :: loop_state where
  "loop_init = \<lparr>l_pc = AtTest, l_request = False, l_stopped = False, l_tasks = 0, l_tasks_at_request = 0\<rparr>"

text \<open>The signalling half of \<open>shutdown\<close>.\<close>

definition loop_shutdown :: "loop_state \<Rightarrow> loop_state" where
  "loop_shutdown s =
     s\<lparr>l_request := True, l_tasks_at_request := (if l_request s then l_tasks_at_request s else l_tasks s)\<rparr>"

text \<open>The waiting half: whether it can return, given that the timeout has run out or not.\<close>

definition shutdown_returns :: "bool \<Rightarrow> loop_state \<Rightarrow> bool" where
  "shutdown_returns timeout_over s \<longleftrightarrow> timeout_over \<or> l_stopped s"

definition loop_test :: "loop_state \<Rightarrow> loop_state" where
  "loop_test s = (if l_request s then s\<lparr>l_pc := InFinally\<rparr> else s\<lparr>l_pc := InTask, l_tasks := Suc (l_tasks s)\<rparr>)"

definition loop_task_done :: "bool \<Rightarrow> loop_state \<Rightarrow> loop_state" where
  "loop_task_done raised s = s\<lparr>l_pc := (if raised then InFinally else Sleeping)\<rparr>"

definition loop_finally :: "loop_state \<Rightarrow> loop_state" where
  "loop_finally s = s\<lparr>l_pc := Exited, l_stopped := True\<rparr>"

inductive loop_step :: "loop_state \<Rightarrow> loop_state \<Rightarrow> bool" where
  request: "loop_step s (loop_shutdown s)"
| test: "l_pc s = AtTest \<Longrightarrow> loop_step s (loop_test s)"
| task_done: "l_pc s = InTask \<Longrightarrow> loop_step s (loop_task_done raised s)"
| wake: "l_pc s = Sleeping \<Longrightarrow> loop_step s (s\<lparr>l_pc := AtTest\<rparr>)"
| cleanup: "l_pc s = InFinally \<Longrightarrow> loop_step s (loop_finally s)"

inductive_cases loop_stepE: "loop_step s s'"

inductive loop_reachable :: "loop_state \<Rightarrow> bool" where
  init: "loop_reachable loop_init"
| step: "loop_reachable s \<Longrightarrow> loop_step s s' \<Longrightarrow> loop_reachable s'"

text \<open>The \<open>stopped\<close> event is the exit; after a request no task begins that had not begun before.\<close>

definition loop_inv :: "loop_state \<Rightarrow> bool" where
  "loop_inv s \<longleftrightarrow> (l_stopped s \<longleftrightarrow> l_pc s = Exited)
     \<and> (l_request s \<longrightarrow> l_tasks s = l_tasks_at_request s)"

lemma loop_inv_step [invariants]: "loop_inv s \<Longrightarrow> loop_step s s' \<Longrightarrow> loop_inv s'"
  by (erule loop_stepE)
     (auto simp: loop_inv_def loop_shutdown_def loop_test_def loop_task_done_def loop_finally_def split: if_splits)

lemma loop_reachable_inv: "loop_reachable s \<Longrightarrow> loop_inv s"
proof (induction rule: loop_reachable.induct)
  case init
  then show ?case by (simp add: loop_inv_def loop_init_def)
qed (rule loop_inv_step)

text \<open>The distance of a requested thread from its exit, in steps of its own.\<close>

fun exit_distance :: "loop_pc \<Rightarrow> nat" where
  "exit_distance Sleeping = 3"
| "exit_distance AtTest = 2"
| "exit_distance InFinally = 1"
| "exit_distance InTask = 4"
| "exit_distance Exited = 0"

text \<open>A step of the thread itself.\<close>

inductive own_step :: "loop_state \<Rightarrow> loop_state \<Rightarrow> bool" where
  "l_pc s = AtTest \<Longrightarrow> own_step s (loop_test s)"
| "l_pc s = InTask \<Longrightarrow> own_step s (loop_task_done raised s)"
| "l_pc s = Sleeping \<Longrightarrow> own_step s (s\<lparr>l_pc := AtTest\<rparr>)"
| "l_pc s = InFinally \<Longrightarrow> own_step s (loop_finally s)"

lemma own_step_loop_step: "own_step s s' \<Longrightarrow> loop_step s s'"
  by (auto elim!: own_step.cases intro: loop_step.intros)

lemma own_step_decreases:
  "l_request s \<Longrightarrow> own_step s s' \<Longrightarrow> exit_distance (l_pc s') < exit_distance (l_pc s) \<and> l_request s'"
  by (auto elim!: own_step.cases simp: loop_test_def loop_task_done_def loop_finally_def)

lemma own_step_progress:
  assumes "l_pc s \<noteq> Exited" shows "\<exists>s'. own_step s s'"
proof (cases "l_pc s")
  case AtTest
  then show ?thesis using own_step.intros(1) by blast
next
  case InTask
  then show ?thesis using own_step.intros(2) by blast
next
  case Sleeping
  then show ?thesis using own_step.intros(3) by blast
next
  case InFinally
  then show ?thesis using own_step.intros(4) by blast
qed (use assms in simp)

lemma exit_distance_bound: "exit_distance pc \<le> 4"
  by (cases pc) simp_all

interpretation loop: prompt_thread own_step loop_inv l_request l_stopped "\<lambda>s. exit_distance (l_pc s)"
proof unfold_locales
  fix s t :: loop_state
  show "loop_inv s \<Longrightarrow> own_step s t \<Longrightarrow> loop_inv t"
    using own_step_loop_step loop_inv_step by blast
  show "loop_inv s \<Longrightarrow> l_request s \<Longrightarrow> own_step s t \<Longrightarrow> l_request t"
    and "loop_inv s \<Longrightarrow> l_request s \<Longrightarrow> own_step s t \<Longrightarrow> exit_distance (l_pc t) < exit_distance (l_pc s)"
    using own_step_decreases by blast+
  show "\<exists>t. own_step s t \<and> exit_distance (l_pc t) < exit_distance (l_pc s)"
    if "loop_inv s" "l_request s" "\<not> l_stopped s"
    using that own_step_progress own_step_decreases by (fastforce simp: loop_inv_def)
qed

text \<open>
  After a shutdown request the thread begins no further task, and the \<open>stopped\<close> event that
  \<open>shutdown\<close> waits for is set exactly when the thread has left its loop.
\<close>

theorem no_task_after_request:
  assumes "loop_reachable s"
  shows "(l_stopped s \<longleftrightarrow> l_pc s = Exited) \<and> (l_request s \<longrightarrow> l_tasks s = l_tasks_at_request s)"
  using loop_reachable_inv [OF assms] by (simp add: loop_inv_def)

theorem no_task_after_request_witness:
  "l_tasks (loop_finally (loop_test (loop_shutdown loop_init)))
     = l_tasks_at_request (loop_finally (loop_test (loop_shutdown loop_init)))"
proof -
  have "loop_reachable (loop_shutdown loop_init)" by (rule loop_reachable.step [OF loop_reachable.init loop_step.request])
  then have "loop_reachable (loop_test (loop_shutdown loop_init))"
    by (rule loop_reachable.step) (rule loop_step.test, simp add: loop_shutdown_def loop_init_def)
  then have "loop_reachable (loop_finally (loop_test (loop_shutdown loop_init)))"
    by (rule loop_reachable.step)
       (rule loop_step.cleanup, simp add: loop_shutdown_def loop_init_def loop_test_def)
  moreover have "l_request (loop_finally (loop_test (loop_shutdown loop_init)))"
    by (simp add: loop_finally_def loop_test_def loop_shutdown_def)
  ultimately show ?thesis using no_task_after_request by blast
qed

text \<open>
  C31: once requested, the thread stops within four steps of its own: every run of own steps from a
  requested state is at most as long as the distance, and it can go on until the thread has exited.
\<close>

theorem requested_thread_stops:
  assumes "loop_inv s" and "l_request s" and "(own_step ^^ n) s s'"
  shows "n + exit_distance (l_pc s') \<le> exit_distance (l_pc s) \<and> exit_distance (l_pc s) \<le> 4
    \<and> (l_stopped s' \<or> (\<exists>s''. own_step s' s''))"
  using loop.drains [OF assms] exit_distance_bound by blast

theorem requested_thread_stops_witness:
  "Suc 0 + exit_distance (l_pc (loop_test (loop_shutdown loop_init))) \<le> exit_distance (l_pc (loop_shutdown loop_init))"
proof -
  have "own_step (loop_shutdown loop_init) (loop_test (loop_shutdown loop_init))"
    by (rule own_step.intros(1)) (simp add: loop_shutdown_def loop_init_def)
  then have "(own_step ^^ Suc 0) (loop_shutdown loop_init) (loop_test (loop_shutdown loop_init))"
    by auto
  moreover have "l_request (loop_shutdown loop_init)" by (simp add: loop_shutdown_def)
  moreover have "loop_inv (loop_shutdown loop_init)"
    by (rule loop_reachable_inv, rule loop_reachable.step [OF loop_reachable.init loop_step.request])
  ultimately show ?thesis using requested_thread_stops by blast
qed

end
