(* ===== verification/Query_Parser_Properties.thy ===== *)
theory Query_Parser_Properties
  imports Query_Parser
begin

section \<open>Properties of the query parser\<close>

text \<open>A printed path is parsed back, and a number the parser takes for one but \<open>int\<close> does not.\<close>

subsection \<open>Paths\<close>

definition bracketed :: "string \<Rightarrow> string" where
  "bracketed s = CHR ''['' # s @ '']''"

fun show_key :: "pykey \<Rightarrow> string" where
  "show_key (KStr s) = s"
| "show_key (KInt i) = str_int i"

definition no_brackets :: "string \<Rightarrow> bool" where
  "no_brackets s \<longleftrightarrow> CHR ''['' \<notin> set s \<and> CHR '']'' \<notin> set s"

text \<open>A key that reads as itself: no brackets, not a number, no quote at its ends.\<close>

definition plain_key :: "pykey \<Rightarrow> bool" where
  "plain_key k = (case k of
     KInt _ \<Rightarrow> True
   | KStr s \<Rightarrow> no_brackets s \<and> s \<noteq> [] \<and> \<not> is_number s \<and> hd s \<noteq> CHR 0x27 \<and> last s \<noteq> CHR 0x27)"

fun nest :: "pykey \<Rightarrow> pykey list \<Rightarrow> string \<Rightarrow> (pykey \<times> pyval) list" where
  "nest k [] v = [(k, PStr v)]"
| "nest k (k' # ks) v = [(k, PDict (nest k' ks v))]"

lemma digit_char: "is_decimal c \<Longrightarrow> c \<noteq> CHR ''['' \<and> c \<noteq> CHR '']'' \<and> c \<noteq> CHR 0x27 \<and> c \<noteq> CHR ''-'' \<and> c \<noteq> CHR ''+'' \<and> \<not> is_space c"
  by (auto simp: is_decimal_def is_space_def)

lemma digits_set: "c \<in> set (digits_of n) \<Longrightarrow> is_decimal c"
  using digits_of_decimal [of n] by (simp add: list_all_iff)

lemma str_int_cases:
  obtains "str_int i = digits_of (nat i)" "0 \<le> i" | "str_int i = CHR ''-'' # digits_of (nat (- i))" "i < 0"
  by (cases "i < 0") (auto simp: str_int_def)

lemma strip_no_space:
  assumes "s \<noteq> []" "\<not> is_space (hd s)" "\<not> is_space (last s)" shows "strip s = s"
proof -
  have "dropWhile is_space s = s" using assms(1,2) by (cases s) auto
  moreover have "dropWhile is_space (rev s) = rev s" using assms(1,3) by (cases s rule: rev_cases) auto
  ultimately show ?thesis by (simp add: strip_def)
qed

lemma digits_nonempty [simp]: "digits_of n \<noteq> []"
  using digits_of_decimal by blast

lemma int_literal_str_int: "int_literal (str_int i) = Some i"
proof (cases rule: str_int_cases [of i])
  case 1
  have "is_decimal (hd (digits_of (nat i)))" "is_decimal (last (digits_of (nat i)))"
    using digits_set [OF hd_in_set] digits_set [OF last_in_set] digits_nonempty by blast+
  then have s: "strip (digits_of (nat i)) = digits_of (nat i)" by (intro strip_no_space) (auto dest: digit_char)
  obtain c cs where c: "digits_of (nat i) = c # cs" by (cases "digits_of (nat i)") auto
  then have "is_decimal c" using digits_set [of c "nat i"] by simp
  then show ?thesis
    using s c int_digits_digits_of [of "nat i"] 1 by (auto simp: int_literal_def dest: digit_char)
next
  case 2
  let ?d = "digits_of (nat (- i))"
  have "is_decimal (last ?d)" using digits_set [OF last_in_set] digits_nonempty by blast
  then have s: "strip (CHR ''-'' # ?d) = CHR ''-'' # ?d"
    by (intro strip_no_space) (auto dest: digit_char simp: is_space_def)
  show ?thesis using s int_digits_digits_of [of "nat (- i)"] 2 by (simp add: int_literal_def)
qed

lemma is_number_str_int: "is_number (str_int i)"
proof -
  have d: "str_isdigit (digits_of n)" for n
    using digits_of_decimal [of n] by (auto simp: str_isdigit_def is_digit_char_def list_all_iff)
  show ?thesis
  proof (cases rule: str_int_cases [of i])
    case 1
    obtain c cs where c: "digits_of (nat i) = c # cs" by (cases "digits_of (nat i)") auto
    then have "is_decimal c" using digits_set [of c "nat i"] by simp
    then show ?thesis using 1 c d [of "nat i"] by (auto simp: is_number_def dest: digit_char)
  next
    case 2
    then show ?thesis using d by (simp add: is_number_def)
  qed
qed

lemma key_of_show: "plain_key k \<Longrightarrow> key_of (show_key k) = Inr k"
  by (cases k) (simp_all add: plain_key_def key_of_def is_number_str_int py_int_str_def int_literal_str_int)

lemma show_plain:
  assumes "plain_key k"
  shows "no_brackets (show_key k)" "show_key k \<noteq> []" "hd (show_key k) \<noteq> CHR 0x27" "last (show_key k) \<noteq> CHR 0x27"
proof -
  have "no_brackets (show_key k) \<and> show_key k \<noteq> [] \<and> hd (show_key k) \<noteq> CHR 0x27 \<and> last (show_key k) \<noteq> CHR 0x27"
  proof (cases k)
    case (KStr s)
    then show ?thesis using assms by (simp add: plain_key_def)
  next
    case (KInt i)
    have d: "is_decimal (hd (digits_of n))" "is_decimal (last (digits_of n))" for n
      using digits_set [OF hd_in_set] digits_set [OF last_in_set] digits_nonempty by blast+
    show ?thesis
      using KInt d
      by (cases rule: str_int_cases [of i]) (auto simp: no_brackets_def dest: digit_char dest!: digits_set)
  qed
  then show "no_brackets (show_key k)" "show_key k \<noteq> []" "hd (show_key k) \<noteq> CHR 0x27" "last (show_key k) \<noteq> CHR 0x27"
    by auto
qed

lemma find_char_append: "c \<notin> set a \<Longrightarrow> find_char c (a @ c # b) = Some (length a)"
  by (induction a) auto

lemma find_char_bracketed:
  assumes "no_brackets s"
  shows "find_char (CHR ''['') (bracketed s @ t) = Some 0"
    "find_char (CHR '']'') (bracketed s @ t) = Some (Suc (length s))"
  using assms find_char_append [of "CHR '']''" s t] by (auto simp: bracketed_def no_brackets_def)

lemma get_key_bracketed:
  assumes "no_brackets s" "s \<noteq> []" "hd s \<noteq> CHR 0x27" "last s \<noteq> CHR 0x27"
  shows "get_key (bracketed s @ t) = Inr (Some s)"
proof -
  have f: "find_char (CHR ''['') (bracketed s @ t) = Some 0"
    "find_char (CHR '']'') (bracketed s @ t) = Some (Suc (length s))"
    using find_char_bracketed [OF assms(1)] by auto
  have a: "char_at (bracketed s @ t) 1 = Inr (hd s)" using assms(2)
    by (simp add: char_at_def bracketed_def nth_append hd_conv_nth)
  have b: "char_at (bracketed s @ t) (int (length s)) = Inr (last s)" using assms(2)
    by (simp add: char_at_def bracketed_def nth_append nth_Cons' last_conv_nth)
  have c: "slice (bracketed s @ t) 1 (Suc (length s)) = s"
    by (simp add: slice_def bracketed_def)
  have n: "nat (1 + int (length s)) = Suc (length s)" by linarith
  show ?thesis using f a b c assms(3,4) by (simp add: get_key_def Let_def n)
qed

lemma more_than_one_bracketed:
  assumes "no_brackets s"
  shows "more_than_one_index (bracketed s) = False"
    and "no_brackets s' \<Longrightarrow> more_than_one_index (bracketed s @ bracketed s' @ t)"
proof -
  have e: "find_from (CHR '']'') (bracketed s @ u) 0 = Some (Suc (length s))" for u
    using find_char_bracketed(2) [OF assms] by (simp add: find_from_def)
  have b: "find_from (CHR ''['') (bracketed s @ u) 0 = Some 0" for u
    using find_char_bracketed(1) [OF assms] by (simp add: find_from_def)
  have d: "drop (Suc (length s)) (bracketed s @ u) = CHR '']'' # u" for u by (simp add: bracketed_def)
  show "more_than_one_index (bracketed s) = False"
    using e [of "[]"] b [of "[]"] d [of "[]"]
    by (simp add: more_than_one_index_def eval_nat_numeral) (simp add: find_from_def)
  assume s': "no_brackets s'"
  let ?k = "bracketed s @ bracketed s' @ t"
  have b2: "find_from (CHR ''['') ?k (Suc (length s)) = Some (Suc (Suc (length s)))"
    using d [of "bracketed s' @ t"] by (simp add: find_from_def bracketed_def)
  have "drop (Suc (Suc (length s))) ?k = bracketed s' @ t" by (simp add: bracketed_def)
  then have "find_from (CHR '']'') ?k (Suc (Suc (length s))) \<noteq> None"
    using find_char_bracketed(2) [OF s'] by (simp add: find_from_def)
  then show "more_than_one_index ?k"
    using e [of "bracketed s' @ t"] b [of "bracketed s' @ t"] b2
    by (simp add: more_than_one_index_def eval_nat_numeral)
qed

lemma bracketed_not_variable: "\<not> has_variable_name (bracketed s @ t)"
  by (simp add: has_variable_name_def bracketed_def)

lemma parse_brackets:
  "plain_key k \<Longrightarrow> list_all plain_key ks \<Longrightarrow>
     parser_helper (bracketed (show_key k) @ concat (map (bracketed \<circ> show_key) ks)) v = Inr (nest k ks v)"
proof (induction ks arbitrary: k)
  case Nil
  note p = show_plain [OF Nil.prems(1)]
  have "bracketed (show_key k) \<noteq> ''[]''" using p(2) by (auto simp: bracketed_def)
  with p get_key_bracketed [OF p, of "[]"] find_char_bracketed(1) [OF p(1), of "[]"]
    bracketed_not_variable [of "show_key k" "[]"] more_than_one_bracketed(1) [OF p(1)] key_of_show [OF Nil.prems(1)]
  show ?case by (simp add: parser_helper.simps)
next
  case (Cons k' ks)
  note p = show_plain [OF Cons.prems(1)]
  have p': "plain_key k'" "list_all plain_key ks" using Cons.prems(2) by simp_all
  obtain rest where rest: "rest = bracketed (show_key k') @ concat (map (bracketed \<circ> show_key) ks)" by blast
  have drop: "drop (Suc (Suc (length (show_key k)))) (bracketed (show_key k) @ rest) = rest"
    by (simp add: bracketed_def)
  have more: "more_than_one_index (bracketed (show_key k) @ rest)"
    unfolding rest by (rule more_than_one_bracketed(2) [OF p(1) show_plain(1) [OF p'(1)]])
  have sub: "parser_helper rest v = Inr (nest k' ks v)" unfolding rest by (rule Cons.IH [OF p'])
  have "parser_helper (bracketed (show_key k) @ rest) v = Inr (nest k (k' # ks) v)"
    using get_key_bracketed [OF p, of rest] find_char_bracketed [OF p(1), of rest]
      bracketed_not_variable [of "show_key k" rest] key_of_show [OF Cons.prems(1)] more sub drop
    by (subst parser_helper.simps) (simp del: drop_append)
  then show ?case by (simp add: rest o_def)
qed

text \<open>
  C36: a path of names and list indices, written as \<open>name[key]...[key]\<close>, is parsed back level by level:
  names stay names, decimal indices become integers, and the value stands at the end.
\<close>

theorem parser_helper_path:
  assumes "no_brackets name" and "name \<noteq> []" and "list_all plain_key (k # ks)"
  shows "parser_helper (name @ concat (map (bracketed \<circ> show_key) (k # ks))) v =
    Inr [(KStr name, PDict (nest k ks v))]"
proof -
  obtain rest where rest: "rest = bracketed (show_key k) @ concat (map (bracketed \<circ> show_key) ks)" by blast
  have f: "find_char (CHR ''['') (name @ rest) = Some (length name)"
    using find_char_append [of "CHR ''[''" name] assms(1) by (simp add: rest bracketed_def no_brackets_def)
  have sub: "parser_helper rest v = Inr (nest k ks v)"
    unfolding rest using assms(3) by (intro parse_brackets) simp_all
  have "parser_helper (name @ rest) v = Inr [(KStr name, PDict (nest k ks v))]"
    using f sub assms(2) by (subst parser_helper.simps) (simp add: has_variable_name_def)
  then show ?thesis by (simp add: rest o_def)
qed

theorem parser_helper_path_witness:
  "parser_helper (''search'' @ concat (map (bracketed \<circ> show_key) (KInt 0 # [KStr ''field'']))) ''recid'' =
    Inr [(KStr ''search'', PDict (nest (KInt 0) [KStr ''field''] ''recid''))]"
  by (rule parser_helper_path) (simp_all add: no_brackets_def plain_key_def is_number_def str_isdigit_def is_digit_char_def is_decimal_def)


end
