(* ===== verification/Status_Page.thy ===== *)
theory Status_Page
  imports Table_Operations
begin

section \<open>The pages of records and of their status\<close>

text \<open>
  The fast path of \<open>Records.get\<close> and \<open>Status.get\<close> pages by primary key and joins the lookup tables to the page afterwards, with
  a second statement whose rows come in any order. The lemmas follow a page through both; the ids of a page are
  distinct, they are a primary key.
\<close>

definition recid_of :: "row \<Rightarrow> pyval" where
  "recid_of r = (case map_of r ''recid'' of None \<Rightarrow> PNone | Some v \<Rightarrow> v)"

definition has_items :: "string list \<Rightarrow> row \<Rightarrow> bool" where
  "has_items keys r \<longleftrightarrow> list_all (\<lambda>k. map_of r k \<noteq> None) keys"

lemma row_item_recid: "has_items [''recid''] r \<Longrightarrow> row_item r ''recid'' = Inr (recid_of r)"
  by (auto simp: has_items_def row_item_def recid_of_def)

lemma map_of_rev_ids:
  "map_of (rev (map (\<lambda>r. (f r, r)) rows)) i = Some r \<Longrightarrow> r \<in> set rows \<and> f r = i"
  by (force dest: map_of_SomeD)

lemma map_of_rev_none:
  "map_of (rev (map (\<lambda>r. (f r, r)) rows)) i = None \<longleftrightarrow> i \<notin> f ` set rows"
  by (simp add: map_of_eq_None_iff image_image)

definition join_statement :: "sql_table \<Rightarrow> row list \<Rightarrow> statement" where
  "join_statement t id_rows =
     (select_sql t @ '' WHERE `records`.`id` IN ('' @ marks (length id_rows) @ '')'', map (SqlValue \<circ> recid_of) id_rows)"

lemma records_join_page_rows:
  assumes "list_all (has_items [''recid'']) id_rows" and "list_all (has_items [''recid'']) rows"
    and "id_rows \<noteq> []" and "sv_rows sv [join_statement t id_rows] = Inr rows"
  shows "records_join_page (recorder sv) t id_rows [] =
    (Inr (List.map_filter (map_of (rev (map (\<lambda>r. (recid_of r, r)) rows))) (map recid_of id_rows)), [join_statement t id_rows])"
proof -
  have "mapr (\<lambda>r. row_item r ''recid'') id_rows = Inr (map recid_of id_rows)"
    using assms(1) by (intro mapr_Inr row_item_recid) (simp add: list_all_iff)
  moreover have "mapr (\<lambda>r. bind_result (row_item r ''recid'') (\<lambda>i. Inr (i, r))) rows = Inr (map (\<lambda>r. (recid_of r, r)) rows)"
    using assms(2) by (intro mapr_Inr) (simp add: list_all_iff row_item_recid)
  ultimately show ?thesis
    using assms(3,4) by (simp add: records_join_page_def db_bind_def recorder_def join_statement_def comp_def)
qed

lemma filtered_ids:
  "map f (List.map_filter (map_of (rev (map (\<lambda>r. (f r, r)) rows))) ids) = filter (\<lambda>i. i \<in> f ` set rows) ids"
proof (induction ids)
  case (Cons i ids)
  show ?case
  proof (cases "map_of (rev (map (\<lambda>r. (f r, r)) rows)) i")
    case None
    then have "i \<notin> f ` set rows" by (simp only: map_of_rev_none simp_thms)
    with Cons None show ?thesis by (simp add: map_filter_simps)
  next
    case (Some r)
    from map_of_rev_ids [OF Some] have "f r = i" "i \<in> f ` set rows" by auto
    with Cons Some show ?thesis by (simp add: map_filter_simps)
  qed
qed (simp add: map_filter_simps)

lemma filtered_rows:
  "set (List.map_filter (map_of (rev (map (\<lambda>r. (f r, r)) rows))) ids) \<subseteq> set rows"
proof (induction ids)
  case (Cons i ids)
  show ?case
  proof (cases "map_of (rev (map (\<lambda>r. (f r, r)) rows)) i")
    case (Some r)
    with Cons map_of_rev_ids [OF Some] show ?thesis by (simp add: map_filter_simps)
  qed (use Cons in \<open>simp add: map_filter_simps\<close>)
qed (simp add: map_filter_simps)

text \<open>The dict from the ids of a page to the statuses that the first statement computed.\<close>

definition status_pairs :: "row list \<Rightarrow> (pyval \<times> pyval) list" where
  "status_pairs id_rows = map (\<lambda>i. (recid_of i, the (map_of i ''status''))) id_rows"

lemma status_pairs_read:
  assumes "list_all (has_items [''recid'', ''status'']) id_rows"
  shows "mapr (\<lambda>r. bind_result (row_item r ''recid'') (\<lambda>i. bind_result (row_item r ''status'') (\<lambda>s. Inr (i, s)))) id_rows
      = Inr (status_pairs id_rows)"
  unfolding status_pairs_def
proof (rule mapr_Inr)
  fix i assume "i \<in> set id_rows"
  then obtain v s where "map_of i ''recid'' = Some v" "map_of i ''status'' = Some s"
    using assms by (auto simp: list_all_iff has_items_def)
  then show "bind_result (row_item i ''recid'') (\<lambda>v. bind_result (row_item i ''status'') (\<lambda>s. Inr (v, s)))
      = Inr (recid_of i, the (map_of i ''status''))"
    by (simp add: row_item_def recid_of_def)
qed

lemma status_pairs_of:
  assumes "distinct (map recid_of id_rows)" and "x \<in> recid_of ` set id_rows"
  obtains i where "i \<in> set id_rows" and "recid_of i = x" and "map_of (rev (status_pairs id_rows)) x = Some (the (map_of i ''status''))"
proof -
  from assms(2) obtain i where i: "i \<in> set id_rows" "recid_of i = x" by auto
  have "map fst (rev (status_pairs id_rows)) = rev (map recid_of id_rows)" by (simp add: status_pairs_def rev_map comp_def)
  then have "distinct (map fst (rev (status_pairs id_rows)))" by (simp only: distinct_rev assms(1))
  moreover have "(x, the (map_of i ''status'')) \<in> set (rev (status_pairs id_rows))" using i by (auto simp: status_pairs_def)
  ultimately show thesis by (rule that [OF i map_of_is_SomeI])
qed

text \<open>Each joined row takes the status of its id.\<close>

lemma status_shown:
  assumes "list_all (has_items [''recid'']) rows" and "\<And>r. r \<in> set rows \<Longrightarrow> map_of status (recid_of r) \<noteq> None"
  shows "mapr (\<lambda>r. bind_result (row_item r ''recid'')
      (\<lambda>i. case map_of status i of None \<Rightarrow> Inl (KeyError ''recid'') | Some s \<Rightarrow> Inr (AList.update ''status'' s r))) rows
      = Inr (map (\<lambda>r. AList.update ''status'' (the (map_of status (recid_of r))) r) rows)"
  using assms by (intro mapr_Inr) (fastforce simp: list_all_iff row_item_recid split: option.split)

lemma recid_of_update: "recid_of (AList.update ''status'' s r) = recid_of r"
  by (simp add: recid_of_def update_conv')

text \<open>
  C30: a page of the status table. The second statement asks for exactly the records of the page; the result has those
  of them that still exist, once each and in the page's order, whatever the order of the joined rows, and each row shows
  the status that the first statement computed for its own record.
\<close>

theorem status_page_joined:
  assumes "list_all (has_items [''recid'', ''status'']) id_rows" and "list_all (has_items [''recid'']) rows"
    and "distinct (map recid_of id_rows)" and "id_rows \<noteq> []"
    and "sv_rows sv [join_statement t id_rows] = Inr rows"
  shows "\<exists>page. status_join_page (recorder sv) t id_rows [] = (Inr page, [join_statement t id_rows])
    \<and> map recid_of page = filter (\<lambda>i. i \<in> recid_of ` set rows) (map recid_of id_rows)
    \<and> (\<forall>p \<in> set page. \<exists>r \<in> set rows. \<exists>i \<in> set id_rows. recid_of i = recid_of r
         \<and> p = AList.update ''status'' (the (map_of i ''status'')) r)"
proof -
  let ?page = "List.map_filter (map_of (rev (map (\<lambda>r. (recid_of r, r)) rows))) (map recid_of id_rows)"
  let ?status = "rev (status_pairs id_rows)"
  let ?shown = "map (\<lambda>r. AList.update ''status'' (the (map_of ?status (recid_of r))) r) ?page"
  have ids: "list_all (has_items [''recid'']) id_rows" using assms(1) by (simp add: list_all_iff has_items_def)
  have page: "r \<in> set rows" "recid_of r \<in> recid_of ` set id_rows" if r: "r \<in> set ?page" for r
  proof -
    show "r \<in> set rows" by (rule subsetD [OF filtered_rows r])
    have "recid_of r \<in> set (map recid_of ?page)" using r by simp
    then show "recid_of r \<in> recid_of ` set id_rows" unfolding filtered_ids by simp
  qed
  have "list_all (has_items [''recid'']) ?page" using page(1) assms(2) by (auto simp: list_all_iff)
  moreover have "map_of ?status (recid_of r) \<noteq> None" if "r \<in> set ?page" for r
    using status_pairs_of [OF assms(3) page(2) [OF that]] by (metis option.discI)
  ultimately have "status_join_page (recorder sv) t id_rows [] = (Inr ?shown, [join_statement t id_rows])"
    by (simp add: status_join_page_def db_bind_def records_join_page_rows [OF ids assms(2,4,5)]
        status_pairs_read [OF assms(1)] status_shown)
  moreover have "map recid_of ?shown = filter (\<lambda>i. i \<in> recid_of ` set rows) (map recid_of id_rows)"
    using filtered_ids [of recid_of rows] by (simp add: comp_def recid_of_update)
  moreover have "\<exists>r \<in> set rows. \<exists>i \<in> set id_rows. recid_of i = recid_of r
      \<and> p = AList.update ''status'' (the (map_of i ''status'')) r" if p: "p \<in> set ?shown" for p
  proof -
    from p obtain r where r: "r \<in> set ?page" "p = AList.update ''status'' (the (map_of ?status (recid_of r))) r" by auto
    from status_pairs_of [OF assms(3) page(2) [OF r(1)]] r(2) page(1) [OF r(1)] show ?thesis by (metis option.sel)
  qed
  ultimately show ?thesis by blast
qed

theorem status_page_joined_witness:
  "\<exists>page. status_join_page (recorder \<lparr>sv_rows = (\<lambda>_. Inr [[(''recid'', PInt 2)], [(''recid'', PInt 7)]]), sv_count = (\<lambda>_. Inr 0), sv_last_id = (\<lambda>_. 0)\<rparr>)
       STATUS [[(''recid'', PInt 7), (''status'', PStr ''On'')], [(''recid'', PInt 5), (''status'', PStr ''Off'')],
               [(''recid'', PInt 2), (''status'', PStr ''Off'')]] []
     = (Inr page, [join_statement STATUS [[(''recid'', PInt 7), (''status'', PStr ''On'')], [(''recid'', PInt 5), (''status'', PStr ''Off'')],
               [(''recid'', PInt 2), (''status'', PStr ''Off'')]]])
     \<and> map recid_of page = [PInt 7, PInt 2]"
proof -
  let ?ids = "[[(''recid'', PInt 7), (''status'', PStr ''On'')], [(''recid'', PInt 5), (''status'', PStr ''Off'')],
               [(''recid'', PInt 2), (''status'', PStr ''Off'')]]"
  let ?sv = "\<lparr>sv_rows = (\<lambda>_. Inr [[(''recid'', PInt 2)], [(''recid'', PInt 7)]]), sv_count = (\<lambda>_. Inr 0), sv_last_id = (\<lambda>_. 0)\<rparr>"
  have "sv_rows ?sv [join_statement STATUS ?ids] = Inr [[(''recid'', PInt 2)], [(''recid'', PInt 7)]]" by simp
  from status_page_joined [OF _ _ _ _ this] show ?thesis
    by (force simp: has_items_def recid_of_def)
qed

end
