(* ===== verification/Admin_Static.thy ===== *)
theory Admin_Static
  imports Sql
begin

section \<open>Encodings and static assets of the admin handler\<close>

text \<open>
  The content negotiation and the static files of \<open>server/http/handler/admin.py\<close>. The file system, the
  compressors, the date parser and \<open>translate_path\<close> are parameters; \<open>positive\<close> says whether a
  quality parses as a float above zero. A file time is in whole seconds.
\<close>

subsection \<open>Accept-Encoding\<close>

text \<open>The quality of the last \<open>q=\<close> parameter; without one it is 1.\<close>

definition quality_positive :: "(string \<Rightarrow> bool) \<Rightarrow> string list \<Rightarrow> bool" where
  "quality_positive positive params =
     foldl (\<lambda>ok param. let p = strip param in if starts_with ''q='' p then positive (drop 2 p) else ok) True params"

definition accepted_part :: "(string \<Rightarrow> bool) \<Rightarrow> string \<Rightarrow> string option" where
  "accepted_part positive part =
     (let tokens = split_on (CHR '';'') part; coding = str_lower (strip (hd tokens))
      in if coding \<noteq> [] \<and> quality_positive positive (tl tokens) then Some coding else None)"

definition accepted_encodings :: "(string \<Rightarrow> bool) \<Rightarrow> string option \<Rightarrow> string set" where
  "accepted_encodings positive header =
     set (List.map_filter (accepted_part positive)
       (split_on (CHR '','') (case header of None \<Rightarrow> [] | Some h \<Rightarrow> h)))"

definition min_encode_size :: nat where
  "min_encode_size = 256"

definition encodings :: "(string \<times> string) list" where
  "encodings = [(''br'', ''.br''), (''gzip'', ''.gz'')]"

text \<open>\<open>_encode_body\<close>; \<open>compress\<close> is the compressor of an encoding.\<close>

definition admin_encode_body ::
    "(string \<Rightarrow> nat list \<Rightarrow> nat list) \<Rightarrow> string set \<Rightarrow> nat list \<Rightarrow> nat list \<times> string option" where
  "admin_encode_body compress accepted content_bytes =
     (if length content_bytes < min_encode_size then (content_bytes, None)
      else (case find (\<lambda>(encoding, _). encoding \<in> accepted) encodings of
              None \<Rightarrow> (content_bytes, None)
            | Some (encoding, _) \<Rightarrow> (compress encoding content_bytes, Some encoding)))"

text \<open>\<open>_send_authenticate\<close>; \<open>page\<close> is the error page of the standard library, the body of all but a HEAD.\<close>

definition send_authenticate :: "string \<Rightarrow> string \<Rightarrow> string \<Rightarrow> (string \<times> string) list \<times> nat list" where
  "send_authenticate server_version command page =
     (let content_bytes = utf8_encode page
      in ([(''Content-Type'', ''text/html; charset=utf-8''),
           (''Content-Length'', str_int (int (length content_bytes))),
           (''WWW-Authenticate'', ''Basic realm='' @ [CHR 0x22] @ server_version @ [CHR 0x22])],
          if command \<noteq> ''HEAD'' then content_bytes else []))"

subsection \<open>Static files\<close>

record file_stat =
  fi_size :: nat
  fi_mtime :: int

record file_system =
  fs_isdir :: "string \<Rightarrow> bool"
  fs_isfile :: "string \<Rightarrow> bool"
  fs_open :: "string \<Rightarrow> file_stat option"
  fs_join :: "string \<Rightarrow> string \<Rightarrow> string"

text \<open>\<open>url_slash\<close>: the path of the URL ends in a slash.\<close>

definition static_file_path :: "file_system \<Rightarrow> string list \<Rightarrow> string \<Rightarrow> bool \<Rightarrow> string option" where
  "static_file_path fs index_pages path url_slash =
     (if fs_isdir fs path then
        (if \<not> url_slash then None else find (fs_isfile fs) (map (fs_join fs path) index_pages))
      else if fs_isfile fs path then Some path else None)"

text \<open>\<open>NaiveDate\<close> has no time zone and is read as UTC; a date of another zone is not compared.\<close>

datatype http_date = NaiveDate int | UtcDate int | OtherDate

record static_request =
  st_modified_since :: "string option"
  st_none_match :: bool
  st_date :: "string \<Rightarrow> http_date option"

definition not_modified :: "static_request \<Rightarrow> int \<Rightarrow> bool" where
  "not_modified rq mtime =
     (case st_modified_since rq of
        None \<Rightarrow> False
      | Some h \<Rightarrow> \<not> st_none_match rq \<and>
          (case st_date rq h of
             Some (NaiveDate t) \<Rightarrow> mtime \<le> t
           | Some (UtcDate t) \<Rightarrow> mtime \<le> t
           | _ \<Rightarrow> False))"

datatype static_reply = File_Missing | Not_Modified | File_Head "(string \<times> string) list" string

definition send_static_head ::
    "file_system \<Rightarrow> (string \<Rightarrow> string) \<Rightarrow> (int \<Rightarrow> string) \<Rightarrow> static_request \<Rightarrow> string \<Rightarrow> string \<Rightarrow> string option
       \<Rightarrow> static_reply" where
  "send_static_head fs guess_type date_string rq path disk_path encoding =
     (case fs_open fs disk_path of
        None \<Rightarrow> File_Missing
      | Some f \<Rightarrow>
          if not_modified rq (fi_mtime f) then Not_Modified
          else File_Head
            ([(''Content-Type'', guess_type path)]
             @ (case encoding of None \<Rightarrow> [] | Some e \<Rightarrow> [(''Content-Encoding'', e)])
             @ [(''Content-Length'', str_int (int (fi_size f))), (''Last-Modified'', date_string (fi_mtime f)),
                (''Vary'', ''Accept-Encoding'')]) disk_path)"

text \<open>\<open>send_head\<close>; \<open>None\<close> leaves the request to the standard library.\<close>

definition send_head ::
    "file_system \<Rightarrow> (string \<Rightarrow> string) \<Rightarrow> (int \<Rightarrow> string) \<Rightarrow> string list \<Rightarrow> static_request \<Rightarrow> string set \<Rightarrow> string \<Rightarrow> bool
       \<Rightarrow> static_reply option" where
  "send_head fs guess_type date_string index_pages rq accepted translated url_slash =
     (case static_file_path fs index_pages translated url_slash of
        None \<Rightarrow> None
      | Some path \<Rightarrow>
          Some (case find (\<lambda>(encoding, suffix). encoding \<in> accepted \<and> fs_isfile fs (path @ suffix)) encodings of
                  Some (encoding, suffix) \<Rightarrow> send_static_head fs guess_type date_string rq path (path @ suffix) (Some encoding)
                | None \<Rightarrow> send_static_head fs guess_type date_string rq path path None))"

end
