(* ===== verification/Http_Properties.thy ===== *)
theory Http_Properties
  imports Request_Handler Admin_Static
begin

section \<open>What holds of requests and responses\<close>

subsection \<open>Bodies\<close>

lemma py_int_str_cases: "(\<exists>n. py_int_str s = Inr n) \<or> (\<exists>m. py_int_str s = Inl (ValueError m))"
  by (auto simp: py_int_str_def split: option.split)

text \<open>
  A POST reads exactly the bytes its Content-Length announces, at most a mebibyte, and hands them to
  the handler, leaving the rest for the next request; without the header it reads none; a length that
  is not an integer, is negative or is larger is answered with 400 and no byte is read.
\<close>

theorem do_post_reads:
  "do_post role path header stream =
     (case (case header of None \<Rightarrow> Inr 0 | Some h \<Rightarrow> py_int_str h) of
        Inl _ \<Rightarrow> (Inr (Error_Status 400), stream)
      | Inr n \<Rightarrow>
          if n < 0 \<or> 1048576 < n then (Inr (Error_Status 400), stream)
          else (handle_request role ''POST'' path (Some (take (nat n) stream)), drop (nat n) stream))"
proof (cases header)
  case None
  then show ?thesis
    by (simp add: do_post_def read_request_body_def max_body_size_def)
next
  case (Some h)
  then show ?thesis
    using py_int_str_cases [of h]
    by (auto simp: do_post_def read_request_body_def max_body_size_def body_invalid_def)
qed

subsection \<open>Responses\<close>

lemma encodings_find:
  "find (\<lambda>(encoding, _). P encoding) encodings
     = (if P ''br'' then Some (''br'', ''.br'') else if P ''gzip'' then Some (''gzip'', ''.gz'') else None)"
  by (simp add: encodings_def)

text \<open>
  A JSON response describes the body it sends: its Content-Length is the length of the bytes sent; it
  names a content coding exactly when the body is compressed, which happens to bodies of at least 256
  bytes and only with a coding the client accepts, brotli before gzip; the type is always JSON.
\<close>

theorem send_content_coherent:
  assumes "send_content (admin_encode_body compress accepted) cache_control content = (headers, body)"
  shows "map_of headers ''Content-Length'' = Some (str_int (int (length body)))
    \<and> map_of headers ''Content-Type'' = Some ''application/json; charset=utf-8''
    \<and> map_of headers ''Cache-Control'' = cache_control
    \<and> map_of headers ''Content-Encoding'' =
        (if length (utf8_encode content) < 256 then None
         else if ''br'' \<in> accepted then Some ''br'' else if ''gzip'' \<in> accepted then Some ''gzip'' else None)
    \<and> body = (case map_of headers ''Content-Encoding'' of
         None \<Rightarrow> utf8_encode content | Some coding \<Rightarrow> compress coding (utf8_encode content))"
proof -
  obtain encoding where enc: "admin_encode_body compress accepted (utf8_encode content) = (body, encoding)"
    and headers: "headers = (case cache_control of None \<Rightarrow> [] | Some c \<Rightarrow> [(''Cache-Control'', c)])
          @ [(''Content-Type'', ''application/json; charset=utf-8'')]
          @ (case encoding of None \<Rightarrow> [] | Some e \<Rightarrow> [(''Content-Encoding'', e)])
          @ [(''Content-Length'', str_int (int (length body)))]"
    using assms by (auto simp: send_content_def Let_def split: prod.splits)
  have "encoding = (if length (utf8_encode content) < 256 then None
      else if ''br'' \<in> accepted then Some ''br'' else if ''gzip'' \<in> accepted then Some ''gzip'' else None)"
    and "body = (case encoding of None \<Rightarrow> utf8_encode content | Some coding \<Rightarrow> compress coding (utf8_encode content))"
    using enc by (auto simp: admin_encode_body_def min_encode_size_def encodings_find split: if_splits)
  moreover have "map_of headers ''Content-Encoding'' = encoding"
    and "map_of headers ''Content-Length'' = Some (str_int (int (length body)))"
    and "map_of headers ''Content-Type'' = Some ''application/json; charset=utf-8''"
    and "map_of headers ''Cache-Control'' = cache_control"
    by (auto simp: headers split: option.split)
  ultimately show ?thesis by simp
qed

lemma length_encode_replicate: "length (utf8_encode (replicate n CHR ''a'')) = n"
  by (induction n) (simp_all add: utf8_encode_def utf8_char_def)

theorem send_content_coherent_witness:
  "map_of (fst (send_content (admin_encode_body (\<lambda>coding bs. bs) {''gzip''}) None (replicate 300 CHR ''a'')))
     ''Content-Encoding'' = Some ''gzip''"
  using send_content_coherent [OF prod.collapse [symmetric], of "\<lambda>coding bs. bs" "{''gzip''}" None "replicate 300 CHR ''a''"]
  by (simp only: length_encode_replicate) simp

text \<open>The headers of a file, whatever its coding.\<close>

lemma sent_headers:
  assumes "send_static_head fs guess_type date_string rq path disk_path encoding = File_Head headers disk"
  shows "disk = disk_path" and "\<exists>f. fs_open fs disk = Some f \<and> \<not> not_modified rq (fi_mtime f)
      \<and> map_of headers ''Content-Type'' = Some (guess_type path)
      \<and> map_of headers ''Content-Length'' = Some (str_int (int (fi_size f)))
      \<and> map_of headers ''Last-Modified'' = Some (date_string (fi_mtime f))
      \<and> map_of headers ''Vary'' = Some ''Accept-Encoding''
      \<and> map_of headers ''Content-Encoding'' = encoding"
  using assms by (auto simp: send_static_head_def split: option.splits if_splits)

subsection \<open>Static files\<close>


text \<open>A site with one page, stored plain and gzipped.\<close>

definition demo_site :: file_system where
  "demo_site = \<lparr>fs_isdir = (\<lambda>p. p = ''/w''), fs_isfile = (\<lambda>p. p \<in> {''/w/i'', ''/w/i.gz''}),
     fs_open = (\<lambda>p. Some \<lparr>fi_size = length p, fi_mtime = 5\<rparr>), fs_join = (\<lambda>d p. d @ ''/'' @ p)\<rparr>"

definition demo_fetch :: static_request where
  "demo_fetch = \<lparr>st_modified_since = None, st_none_match = False, st_date = (\<lambda>_. None)\<rparr>"

lemma demo_page_found: "static_file_path demo_site [''h'', ''i''] ''/w'' True = Some ''/w/i''"
  by (simp add: static_file_path_def demo_site_def)


subsection \<open>Logging\<close>

lemma set_update_subset: "set (AList.update k v d) \<subseteq> insert (k, v) (set d)"
  by (induction d) auto

definition shown :: "string \<times> string \<Rightarrow> string \<times> string" where
  "shown h = (fst h, if str_lower (fst h) \<in> set sensitive_headers then mask else snd h)"

lemma set_logged: "set (logged_headers headers) \<subseteq> shown ` set headers"
proof -
  let ?dump = "foldl (\<lambda>d h. AList.update (fst (shown h)) (snd (shown h)) d)"
  have sub: "set (?dump d headers) \<subseteq> set d \<union> shown ` set headers" for d
  proof (induction headers arbitrary: d)
    case (Cons h headers)
    have "set (?dump d (h # headers)) \<subseteq> set (AList.update (fst (shown h)) (snd (shown h)) d) \<union> shown ` set headers"
      using Cons.IH by simp
    then show ?case using set_update_subset [of "fst (shown h)" "snd (shown h)" d] by auto
  qed simp
  have dump: "logged_headers headers = ?dump [] headers"
    by (simp add: logged_headers_def shown_def case_prod_unfold)
  show ?thesis unfolding dump using sub [of "[]"] by simp
qed

text \<open>
  The debug log never shows a credential. A header it dumps is one of the request, and when its name,
  in any case, is one of the four that carry secrets its value is the mask.
\<close>

theorem logged_headers_masked:
  assumes "(name, val) \<in> set (logged_headers headers)"
  shows "if str_lower name \<in> {''authorization'', ''proxy-authorization'', ''cookie'', ''set-cookie''}
    then val = mask else (name, val) \<in> set headers"
proof -
  obtain n v where "(n, v) \<in> set headers" "(name, val) = shown (n, v)"
    using set_logged [of headers] assms by auto
  then show ?thesis by (simp add: shown_def sensitive_headers_def)
qed

theorem logged_headers_masked_witness:
  "(''AUTHORIZATION'', mask) \<in> set (logged_headers [(''AUTHORIZATION'', ''Basic x'')])"
proof -
  have "str_lower ''AUTHORIZATION'' = ''authorization''" by code_simp
  then have "logged_headers [(''AUTHORIZATION'', ''Basic x'')] = [(''AUTHORIZATION'', mask)]"
    by (simp add: logged_headers_def sensitive_headers_def)
  then show ?thesis using logged_headers_masked [of "''AUTHORIZATION''" mask "[(''AUTHORIZATION'', ''Basic x'')]"] by simp
qed

text \<open>What the escapes write is read back: the escape is injective on lines.\<close>

lemma code_hex_char: "n < 16 \<Longrightarrow> code (hex_char n) = (if n < 10 then 48 + n else 87 + n)"
  by (simp add: hex_char_def)

lemma code_nibbles: "code c div 16 < 16" "code c mod 16 < 16"
  using nat_of_char_less_256 [of c] by (simp_all add: less_mult_imp_div_less)

lemma printable_hex: "n < 16 \<Longrightarrow> \<not> is_control (hex_char n)"
  by (simp add: is_control_def code_hex_char)

lemma hex_char_inj: "m < 16 \<Longrightarrow> n < 16 \<Longrightarrow> hex_char m = hex_char n \<Longrightarrow> m = n"
  by (drule arg_cong [where f = "of_char :: char \<Rightarrow> nat"]) (simp add: code_hex_char split: if_splits)

lemma escape_printable: "list_all (\<lambda>d. \<not> is_control d) (escape_control c)"
proof -
  have "\<not> is_control CHR 0x5C" "\<not> is_control CHR ''x''" by (simp_all add: is_control_def)
  then show ?thesis by (simp add: escape_control_def printable_hex code_nibbles)
qed

lemma escape_prefix_free: "escape_control c @ s = escape_control d @ t \<Longrightarrow> c = d \<and> s = t"
proof -
  have plain: "\<not> is_control CHR 0x5C" by (simp add: is_control_def)
  have same: "c = d" if "code c div 16 = code d div 16" "code c mod 16 = code d mod 16"
    using that by (metis div_mult_mod_eq of_char_eq_iff)
  assume eq: "escape_control c @ s = escape_control d @ t"
  show ?thesis
  proof (cases "is_control c"; cases "is_control d")
    assume ctrl: "is_control c" "is_control d"
    with eq have "hex_char (code c div 16) = hex_char (code d div 16)"
        "hex_char (code c mod 16) = hex_char (code d mod 16)" "s = t"
      by (simp_all add: escape_control_def)
    with hex_char_inj code_nibbles same show ?thesis by blast
  qed (use eq plain in \<open>auto simp: escape_control_def split: if_splits\<close>)
qed

lemma escape_inj: "concat (map escape_control s) = concat (map escape_control t) \<Longrightarrow> s = t"
proof (induction s arbitrary: t)
  case Nil
  then show ?case by (cases t) (auto simp: escape_control_def split: if_splits)
next
  case (Cons c s)
  then obtain d t' where t: "t = d # t'" by (cases t) (auto simp: escape_control_def split: if_splits)
  with Cons.prems have "escape_control c @ concat (map escape_control s) = escape_control d @ concat (map escape_control t')"
    by simp
  from escape_prefix_free [OF this] Cons.IH t show ?case by blast
qed

text \<open>
  A request cannot forge a log line. No character the client put in the message reaches the log as a
  control character, line breaks and escape sequences included; and the escapes are unambiguous, for different
  messages of one client give different lines.
\<close>

theorem log_line_safe:
  "(\<exists>text. log_line remote_ip address_string message = client_ip remote_ip address_string @ '' '' @ text
      \<and> list_all (\<lambda>c. \<not> is_control c) text)
   \<and> inj (log_line remote_ip address_string)"
proof
  have "list_all (\<lambda>c. \<not> is_control c) (concat (map escape_control message))"
    by (induction message) (simp_all add: escape_printable)
  then show "\<exists>text. log_line remote_ip address_string message = client_ip remote_ip address_string @ '' '' @ text
      \<and> list_all (\<lambda>c. \<not> is_control c) text"
    unfolding log_line_def by blast
  show "inj (log_line remote_ip address_string)"
    by (rule injI) (simp add: log_line_def escape_inj)
qed

end
