(* ===== verification/Spec2Isabelle.thy ===== *)
theory Spec2Isabelle
  imports
    PowerDNS_Properties
    PowerDNS_Database_Properties
    Ports_Properties
    Monitor_Shutdown
    Failover
    Program
    Build_Backend
    Json_Properties
    Routing_Properties
    View_Properties
    Check_Verdicts
    Config_Properties
    Abstract_Thread
    Monitor_Properties
    Password
    Page_Request
    Query_Parser_Properties
    Table_Properties
    Status_Page
    W2UI_Properties
    PowerDNS_Queries_Properties
    Admin_Properties
    Server_Roles_Properties
    Http_Properties
    Http_Server
    System_Service
begin

text \<open>
  PowerGSLB, a global server load balancer behind the PowerDNS remote backend. The Python package under
  \<open>src/src/powergslb\<close> has two data paths over one database. The DNS path answers \<open>/dns\<close> requests of
  PowerDNS: it reads the records of a name, keeps those whose view admits the client and whose
  content the health checks have not marked down, and lets the routing policy pick the answers. The
  admin path serves a w2ui grid: it parses the query, authorises the user and reads or writes
  the tables. The monitor polls the database, runs one thread per health check and records what is
  down in a registry that the DNS path and the admin status table read.

  Conventions. A computation that may raise has type \<open>'a result = py_error + 'a\<close>; \<open>Inl\<close> is the
  exception. JSON and Python values are \<open>pyval\<close>, dicts association lists in insertion order, strings
  \<open>char list\<close> (code points below 256), integers \<open>int\<close>, IP addresses words. Randomness is a
  stream of draws, time and outside events are lists of events. Database access is an \<open>executor\<close> over an
  abstract state. Code outside \<open>src/\<close> (ipaddress, maxminddb, blake2b, crypt, urllib, the process and socket
  calls, the database server) is a parameter, constrained only by named hypotheses where a property needs one.

  Theories, bottom up.
  \<^item> \<open>Py_Prelude\<close>, \<open>Py_Strings\<close>, \<open>Py_Random\<close>: results, values, the string and integer functions of the
    standard library the source uses, \<open>randrange\<close> and \<open>sample\<close>.
  \<^item> \<open>Dataclass_Fields\<close>, \<open>Lru_Cache\<close>: the validated dataclass fields that routing policies and checks share,
    and \<open>functools.lru_cache\<close>; the locale \<open>memoised\<close> shows that a cached call returns what the function does.
  \<^item> \<open>Client\<close>, \<open>GeoIP\<close>, \<open>View_Rule\<close>: \<open>client/context.py\<close>, \<open>view/geoip.py\<close>, \<open>view/rule.py\<close>.
  \<^item> \<open>Routing_Base\<close>, \<open>Round_Robin\<close>, \<open>Weighted_Random\<close>, \<open>Sticky_Hash\<close>, \<open>Routing\<close>: \<open>routing/*.py\<close>; the locale
    \<open>strategy\<close> states what the DNS path relies on of a policy and is interpreted for each.
  \<^item> \<open>Status_Registry\<close>: \<open>monitor/status.py\<close>; the locale \<open>status_set\<close> is its contract.
  \<^item> \<open>PowerDNS_Select\<close>, \<open>PowerDNS_Handler\<close>: \<open>server/http/handler/powerdns.py\<close>.
    \<open>PowerDNS_Select_Proofs\<close> gives the pure specification of the selection.
  \<^item> \<open>Check_Base\<close>, \<open>Check_Execute\<close> (verdicts in \<open>Check_Verdicts\<close>), \<open>Check_Thread\<close>, \<open>Abstract_Thread\<close>, \<open>Monitor_Manager\<close>: \<open>monitor/check/*.py\<close>,
    \<open>monitor/thread.py\<close>, \<open>monitor/monitor.py\<close>.
  \<^item> \<open>Monitor_System\<close>: the monitor, its check threads and the abandoned ones as a labelled step relation over one registry;
    \<open>Monitor_System_Properties\<close> has its invariants, \<open>Failover\<close> what they mean for a lookup on that registry, and
    \<open>Monitor_Shutdown\<close> the monitor's own shutdown in the middle of an execution.
  \<^item> \<open>Config\<close>, \<open>Password\<close>: \<open>system/config.py\<close>, \<open>system/password.py\<close>.
  \<^item> \<open>Page_Request\<close>, \<open>Query_Parser\<close>, \<open>Url_Query\<close>: \<open>database/page.py\<close>, \<open>server/http/handler/queryparser.py\<close>.
  \<^item> \<open>Sql\<close>, \<open>Tables\<close>, \<open>Table_Operations\<close>: \<open>database/mysql/tables.py\<close> down to the statement texts; the locale
    \<open>guarded\<close> is the contract of an executor that keeps an invariant under allowed statements. \<open>Status_Page\<close> follows a page of
    records through its two statements.
  \<^item> \<open>Mysql_Database\<close>: \<open>database/mysql/database.py\<close>, connections, cursors, statements and \<open>transaction\<close> over an
    abstract driver. \<open>Transactions\<close> states the contract of a driver over a transactional server (locale
    \<open>transactional\<close>, with the executor contract as a sublocale) and shows that a block publishes all or nothing.
  \<^item> \<open>Json\<close>, \<open>W2UI\<close>: \<open>json.dumps\<close> and \<open>database/mysql/w2ui.py\<close>, the audited writes. \<open>PowerDNS_Queries\<close>:
    \<open>database/mysql/powerdns.py\<close>.
  \<^item> \<open>Admin_Handler\<close>, \<open>Admin_Static\<close>: \<open>server/http/handler/admin.py\<close>, authorization, the w2ui commands and their
    error replies; content negotiation and static files.
  \<^item> \<open>Request_Handler\<close>: \<open>server/http/handler/request.py\<close>, bodies, dispatch, responses, logging and the loop of a
    connection over what each request does. \<open>Http_Connection\<close> is that loop over the bytes a client sends, with the request
    line and the header lines of the standard library. \<open>Server_Roles\<close> plugs the DNS and the admin handler into the
    dispatch, \<open>Ports\<close> both into the connection; \<open>Ports_Properties\<close> says what bytes can do to the database.
    \<open>PowerDNS_Database\<close> is the DNS handler with its reads of the database, from the URL to the statement and the JSON reply.
  \<^item> \<open>Admin_Audit\<close>: the locales \<open>reader\<close> (what only reads, over any executor) and \<open>journaled\<close> (writes and transactions) follow
    an admin request from its credentials to its audit row; \<open>Statement_Verbs\<close> tells the statements that read from those
    that write. \<open>Mysql_Journal\<close> shows that \<open>database.py\<close>, its reconnections and lost sessions included, has both contracts
    over any driver of the locale \<open>journaling\<close>, which extends \<open>transactional\<close> with what a statement does to its session.
  \<^item> \<open>Json_Reader\<close>: the JSON grammar as a reader, the reference for the texts of \<open>Json\<close>.
  \<^item> \<open>Service_Thread\<close>: the protocol of \<open>system/thread.py\<close> as the locales \<open>service_thread\<close> and \<open>prompt_thread\<close>, interpreted by
    \<open>Abstract_Thread\<close> and \<open>Http_Server\<close> (\<open>server/http/server.py\<close>, the serving thread against \<open>shutdown\<close>).
  \<^item> \<open>System_Service\<close>: \<open>system/service.py\<close>, the supervisor over the events of signals and dying threads.
  \<^item> \<open>Program\<close>: \<open>main.py\<close>, from the configuration to the three supervised threads. \<open>Build_Backend\<close>:
    \<open>build_backend/backend.py\<close>, the compressed siblings of the admin assets.
  \<^item> The \<open>*_Properties\<close> theories state the properties; \<open>Demo_Env\<close> has the concrete inputs of the witnesses.

  What the properties show, by group: an answer is one the specification of the selection allows, at the right
  scope, and errors keep their documented form (DNS path); records are chosen by the declared policy; the
  monitor's threads and the registry follow the database, in every interleaving, and a failed record is not answered while
  another one is up; a reply is JSON of its answers, which come from the rows of one statement; every statement is bound and declared, a write is
  published whole with its audit row or not at all, and whatever bytes a client sends, what it changes is signed by the user who was
  authenticated; the messages of a connection are answered one by one; nothing of the admin interface is reached without valid
  credentials and no internal error is disclosed; requests are bounded, responses describe their bodies and
  logs hide secrets; threads end after a shutdown and the supervisor's exit code says why it ended.

  Bounds and fuel. No operation runs on fuel: recursion is structural or has a measure; the reference reader of JSON has fuel,
  for which the length of the text is enough. The supervisor runs over a
  finite list of outside events and reports that it still waits at its end; a connection runs over the bytes the client sends before it
  closes, and ends. Request and header lines are at most 65536 bytes, heads at most 100 lines, bodies at most a mebibyte. A
  shutdown of the HTTP server takes at most eleven steps, of a thread loop at most four.

  Not modelled. The command line, sockets, TLS records, the reader of header fields (the email package), cursors and base64 are
  the standard library's or the connector's. An idle client is one that closes: a timeout ends the connection as the end of the
  stream does. Dates and times of database rows are text already, as \<open>json_default\<close> renders them. Debug and error messages are
  modelled only where a property speaks of them. Concurrency inside one handler does not exist in the code: it has one
  thread per connection, its own database connection, and shares the registry, whose methods are single steps here; the \<open>status\<close> of a lookup is
  the set of the ids that are down when the lookup asks for them.
\<close>

end
